(* ===== verification/Prelude.thy ===== *)
theory Prelude
  imports Main "HOL-Library.Word" "HOL-Library.Sublist"
begin

text \<open>
  Shared vocabulary of the development: how Go values are represented, the lemma
  collections the component theories feed, and generic facts on lists, options and
  maps that several components use.

  \<^item> A Go \<open>string\<close> and a Go \<open>[]byte\<close> are both sequences of bytes, so both are
    HOL \<^typ>\<open>string\<close> (a \<open>char\<close> is exactly one byte).
  \<^item> A Go call that returns \<open>(T, error)\<close> is a value of \<open>'e + 'a\<close>: \<open>Inl\<close> carries
    the error, \<open>Inr\<close> the value.
  \<^item> A Go \<open>int\<close> is 64 bits wide; values are kept as \<^typ>\<open>int\<close> and arithmetic
    that can leave the range goes through \<open>wrap64\<close>.
  \<^item> A Go \<open>map[K]V\<close> is a HOL map \<open>'k \<rightharpoonup> 'v\<close>; \<open>delete(m, k)\<close> is
    \<open>m(k := None)\<close>.
\<close>

named_theorems inv_defs \<open>definitions of component invariants\<close>
named_theorems op_defs \<open>definitions of operations, unfolded in component proofs\<close>
named_theorems frame \<open>which parts of a state an operation leaves alone\<close>

type_synonym bytes = string
type_synonym peer_id = string
type_synonym pane_id = string

section \<open>Sixty-four bit integers\<close>

definition min_int64 :: int where "min_int64 = - (2 ^ 63)"
definition max_int64 :: int where "max_int64 = 2 ^ 63 - 1"

text \<open>Two's complement wrap-around of Go's \<open>int\<close> arithmetic.\<close>

definition wrap64 :: "int \<Rightarrow> int" where
  "wrap64 x = (x + 2 ^ 63) mod 2 ^ 64 - 2 ^ 63"

lemma wrap64_range: "min_int64 \<le> wrap64 x \<and> wrap64 x \<le> max_int64"
  by (simp add: wrap64_def min_int64_def max_int64_def)

lemma wrap64_id: "min_int64 \<le> x \<Longrightarrow> x \<le> max_int64 \<Longrightarrow> wrap64 x = x"
  by (simp add: wrap64_def min_int64_def max_int64_def)

section \<open>Results\<close>

text \<open>Sequencing of fallible calls: the first error is returned at once.\<close>

fun bindE :: "'e + 'a \<Rightarrow> ('a \<Rightarrow> 'e + 'b) \<Rightarrow> 'e + 'b" where
  "bindE (Inl e) f = Inl e"
| "bindE (Inr x) f = f x"

lemma bindE_Inr_iff [simp]: "bindE r f = Inr y \<longleftrightarrow> (\<exists>x. r = Inr x \<and> f x = Inr y)"
  by (cases r) auto

lemma bindE_Inl_iff: "bindE r f = Inl e \<longleftrightarrow> r = Inl e \<or> (\<exists>x. r = Inr x \<and> f x = Inl e)"
  by (cases r) auto

definition isOK :: "'e + 'a \<Rightarrow> bool" where
  "isOK r = (case r of Inl _ \<Rightarrow> False | Inr _ \<Rightarrow> True)"

lemma isOK_simps [simp]: "isOK (Inr x)" "\<not> isOK (Inl e)"
  by (simp_all add: isOK_def)

lemma isOK_iff: "isOK r \<longleftrightarrow> (\<exists>x. r = Inr x)"
  by (cases r) auto

section \<open>Lists\<close>

lemma dropWhile_eq_self: "(xs = [] \<or> \<not> P (hd xs)) \<Longrightarrow> dropWhile P xs = xs"
  by (cases xs) auto

lemma takeWhile_all: "(\<And>x. x \<in> set xs \<Longrightarrow> P x) \<Longrightarrow> takeWhile P xs = xs"
  by simp

lemma append_eq_of_length:
  assumes "length a = length c" and "a @ b = c @ d"
  shows "a = c \<and> b = d"
  using assms by simp

lemma takeWhile_append_sep:
  "c \<notin> set xs \<Longrightarrow> takeWhile (\<lambda>x. x \<noteq> c) (xs @ c # ys) = xs"
  by (induction xs) auto

lemma dropWhile_append_sep:
  "c \<notin> set xs \<Longrightarrow> dropWhile (\<lambda>x. x \<noteq> c) (xs @ c # ys) = c # ys"
  by (induction xs) auto

lemma takeWhile_notin: "c \<notin> set xs \<Longrightarrow> takeWhile (\<lambda>x. x \<noteq> c) xs = xs"
  by (induction xs) auto

section \<open>Maps\<close>

text \<open>Deleting a key and the size of a finite map.\<close>

lemma card_dom_upd_present:
  "m k \<noteq> None \<Longrightarrow> card (dom (m(k \<mapsto> v))) = card (dom m)"
proof -
  assume "m k \<noteq> None"
  then have "insert k (dom m) = dom m" by auto
  then show ?thesis by simp
qed

lemma card_dom_upd_absent:
  "finite (dom m) \<Longrightarrow> m k = None \<Longrightarrow> card (dom (m(k \<mapsto> v))) = Suc (card (dom m))"
  by (simp add: domIff)

lemma card_dom_del: "finite (dom m) \<Longrightarrow> card (dom (m(k := None))) \<le> card (dom m)"
  by (intro card_mono) auto

section \<open>Event traces\<close>

text \<open>\<open>preceded P Q tr\<close>: whenever an event of the trace satisfies \<open>Q\<close>, the part of the trace
  before it satisfies \<open>P\<close>.\<close>

definition preceded :: "('e list \<Rightarrow> bool) \<Rightarrow> ('e \<Rightarrow> bool) \<Rightarrow> 'e list \<Rightarrow> bool" where
  "preceded P Q tr \<longleftrightarrow> (\<forall>xs e ys. tr = xs @ e # ys \<longrightarrow> Q e \<longrightarrow> P xs)"

lemma preceded_Nil [simp]: "preceded P Q []"
  by (simp add: preceded_def)

lemma snoc_eq_split:
  "tr @ [e] = xs @ e' # ys \<longleftrightarrow> (ys = [] \<and> xs = tr \<and> e' = e) \<or> (\<exists>zs. ys = zs @ [e] \<and> tr = xs @ e' # zs)"
  by (cases ys rule: rev_cases) auto

lemma preceded_snoc [simp]: "preceded P Q (tr @ [e]) \<longleftrightarrow> preceded P Q tr \<and> (Q e \<longrightarrow> P tr)"
  unfolding preceded_def snoc_eq_split by blast

lemma preceded_snoc2 [simp]:
  "preceded P Q (tr @ [a, b]) \<longleftrightarrow> preceded P Q tr \<and> (Q a \<longrightarrow> P tr) \<and> (Q b \<longrightarrow> P (tr @ [a]))"
  using preceded_snoc [of P Q "tr @ [a]" b] by simp

section \<open>Reachable states\<close>

text \<open>The states a step relation reaches from its initial states. A component that is a
  state machine interprets \<open>machine\<close> with its own initial states, steps and invariant, and
  gets the invariant in every reachable state.\<close>

inductive reach :: "('s \<Rightarrow> bool) \<Rightarrow> ('s \<Rightarrow> 's \<Rightarrow> bool) \<Rightarrow> 's \<Rightarrow> bool"
  for init :: "'s \<Rightarrow> bool" and step :: "'s \<Rightarrow> 's \<Rightarrow> bool" where
  start: "init s \<Longrightarrow> reach init step s"
| move: "reach init step s \<Longrightarrow> step s t \<Longrightarrow> reach init step t"

lemma reach_steps: "reach init step s \<Longrightarrow> step\<^sup>*\<^sup>* s t \<Longrightarrow> reach init step t"
  by (rotate_tac, induction rule: rtranclp_induct) (auto intro: reach.move)

locale machine =
  fixes init :: "'s \<Rightarrow> bool" and step :: "'s \<Rightarrow> 's \<Rightarrow> bool" and inv :: "'s \<Rightarrow> bool"
  assumes inv_init: "init s \<Longrightarrow> inv s"
    and inv_step: "inv s \<Longrightarrow> step s t \<Longrightarrow> inv t"
begin

lemma inv_reach: "reach init step s \<Longrightarrow> inv s"
  by (induction rule: reach.induct) (auto intro: inv_init inv_step)

lemma inv_next: "reach init step s \<Longrightarrow> step s t \<Longrightarrow> inv s \<and> inv t"
  using inv_reach inv_step by blast

end

end
