(* ===== verification/Go_Std.thy ===== *)
theory Go_Std
  imports Prelude
begin

text \<open>
  What the agent uses of Go's standard library, as executable functions:
  \<open>strings\<close> (Split, SplitN, TrimRight, TrimSpace, Contains, HasPrefix, ReplaceAll),
  \<open>strconv\<close> (ParseUint, ParseInt, Atoi, Itoa), \<open>encoding/hex\<close>,
  \<open>encoding/base64\<close> (StdEncoding) and \<open>crypto/sha256\<close> with \<open>crypto/hmac\<close>.
  Numbers parse with Go's error values: a syntax error yields 0, a range error the
  nearest representable number.
\<close>

section \<open>Package strings\<close>

text \<open>\<open>strings.Split(s, sep)\<close> for a one-byte separator; never the empty list.\<close>

fun split_on :: "char \<Rightarrow> string \<Rightarrow> string list" where
  "split_on c [] = [[]]"
| "split_on c (x # xs) =
     (if x = c then [] # split_on c xs
      else (case split_on c xs of
              [] \<Rightarrow> [[x]]
            | p # ps \<Rightarrow> (x # p) # ps))"

text \<open>\<open>strings.SplitN(s, sep, n)\<close> for \<open>n > 0\<close>: at most \<open>n\<close> pieces, the last
  piece keeps any further separators. \<open>n = 0\<close> gives no pieces.\<close>

fun splitN :: "char \<Rightarrow> nat \<Rightarrow> string \<Rightarrow> string list" where
  "splitN c 0 s = []"
| "splitN c (Suc 0) s = [s]"
| "splitN c (Suc (Suc n)) s =
     (if c \<in> set s
      then takeWhile (\<lambda>x. x \<noteq> c) s # splitN c (Suc n) (tl (dropWhile (\<lambda>x. x \<noteq> c) s))
      else [s])"

text \<open>\<open>strings.Join\<close> with a one-byte separator.\<close>

fun join_with :: "char \<Rightarrow> string list \<Rightarrow> string" where
  "join_with c [] = []"
| "join_with c [p] = p"
| "join_with c (p # q # ps) = p @ c # join_with c (q # ps)"

text \<open>\<open>strings.TrimRight(s, cutset)\<close> for a one-byte cutset.\<close>

definition trim_right :: "char \<Rightarrow> string \<Rightarrow> string" where
  "trim_right c s = rev (dropWhile (\<lambda>x. x = c) (rev s))"

text \<open>\<open>strings.HasPrefix\<close> and \<open>strings.Contains\<close>.\<close>

fun has_prefix :: "string \<Rightarrow> string \<Rightarrow> bool" where
  "has_prefix s [] = True"
| "has_prefix [] (p # ps) = False"
| "has_prefix (x # xs) (p # ps) = (x = p \<and> has_prefix xs ps)"

fun contains_sub :: "string \<Rightarrow> string \<Rightarrow> bool" where
  "contains_sub [] p = (p = [])"
| "contains_sub (x # xs) p = (has_prefix (x # xs) p \<or> contains_sub xs p)"

text \<open>\<open>strings.TrimSpace\<close>: the UTF-8 encodings of the runes \<open>unicode.IsSpace\<close>
  accepts are removed at both ends.\<close>

definition space_runes :: "string list" where
  "space_runes =
     [[CHR 0x09], [CHR 0x0A], [CHR 0x0B], [CHR 0x0C], [CHR 0x0D], [CHR 0x20],
      [CHR 0xC2, CHR 0x85], [CHR 0xC2, CHR 0xA0], [CHR 0xE1, CHR 0x9A, CHR 0x80],
      [CHR 0xE2, CHR 0x80, CHR 0x80], [CHR 0xE2, CHR 0x80, CHR 0x81],
      [CHR 0xE2, CHR 0x80, CHR 0x82], [CHR 0xE2, CHR 0x80, CHR 0x83],
      [CHR 0xE2, CHR 0x80, CHR 0x84], [CHR 0xE2, CHR 0x80, CHR 0x85],
      [CHR 0xE2, CHR 0x80, CHR 0x86], [CHR 0xE2, CHR 0x80, CHR 0x87],
      [CHR 0xE2, CHR 0x80, CHR 0x88], [CHR 0xE2, CHR 0x80, CHR 0x89],
      [CHR 0xE2, CHR 0x80, CHR 0x8A], [CHR 0xE2, CHR 0x80, CHR 0xA8],
      [CHR 0xE2, CHR 0x80, CHR 0xA9], [CHR 0xE2, CHR 0x80, CHR 0xAF],
      [CHR 0xE2, CHR 0x81, CHR 0x9F], [CHR 0xE3, CHR 0x80, CHR 0x80]]"

fun strip_prefixes :: "nat \<Rightarrow> string list \<Rightarrow> string \<Rightarrow> string" where
  "strip_prefixes 0 ws s = s"
| "strip_prefixes (Suc n) ws s =
     (case find (\<lambda>w. has_prefix s w) ws of
        None \<Rightarrow> s
      | Some w \<Rightarrow> strip_prefixes n ws (drop (length w) s))"

text \<open>Each round removes at least one byte, so \<open>length s\<close> rounds are enough.\<close>

definition trim_space :: "string \<Rightarrow> string" where
  "trim_space s =
     (let l = strip_prefixes (length s) space_runes s
      in rev (strip_prefixes (length l) (map rev space_runes) (rev l)))"

text \<open>\<open>strings.ReplaceAll(s, old, new)\<close> for a one-byte \<open>old\<close>.\<close>

definition replace_all :: "char \<Rightarrow> string \<Rightarrow> string \<Rightarrow> string" where
  "replace_all c new s = concat (map (\<lambda>x. if x = c then new else [x]) s)"

text \<open>\<open>strings.ToLower\<close>. Two non-ASCII runes have an ASCII lower case (U+0130 and
  U+212A); every other non-ASCII byte is kept, so the result agrees with Go's wherever
  either of the two is an ASCII string, which is all the callers compare against.\<close>

definition lower_char :: "char \<Rightarrow> char" where
  "lower_char c = (let n = (of_char c :: nat) in
     if 65 \<le> n \<and> n \<le> 90 then char_of (n + 32) else c)"

fun to_lower :: "string \<Rightarrow> string" where
  "to_lower [] = []"
| "to_lower (c # cs) =
     (if has_prefix (c # cs) [CHR 0xC4, CHR 0xB0] then CHR ''i'' # to_lower (tl cs)
      else if has_prefix (c # cs) [CHR 0xE2, CHR 0x84, CHR 0xAA] then CHR ''k'' # to_lower (tl (tl cs))
      else lower_char c # to_lower cs)"

text \<open>\<open>strings.EqualFold\<close> against an ASCII string: letters fold to lower case, and the two
  non-ASCII runes whose case orbit holds an ASCII letter (U+017F and U+212A) fold to it.\<close>

fun fold_case :: "string \<Rightarrow> string" where
  "fold_case [] = []"
| "fold_case (c # cs) =
     (if has_prefix (c # cs) [CHR 0xC5, CHR 0xBF] then CHR ''s'' # fold_case (tl cs)
      else if has_prefix (c # cs) [CHR 0xE2, CHR 0x84, CHR 0xAA] then CHR ''k'' # fold_case (tl (tl cs))
      else lower_char c # fold_case cs)"

definition equal_fold :: "string \<Rightarrow> string \<Rightarrow> bool" where
  "equal_fold s t \<longleftrightarrow> fold_case s = fold_case t"

section \<open>Package strconv\<close>

datatype num_error = ErrSyntax | ErrRange

definition digit_val :: "char \<Rightarrow> nat option" where
  "digit_val c = (let n = (of_char c :: nat) in
     if 48 \<le> n \<and> n \<le> 57 then Some (n - 48) else None)"

text \<open>The digit loop of \<open>ParseUint(s, 10, bits)\<close>: a value past \<open>mx\<close> is reported
  at once, before later characters are looked at.\<close>

fun parse_uint_loop :: "nat \<Rightarrow> nat \<Rightarrow> string \<Rightarrow> nat \<times> num_error option" where
  "parse_uint_loop mx n [] = (n, None)"
| "parse_uint_loop mx n (c # cs) =
     (case digit_val c of
        None \<Rightarrow> (0, Some ErrSyntax)
      | Some d \<Rightarrow> if 10 * n + d > mx then (mx, Some ErrRange)
                  else parse_uint_loop mx (10 * n + d) cs)"

definition parse_uint :: "nat \<Rightarrow> string \<Rightarrow> nat \<times> num_error option" where
  "parse_uint bits s =
     (if s = [] then (0, Some ErrSyntax) else parse_uint_loop (2 ^ bits - 1) 0 s)"

text \<open>\<open>ParseInt(s, 10, 64)\<close>, which is also what \<open>Atoi\<close> computes on a 64-bit host.\<close>

definition parse_int :: "string \<Rightarrow> int \<times> num_error option" where
  "parse_int s =
     (let neg = (s \<noteq> [] \<and> hd s = CHR ''-'');
          body = (if s \<noteq> [] \<and> (hd s = CHR ''-'' \<or> hd s = CHR ''+'') then tl s else s);
          (un, err) = parse_uint 64 body
      in if err = Some ErrSyntax then (0, err)
         else if \<not> neg \<and> int un > max_int64 then (max_int64, Some ErrRange)
         else if neg \<and> int un > - min_int64 then (min_int64, Some ErrRange)
         else (if neg then - int un else int un, err))"

text \<open>\<open>strconv.Itoa\<close>.\<close>

fun nat_digits :: "nat \<Rightarrow> string" where
  "nat_digits n =
     (if n < 10 then [char_of (48 + n)] else nat_digits (n div 10) @ [char_of (48 + n mod 10)])"

declare nat_digits.simps [simp del]

definition itoa :: "int \<Rightarrow> string" where
  "itoa i = (if i < 0 then CHR ''-'' # nat_digits (nat (- i)) else nat_digits (nat i))"

section \<open>Package encoding/hex\<close>

definition hex_char :: "nat \<Rightarrow> char" where
  "hex_char n = (if n < 10 then char_of (48 + n) else char_of (87 + n))"

definition hex_byte :: "char \<Rightarrow> string" where
  "hex_byte c = [hex_char (of_char c div 16), hex_char (of_char c mod 16)]"

definition hex_encode :: "bytes \<Rightarrow> string" where
  "hex_encode bs = concat (map hex_byte bs)"

definition is_lower_hex :: "char \<Rightarrow> bool" where
  "is_lower_hex c = (let n = (of_char c :: nat) in (48 \<le> n \<and> n \<le> 57) \<or> (97 \<le> n \<and> n \<le> 102))"

text \<open>\<open>hex.DecodeString\<close> accepts both letter cases; odd lengths are an error.\<close>

definition hex_val :: "char \<Rightarrow> nat option" where
  "hex_val c = (let n = (of_char c :: nat) in
     if 48 \<le> n \<and> n \<le> 57 then Some (n - 48)
     else if 97 \<le> n \<and> n \<le> 102 then Some (n - 87)
     else if 65 \<le> n \<and> n \<le> 70 then Some (n - 55)
     else None)"

fun hex_decode :: "string \<Rightarrow> bytes option" where
  "hex_decode [] = Some []"
| "hex_decode [c] = None"
| "hex_decode (a # b # cs) =
     (case (hex_val a, hex_val b, hex_decode cs) of
        (Some x, Some y, Some r) \<Rightarrow> Some (char_of (16 * x + y) # r)
      | _ \<Rightarrow> None)"

section \<open>Package encoding/base64, StdEncoding\<close>

definition b64_char :: "nat \<Rightarrow> char" where
  "b64_char n =
     (if n < 26 then char_of (65 + n)
      else if n < 52 then char_of (71 + n)
      else if n < 62 then char_of (n - 4)
      else if n = 62 then CHR ''+'' else CHR ''/'')"

definition b64_val :: "char \<Rightarrow> nat option" where
  "b64_val c = (let n = (of_char c :: nat) in
     if 65 \<le> n \<and> n \<le> 90 then Some (n - 65)
     else if 97 \<le> n \<and> n \<le> 122 then Some (n - 71)
     else if 48 \<le> n \<and> n \<le> 57 then Some (n + 4)
     else if c = CHR ''+'' then Some 62
     else if c = CHR ''/'' then Some 63
     else None)"

fun b64_encode :: "bytes \<Rightarrow> string" where
  "b64_encode [] = []"
| "b64_encode [a] =
     (let x = (of_char a :: nat)
      in [b64_char (x div 4), b64_char ((x mod 4) * 16), CHR ''='', CHR ''=''])"
| "b64_encode [a, b] =
     (let x = (of_char a :: nat); y = of_char b
      in [b64_char (x div 4), b64_char ((x mod 4) * 16 + y div 16),
          b64_char ((y mod 16) * 4), CHR ''=''])"
| "b64_encode (a # b # c # r) =
     (let x = (of_char a :: nat); y = of_char b; z = of_char c
      in [b64_char (x div 4), b64_char ((x mod 4) * 16 + y div 16),
          b64_char ((y mod 16) * 4 + z div 64), b64_char (z mod 64)] @ b64_encode r)"

text \<open>The decoder works on quanta of four characters; carriage returns and line feeds
  are skipped everywhere, padding must be complete and last, and unused trailing bits
  are not checked (StdEncoding is not the strict variant).\<close>

fun b64_quanta :: "string \<Rightarrow> bytes option" where
  "b64_quanta [] = Some []"
| "b64_quanta (a # b # c # d # r) =
     (case (b64_val a, b64_val b) of
        (Some w, Some x) \<Rightarrow>
          (if c = CHR ''='' then
             (if d = CHR ''='' \<and> r = [] then Some [char_of (w * 4 + x div 16)] else None)
           else (case b64_val c of
              None \<Rightarrow> None
            | Some y \<Rightarrow>
               if d = CHR ''='' then
                 (if r = [] then Some [char_of (w * 4 + x div 16),
                                       char_of ((x mod 16) * 16 + y div 4)] else None)
               else (case (b64_val d, b64_quanta r) of
                  (Some z, Some bs) \<Rightarrow>
                     Some (char_of (w * 4 + x div 16) # char_of ((x mod 16) * 16 + y div 4)
                           # char_of ((y mod 4) * 64 + z) # bs)
                | _ \<Rightarrow> None)))
      | _ \<Rightarrow> None)"
| "b64_quanta _ = None"

definition b64_decode :: "string \<Rightarrow> bytes option" where
  "b64_decode s = b64_quanta (filter (\<lambda>c. c \<noteq> CHR 0x0A \<and> c \<noteq> CHR 0x0D) s)"

section \<open>Packages crypto/sha256 and crypto/hmac\<close>

text \<open>SHA-256 (FIPS 180-4) over 32-bit words and HMAC (RFC 2104) on top of it.\<close>

type_synonym u32 = "32 word"

definition rotr :: "nat \<Rightarrow> u32 \<Rightarrow> u32" where
  "rotr n x = word_rotr n x"

definition sha_k :: "u32 list" where
  "sha_k =
   [1116352408, 1899447441, 3049323471, 3921009573, 961987163, 1508970993,
    2453635748, 2870763221, 3624381080, 310598401, 607225278, 1426881987,
    1925078388, 2162078206, 2614888103, 3248222580, 3835390401, 4022224774,
    264347078, 604807628, 770255983, 1249150122, 1555081692, 1996064986,
    2554220882, 2821834349, 2952996808, 3210313671, 3336571891, 3584528711,
    113926993, 338241895, 666307205, 773529912, 1294757372, 1396182291,
    1695183700, 1986661051, 2177026350, 2456956037, 2730485921, 2820302411,
    3259730800, 3345764771, 3516065817, 3600352804, 4094571909, 275423344,
    430227734, 506948616, 659060556, 883997877, 958139571, 1322822218,
    1537002063, 1747873779, 1955562222, 2024104815, 2227730452, 2361852424,
    2428436474, 2756734187, 3204031479, 3329325298]"

type_synonym sha_state = "u32 \<times> u32 \<times> u32 \<times> u32 \<times> u32 \<times> u32 \<times> u32 \<times> u32"

definition sha_init :: sha_state where
  "sha_init = (1779033703, 3144134277, 1013904242, 2773480762,
               1359893119, 2600822924, 528734635, 1541459225)"

fun sha_round :: "sha_state \<Rightarrow> u32 \<times> u32 \<Rightarrow> sha_state" where
  "sha_round (a, b, c, d, e, f, g, h) (k, w) =
     (let s1 = xor (xor (rotr 6 e) (rotr 11 e)) (rotr 25 e);
          ch = xor (and e f) (and (not e) g);
          t1 = h + s1 + ch + k + w;
          s0 = xor (xor (rotr 2 a) (rotr 13 a)) (rotr 22 a);
          maj = xor (xor (and a b) (and a c)) (and b c);
          t2 = s0 + maj
      in (t1 + t2, a, b, c, d + t1, e, f, g))"

text \<open>The message schedule, newest word first: 16 words are extended to 64.\<close>

fun sha_extend :: "nat \<Rightarrow> u32 list \<Rightarrow> u32 list" where
  "sha_extend 0 ws = ws"
| "sha_extend (Suc n) ws =
     (let x = ws ! 14; y = ws ! 1;
          s0 = xor (xor (rotr 7 x) (rotr 18 x)) (drop_bit 3 x);
          s1 = xor (xor (rotr 17 y) (rotr 19 y)) (drop_bit 10 y)
      in sha_extend n ((ws ! 15 + s0 + ws ! 6 + s1) # ws))"

definition sha_block :: "sha_state \<Rightarrow> u32 list \<Rightarrow> sha_state" where
  "sha_block st ws =
     (let sched = rev (sha_extend 48 (rev ws));
          (a, b, c, d, e, f, g, h) = foldl sha_round st (zip sha_k sched);
          (a0, b0, c0, d0, e0, f0, g0, h0) = st
      in (a0 + a, b0 + b, c0 + c, d0 + d, e0 + e, f0 + f, g0 + g, h0 + h))"

fun be_words :: "bytes \<Rightarrow> u32 list" where
  "be_words (a # b # c # d # r) =
     (of_nat (((of_char a * 256 + of_char b) * 256 + of_char c) * 256 + of_char d) :: u32)
     # be_words r"
| "be_words _ = []"

definition be_bytes :: "nat \<Rightarrow> nat \<Rightarrow> bytes" where
  "be_bytes n v = map (\<lambda>i. char_of (v div 256 ^ (n - 1 - i))) [0..<n]"

definition sha_pad :: "bytes \<Rightarrow> bytes" where
  "sha_pad m = m @ [CHR 0x80] @ replicate ((119 - length m mod 64) mod 64) (CHR 0x00)
               @ be_bytes 8 (8 * length m)"

fun sha_blocks :: "nat \<Rightarrow> sha_state \<Rightarrow> u32 list \<Rightarrow> sha_state" where
  "sha_blocks 0 st ws = st"
| "sha_blocks (Suc n) st ws = sha_blocks n (sha_block st (take 16 ws)) (drop 16 ws)"

definition sha256 :: "bytes \<Rightarrow> bytes" where
  "sha256 m =
     (let p = sha_pad m;
          (a, b, c, d, e, f, g, h) = sha_blocks (length p div 64) sha_init (be_words p)
      in concat (map (\<lambda>w. be_bytes 4 (unat w)) [a, b, c, d, e, f, g, h]))"

definition xor_pad :: "nat \<Rightarrow> bytes \<Rightarrow> bytes" where
  "xor_pad v k = map (\<lambda>c. char_of (xor (of_char c) v)) (k @ replicate (64 - length k) (CHR 0x00))"

definition hmac_sha256 :: "bytes \<Rightarrow> bytes \<Rightarrow> bytes" where
  "hmac_sha256 key msg =
     (let k = (if length key > 64 then sha256 key else key)
      in sha256 (xor_pad 0x5c k @ sha256 (xor_pad 0x36 k @ msg)))"

section \<open>Round trips and sizes\<close>

lemma splitN_all: "c \<notin> set s \<Longrightarrow> splitN c (Suc n) s = [s]"
  by (cases n) auto

lemma splitN_cons:
  "c \<notin> set p \<Longrightarrow> splitN c (Suc (Suc n)) (p @ c # s) = p # splitN c (Suc n) s"
  by (simp add: takeWhile_append_sep dropWhile_append_sep)

lemma length_splitN_le: "length (splitN c n s) \<le> n"
  by (induction c n s rule: splitN.induct) auto

lemma splitN_nonempty: "splitN c (Suc n) s \<noteq> []"
  by (cases n) auto

text \<open>Splitting what \<open>Join\<close> produced gives the fields back, as long as no field but the
  last contains the separator.\<close>

lemma splitN_join:
  assumes "ps \<noteq> []" and "\<forall>p \<in> set (butlast ps). c \<notin> set p"
  shows "splitN c (length ps) (join_with c ps) = ps"
  using assms
proof (induction c ps rule: join_with.induct)
  case (3 c p q ps)
  then have "c \<notin> set p" by simp
  with 3 show ?case by (simp del: splitN.simps add: splitN_cons)
qed auto

lemma join_with_inj:
  assumes "length ps = length qs" "ps \<noteq> []"
    and "\<forall>p \<in> set (butlast ps). c \<notin> set p" and "\<forall>q \<in> set (butlast qs). c \<notin> set q"
    and "join_with c ps = join_with c qs"
  shows "ps = qs"
proof -
  from assms have "qs \<noteq> []" by auto
  have "ps = splitN c (length ps) (join_with c ps)"
    by (rule splitN_join [symmetric]) (use assms in auto)
  also have "\<dots> = splitN c (length qs) (join_with c qs)" by (simp only: assms)
  also have "\<dots> = qs"
    by (rule splitN_join) (use \<open>qs \<noteq> []\<close> assms in auto)
  finally show ?thesis .
qed

lemma of_char_lt: "(of_char c :: nat) < 256"
  by (rule nat_of_char_less_256)

lemma of_char_div16: "(of_char c :: nat) div 16 < 16"
  using of_char_lt [of c] by (simp add: less_mult_imp_div_less)

lemma hex_val_hex_char: "n < 16 \<Longrightarrow> hex_val (hex_char n) = Some n"
  by (auto simp: hex_val_def hex_char_def of_char_of Let_def)

lemma hex_decode_encode: "hex_decode (hex_encode bs) = Some bs"
proof (induction bs)
  case (Cons b bs)
  from Cons of_char_div16 [of b] show ?case
    by (simp add: hex_encode_def hex_byte_def hex_val_hex_char)
qed (simp add: hex_encode_def)

lemma length_hex_encode: "length (hex_encode bs) = 2 * length bs"
  by (induction bs) (simp_all add: hex_encode_def hex_byte_def)

lemma is_lower_hex_hex_char: "n < 16 \<Longrightarrow> is_lower_hex (hex_char n)"
  by (auto simp: is_lower_hex_def hex_char_def of_char_of Let_def)

lemma hex_encode_lower: "c \<in> set (hex_encode bs) \<Longrightarrow> is_lower_hex c"
proof (induction bs)
  case (Cons b bs)
  from Cons of_char_div16 [of b] show ?case
    by (auto simp: hex_encode_def hex_byte_def is_lower_hex_hex_char)
qed (simp add: hex_encode_def)

lemma of_char_b64_char:
  "n < 64 \<Longrightarrow> (of_char (b64_char n) :: nat) =
     (if n < 26 then 65 + n else if n < 52 then 71 + n else if n < 62 then n - 4
      else if n = 62 then 43 else 47)"
  by (auto simp: b64_char_def of_char_of)

lemma b64_char_neq: "n < 64 \<Longrightarrow> of_char c = (m :: nat) \<Longrightarrow> m < 43 \<or> m = 61 \<Longrightarrow> b64_char n \<noteq> c"
  using of_char_b64_char [of n] by (auto split: if_splits)

lemma b64_char_props:
  assumes "n < 64"
  shows "b64_val (b64_char n) = Some n"
    and "b64_char n \<noteq> CHR ''=''" and "b64_char n \<noteq> CHR 0x0A" and "b64_char n \<noteq> CHR 0x0D"
proof -
  consider "n < 26" | "26 \<le> n" "n < 52" | "52 \<le> n" "n < 62" | "n = 62" | "n = 63"
    using assms by linarith
  then show "b64_val (b64_char n) = Some n"
  proof cases
    case 4 then show ?thesis by (simp add: b64_val_def b64_char_def)
  next
    case 5 then show ?thesis by (simp add: b64_val_def b64_char_def)
  qed (simp_all add: b64_val_def of_char_b64_char Let_def, linarith)
  show "b64_char n \<noteq> CHR ''=''" using assms by (rule b64_char_neq [where m = 61]) simp_all
  show "b64_char n \<noteq> CHR 0x0A" using assms by (rule b64_char_neq [where m = 10]) simp_all
  show "b64_char n \<noteq> CHR 0x0D" using assms by (rule b64_char_neq [where m = 13]) simp_all
qed

text \<open>The arithmetic of one quantum: three bytes are cut into four sextets and put together
  again.\<close>

lemma sextet_bounds:
  fixes x y z :: nat
  assumes "x < 256" "y < 256" "z < 256"
  shows "(x mod 4) * 16 + y div 16 < 64" and "(y mod 16) * 4 + z div 64 < 64"
    and "x div 4 < 64" and "(x mod 4) * 16 < 64" and "(y mod 16) * 4 < 64" and "z mod 64 < 64"
proof -
  have "x mod 4 \<le> 3" "y div 16 \<le> 15" "y mod 16 \<le> 15" "z div 64 \<le> 3" "x div 4 \<le> 63"
    using assms by auto
  then show "(x mod 4) * 16 + y div 16 < 64" "(y mod 16) * 4 + z div 64 < 64" "x div 4 < 64"
    "(x mod 4) * 16 < 64" "(y mod 16) * 4 < 64" "z mod 64 < 64" by simp_all
qed

lemma sextet_join:
  fixes x y z :: nat
  assumes "y < 256" "z < 256"
  shows "x div 4 * 4 + ((x mod 4) * 16 + y div 16) div 16 = x"
    and "x div 4 * 4 + (x mod 4) * 16 div 16 = x"
    and "((x mod 4) * 16 + y div 16) mod 16 * 16 + ((y mod 16) * 4 + z div 64) div 4 = y"
    and "((x mod 4) * 16 + y div 16) mod 16 * 16 + (y mod 16) * 4 div 4 = y"
    and "((y mod 16) * 4 + z div 64) mod 4 * 64 + z mod 64 = z"
proof -
  have y: "y div 16 < 16" and z: "z div 64 < 4" using assms by auto
  have 1: "((x mod 4) * 16 + y div 16) div 16 = x mod 4"
   and 2: "((x mod 4) * 16 + y div 16) mod 16 = y div 16" using y by simp_all
  have 3: "((y mod 16) * 4 + z div 64) div 4 = y mod 16"
   and 4: "((y mod 16) * 4 + z div 64) mod 4 = z div 64" using z by simp_all
  show "x div 4 * 4 + ((x mod 4) * 16 + y div 16) div 16 = x" unfolding 1 by simp
  show "x div 4 * 4 + (x mod 4) * 16 div 16 = x" by simp
  show "((x mod 4) * 16 + y div 16) mod 16 * 16 + ((y mod 16) * 4 + z div 64) div 4 = y"
    unfolding 2 3 by simp
  show "((x mod 4) * 16 + y div 16) mod 16 * 16 + (y mod 16) * 4 div 4 = y"
    unfolding 2 by simp
  show "((y mod 16) * 4 + z div 64) mod 4 * 64 + z mod 64 = z" unfolding 4 by simp
qed

lemmas sextets =
  sextet_bounds [OF of_char_lt of_char_lt of_char_lt]
  b64_char_props [OF sextet_bounds(1) [OF of_char_lt of_char_lt of_char_lt]]
  b64_char_props [OF sextet_bounds(2) [OF of_char_lt of_char_lt of_char_lt]]
  b64_char_props [OF sextet_bounds(3) [OF of_char_lt of_char_lt of_char_lt]]
  b64_char_props [OF sextet_bounds(4) [OF of_char_lt of_char_lt of_char_lt]]
  b64_char_props [OF sextet_bounds(5) [OF of_char_lt of_char_lt of_char_lt]]
  b64_char_props [OF sextet_bounds(6) [OF of_char_lt of_char_lt of_char_lt]]

lemmas b64_eval = b64_encode.simps b64_quanta.simps Let_def append.simps option.case prod.case
  if_False if_True sextets simp_thms filter.simps sextet_join [OF of_char_lt of_char_lt]
  char_of_char

lemma b64_quanta_encode: "b64_quanta (b64_encode bs) = Some bs"
  by (induction bs rule: b64_encode.induct) (simp_all only: b64_eval)

lemma b64_encode_no_newline:
  "filter (\<lambda>c. c \<noteq> CHR 0x0A \<and> c \<noteq> CHR 0x0D) (b64_encode bs) = b64_encode bs"
  by (induction bs rule: b64_encode.induct) (simp_all only: b64_eval, simp_all)

theorem b64_decode_encode: "b64_decode (b64_encode bs) = Some bs"
  by (simp add: b64_decode_def b64_encode_no_newline b64_quanta_encode)

lemma length_b64_encode: "length (b64_encode bs) = 4 * ((length bs + 2) div 3)"
proof (induction bs rule: b64_encode.induct)
  case (4 a b c r)
  have "(5 + length r) div 3 = Suc ((length r + 2) div 3)" by presburger
  with 4 show ?case by (simp add: Let_def)
qed (simp_all add: Let_def)

lemma length_be_bytes [simp]: "length (be_bytes n v) = n"
  by (simp add: be_bytes_def)

lemma length_sha256 [simp]: "length (sha256 m) = 32"
  by (simp add: sha256_def Let_def split: prod.split)

lemma length_hmac_sha256 [simp]: "length (hmac_sha256 k m) = 32"
  by (simp add: hmac_sha256_def Let_def)

section \<open>Decimal numbers and lines\<close>

lemma digit_val_char: "d < 10 \<Longrightarrow> digit_val (char_of (48 + d)) = Some d"
  by (simp add: digit_val_def of_char_of Let_def)

lemma parse_uint_loop_append:
  "parse_uint_loop mx k xs = (m, None) \<Longrightarrow>
   parse_uint_loop mx k (xs @ ys) = parse_uint_loop mx m ys"
  by (induction xs arbitrary: k) (auto split: option.splits if_splits)

lemma parse_nat_digits: "n \<le> mx \<Longrightarrow> parse_uint_loop mx 0 (nat_digits n) = (n, None)"
proof (induction n rule: nat_digits.induct)
  case (1 n)
  show ?case
  proof (cases "n < 10")
    case True
    with 1 show ?thesis by (simp add: nat_digits.simps [of n] digit_val_char)
  next
    case False
    with 1 have "parse_uint_loop mx 0 (nat_digits (n div 10)) = (n div 10, None)"
      by (intro "1.IH") auto
    then have "parse_uint_loop mx 0 (nat_digits n)
        = parse_uint_loop mx (n div 10) [char_of (48 + n mod 10)]"
      using False "1.prems" by (simp add: nat_digits.simps [of n] parse_uint_loop_append)
    with "1.prems" show ?thesis by (simp add: digit_val_char)
  qed
qed

lemma nat_digits_inj: "nat_digits m = nat_digits n \<Longrightarrow> m = n"
  by (metis prod.inject max.cobounded1 max.cobounded2 parse_nat_digits)

lemma nat_digits_chars: "c \<in> set (nat_digits n) \<Longrightarrow> digit_val c \<noteq> None"
proof (induction n rule: nat_digits.induct)
  case (1 n)
  then show ?case
    using digit_val_char [of n] digit_val_char [of "n mod 10"]
    by (cases "n < 10") (auto simp: nat_digits.simps [of n])
qed

lemma nat_digits_nonempty [simp]: "nat_digits n \<noteq> []"
  by (simp add: nat_digits.simps [of n])

lemma hd_nat_digits: "hd (nat_digits n) \<noteq> CHR ''-'' \<and> hd (nat_digits n) \<noteq> CHR ''+''"
proof -
  have "digit_val (hd (nat_digits n)) \<noteq> None" using nat_digits_chars by (meson hd_in_set nat_digits_nonempty)
  then show ?thesis by (auto simp: digit_val_def Let_def split: if_splits)
qed

lemma parse_uint_digits: "n < 2 ^ b \<Longrightarrow> parse_uint b (nat_digits n) = (n, None)"
  by (simp add: parse_uint_def parse_nat_digits)

lemma parse_int_itoa:
  assumes "min_int64 \<le> i" and "i \<le> max_int64"
  shows "parse_int (itoa i) = (i, None)"
proof (cases "i < 0")
  case True
  from assms have "nat (- i) < 2 ^ 64" by (simp add: min_int64_def max_int64_def)
  with True assms show ?thesis
    by (simp add: parse_int_def itoa_def parse_uint_digits Let_def min_int64_def)
next
  case False
  from assms have "nat i < 2 ^ 64" by (simp add: min_int64_def max_int64_def)
  with False assms hd_nat_digits [of "nat i"] show ?thesis
    by (simp add: parse_int_def itoa_def parse_uint_digits Let_def max_int64_def)
qed

lemma itoa_chars: "c \<in> set (itoa i) \<Longrightarrow> c = CHR ''-'' \<or> digit_val c \<noteq> None"
  using nat_digits_chars by (auto simp: itoa_def split: if_splits)

lemma itoa_plain: "CHR ''|'' \<notin> set (itoa i)" "CHR 0x0A \<notin> set (itoa i)"
  by (auto dest!: itoa_chars simp: digit_val_def)

lemma split_on_plain: "c \<notin> set xs \<Longrightarrow> split_on c xs = [xs]"
  by (induction xs) auto

lemma split_on_nonempty [simp]: "split_on c xs \<noteq> []"
  by (induction xs) (auto split: list.splits)

lemma split_on_cons: "c \<notin> set xs \<Longrightarrow> split_on c (xs @ c # ys) = xs # split_on c ys"
  by (induction xs) auto

lemma split_on_join:
  "ps \<noteq> [] \<Longrightarrow> \<forall>p \<in> set ps. c \<notin> set p \<Longrightarrow> split_on c (join_with c ps) = ps"
  by (induction c ps rule: join_with.induct) (simp_all add: split_on_plain split_on_cons)

text \<open>A program that prints lines ends each with a line feed; \<open>TrimRight\<close> removes the last.\<close>

definition print_lines :: "string list \<Rightarrow> string" where
  "print_lines ls = concat (map (\<lambda>l. l @ [CHR 0x0A]) ls)"

lemma print_lines_join: "ls \<noteq> [] \<Longrightarrow> print_lines ls = join_with (CHR 0x0A) ls @ [CHR 0x0A]"
  by (induction "CHR 0x0A" ls rule: join_with.induct) (simp_all add: print_lines_def)

lemma trim_right_snoc: "x \<noteq> c \<Longrightarrow> trim_right c (xs @ [x]) = xs @ [x]"
  by (simp add: trim_right_def)

lemma trim_right_sep [simp]: "trim_right c (xs @ [c]) = trim_right c xs"
  by (simp add: trim_right_def)

lemma trim_right_id: "xs \<noteq> [] \<Longrightarrow> last xs \<noteq> c \<Longrightarrow> trim_right c xs = xs"
  by (metis append_butlast_last_id trim_right_snoc)

lemma last_join: "ps \<noteq> [] \<Longrightarrow> last ps \<noteq> [] \<Longrightarrow> last (join_with c ps) = last (last ps)"
proof (induction c ps rule: join_with.induct)
  case (3 c p q ps)
  have "join_with c (q # ps) \<noteq> []" using 3 by (cases ps) auto
  with 3 show ?case by simp
qed auto

lemma join_nonempty: "ps \<noteq> [] \<Longrightarrow> last ps \<noteq> [] \<Longrightarrow> join_with c ps \<noteq> []"
  by (cases "(c, ps)" rule: join_with.cases) auto

lemma trim_print_lines:
  assumes "ls \<noteq> []" and "\<forall>l \<in> set ls. l \<noteq> [] \<and> CHR 0x0A \<notin> set l"
  shows "trim_right (CHR 0x0A) (print_lines ls) = join_with (CHR 0x0A) ls"
proof -
  have "last ls \<in> set ls" using assms(1) by simp
  then have l: "last ls \<noteq> []" "CHR 0x0A \<notin> set (last ls)" using assms(2) by auto
  then have "last (last ls) \<noteq> CHR 0x0A" using last_in_set by metis
  with l assms(1) show ?thesis
    by (simp add: print_lines_join trim_right_id last_join join_nonempty)
qed

end
