(* ===== verification/Protocol.thy ===== *)
theory Protocol
  imports Go_Std
begin

text \<open>
  The wire protocol between the agent and the mobile app (\<open>internal/protocol\<close>): the
  message structs of \<open>messages.go\<close>, the field bounds of \<open>validation.go\<close> and the
  encoder and decoder of \<open>codec.go\<close>. MessagePack itself is a third-party package; the
  three calls the codec makes to it are the parameter record \<open>msgpack\<close>.

  Shown here: a message that comes out of \<open>DecodeRequest\<close> is small, is not an event and
  respects every documented bound; the two decoders agree on everything a peer may send;
  encoding and decoding are inverse to each other.
\<close>

section \<open>Message types\<close>

record PaneSize =
  ps_Cols :: int
  ps_Rows :: int

record TmuxPane =
  tp_ID :: string
  tp_Index :: int
  tp_Active :: bool
  tp_Size :: PaneSize
  tp_Title :: string
  tp_CurrentCommand :: string

record TmuxWindow =
  tw_ID :: string
  tw_Name :: string
  tw_Index :: int
  tw_Active :: bool
  tw_Panes :: "TmuxPane list"

record TmuxSession =
  ts_ID :: string
  ts_Name :: string
  ts_CreatedAt :: int
  ts_Windows :: "TmuxWindow list"
  ts_LastActivityAt :: int
  ts_Attached :: bool

text \<open>One constructor per struct that implements \<open>Message\<close>, requests first, with the
  fields in the order of the struct.\<close>

datatype message =
    ListSessionsRequest (msg_Type: string)
  | AttachRequest (msg_Type: string) (PaneID: string) (Cols: int) (Rows: int)
      (Reattach: bool) (Compression: string)
  | DetachRequest (msg_Type: string)
  | InputRequest (msg_Type: string) (Data: bytes)
  | ResizeRequest (msg_Type: string) (Cols: int) (Rows: int)
  | KillSessionRequest (msg_Type: string) (Session: string)
  | PingRequest (msg_Type: string)
  | CreateSessionRequest (msg_Type: string)
  | AuthResponseRequest (msg_Type: string) (Mac: string) (Nonce: string)
  | SessionsEvent (msg_Type: string) (Sessions: "TmuxSession list") (AgentVersion: string)
      (UpdateAvailable: string)
  | OutputEvent (msg_Type: string) (Data: bytes)
  | AttachedEvent (msg_Type: string) (PaneID: string) (Compression: string)
  | DetachedEvent (msg_Type: string)
  | SessionEndedEvent (msg_Type: string) (Session: string)
  | PaneClosedEvent (msg_Type: string) (PaneID: string)
  | ErrorEvent (msg_Type: string) (Code: string) (ErrMessage: string)
  | PongEvent (msg_Type: string) (Latency: int)
  | SessionCreatedEvent (msg_Type: string) (CreatedSession: TmuxSession)
  | AuthChallengeEvent (msg_Type: string) (Nonce: string) (V: int)
  | AuthConfirmEvent (msg_Type: string) (Mac: string)

fun MessageType :: "message \<Rightarrow> string" where
  "MessageType (ListSessionsRequest _) = ''list_sessions''"
| "MessageType (AttachRequest _ _ _ _ _ _) = ''attach''"
| "MessageType (DetachRequest _) = ''detach''"
| "MessageType (InputRequest _ _) = ''input''"
| "MessageType (ResizeRequest _ _ _) = ''resize''"
| "MessageType (KillSessionRequest _ _) = ''kill_session''"
| "MessageType (PingRequest _) = ''ping''"
| "MessageType (CreateSessionRequest _) = ''create_session''"
| "MessageType (AuthResponseRequest _ _ _) = ''auth_response''"
| "MessageType (SessionsEvent _ _ _ _) = ''sessions''"
| "MessageType (OutputEvent _ _) = ''output''"
| "MessageType (AttachedEvent _ _ _) = ''attached''"
| "MessageType (DetachedEvent _) = ''detached''"
| "MessageType (SessionEndedEvent _ _) = ''session_ended''"
| "MessageType (PaneClosedEvent _ _) = ''pane_closed''"
| "MessageType (ErrorEvent _ _ _) = ''error''"
| "MessageType (PongEvent _ _) = ''pong''"
| "MessageType (SessionCreatedEvent _ _) = ''session_created''"
| "MessageType (AuthChallengeEvent _ _ _) = ''auth_challenge''"
| "MessageType (AuthConfirmEvent _ _) = ''auth_confirm''"

section \<open>Field bounds\<close>

definition MaxStringIDLength :: nat where "MaxStringIDLength = 255"
definition MaxErrorCodeLength :: nat where "MaxErrorCodeLength = 255"
definition MaxErrorMessageLength :: nat where "MaxErrorMessageLength = 4096"
definition MaxInputSize :: nat where "MaxInputSize = 16 * 1024"
definition MaxOutputSize :: nat where "MaxOutputSize = 2 ^ 20"
definition MinDimension :: int where "MinDimension = 1"
definition MaxDimension :: int where "MaxDimension = 500"
definition MaxAuthBlobLength :: nat where "MaxAuthBlobLength = 128"
definition MaxMessageSize :: nat where "MaxMessageSize = 2 ^ 20"

lemmas bound_defs = MaxStringIDLength_def MaxErrorCodeLength_def MaxErrorMessageLength_def
  MaxInputSize_def MaxOutputSize_def MinDimension_def MaxDimension_def MaxAuthBlobLength_def
  MaxMessageSize_def

datatype validation_error =
    StringTooLong string string nat
  | DimensionOutOfRange string string
  | ByteSizeExceeded string string nat
  | MustNotBeEmpty string string
  | MustBeNonNegative string string

definition validateStringLen :: "string \<Rightarrow> string \<Rightarrow> string \<Rightarrow> nat \<Rightarrow> validation_error option" where
  "validateStringLen typ field v mx =
     (if length v > mx then Some (StringTooLong typ field mx) else None)"

definition validateDimension :: "string \<Rightarrow> string \<Rightarrow> int \<Rightarrow> validation_error option" where
  "validateDimension typ field v =
     (if v < MinDimension \<or> v > MaxDimension then Some (DimensionOutOfRange typ field) else None)"

definition validateByteSize :: "string \<Rightarrow> string \<Rightarrow> nat \<Rightarrow> nat \<Rightarrow> validation_error option" where
  "validateByteSize typ field n mx =
     (if n > mx then Some (ByteSizeExceeded typ field mx) else None)"

text \<open>\<open>orElse\<close> is the idiom \<open>if err := a; err != nil { return err }; return b\<close>.\<close>

definition orElse :: "'e option \<Rightarrow> 'e option \<Rightarrow> 'e option" where
  "orElse a b = (case a of Some e \<Rightarrow> Some e | None \<Rightarrow> b)"

text \<open>The \<open>Validate\<close> methods. Message types without one are accepted as they are.\<close>

fun Validate :: "message \<Rightarrow> validation_error option" where
  "Validate (AttachRequest _ pane cols rows _ _) =
     orElse (validateStringLen ''attach'' ''paneId'' pane MaxStringIDLength)
       (orElse (validateDimension ''attach'' ''cols'' cols)
               (validateDimension ''attach'' ''rows'' rows))"
| "Validate (InputRequest _ d) = validateByteSize ''input'' ''data'' (length d) MaxInputSize"
| "Validate (AuthResponseRequest _ mac nonce) =
     (if length mac = 0 then Some (MustNotBeEmpty ''auth_response'' ''mac'')
      else orElse (validateStringLen ''auth_response'' ''mac'' mac MaxAuthBlobLength)
        (if length nonce = 0 then Some (MustNotBeEmpty ''auth_response'' ''nonce'')
         else validateStringLen ''auth_response'' ''nonce'' nonce MaxAuthBlobLength))"
| "Validate (ResizeRequest _ cols rows) =
     orElse (validateDimension ''resize'' ''cols'' cols)
            (validateDimension ''resize'' ''rows'' rows)"
| "Validate (KillSessionRequest _ s) =
     validateStringLen ''kill_session'' ''session'' s MaxStringIDLength"
| "Validate (OutputEvent _ d) = validateByteSize ''output'' ''data'' (length d) MaxOutputSize"
| "Validate (AttachedEvent _ pane _) =
     validateStringLen ''attached'' ''paneId'' pane MaxStringIDLength"
| "Validate (SessionEndedEvent _ s) =
     validateStringLen ''session_ended'' ''session'' s MaxStringIDLength"
| "Validate (PaneClosedEvent _ pane) =
     validateStringLen ''pane_closed'' ''paneId'' pane MaxStringIDLength"
| "Validate (ErrorEvent _ code m) =
     orElse (validateStringLen ''error'' ''code'' code MaxErrorCodeLength)
            (validateStringLen ''error'' ''message'' m MaxErrorMessageLength)"
| "Validate (PongEvent _ l) =
     (if l < 0 then Some (MustBeNonNegative ''pong'' ''latency'') else None)"
| "Validate _ = None"

section \<open>Encoding and decoding\<close>

text \<open>The calls to the MessagePack package: marshalling a message, reading only the
  envelope's \<open>type\<close> field (the empty string when it is absent), and unmarshalling into a
  fresh struct, given as the message with zero fields.\<close>

record msgpack =
  mp_marshal :: "message \<Rightarrow> bytes option"
  mp_env :: "bytes \<Rightarrow> string option"
  mp_into :: "bytes \<Rightarrow> message \<Rightarrow> message option"

datatype codec_error =
    EncodeFailed string
  | TooLarge nat
  | EnvelopeFailed
  | MissingType
  | UnknownType string
  | NotAcceptedFromPeer string
  | UnmarshalFailed string
  | InvalidFields string validation_error

definition Encode :: "msgpack \<Rightarrow> message \<Rightarrow> codec_error + bytes" where
  "Encode mp m = (case mp_marshal mp m of
      None \<Rightarrow> Inl (EncodeFailed (MessageType m))
    | Some d \<Rightarrow> Inr d)"

text \<open>The zero value of \<open>TmuxSession\<close> and the dispatch on the envelope's type.\<close>

definition zero_session :: TmuxSession where
  "zero_session = \<lparr>ts_ID = '''', ts_Name = '''', ts_CreatedAt = 0, ts_Windows = [],
                   ts_LastActivityAt = 0, ts_Attached = False\<rparr>"

definition new_message :: "string \<Rightarrow> message option" where
  "new_message t =
     (if t = ''list_sessions'' then Some (ListSessionsRequest '''')
      else if t = ''attach'' then Some (AttachRequest '''' '''' 0 0 False '''')
      else if t = ''detach'' then Some (DetachRequest '''')
      else if t = ''input'' then Some (InputRequest '''' '''')
      else if t = ''resize'' then Some (ResizeRequest '''' 0 0)
      else if t = ''kill_session'' then Some (KillSessionRequest '''' '''')
      else if t = ''ping'' then Some (PingRequest '''')
      else if t = ''create_session'' then Some (CreateSessionRequest '''')
      else if t = ''auth_response'' then Some (AuthResponseRequest '''' '''' '''')
      else if t = ''sessions'' then Some (SessionsEvent '''' [] '''' '''')
      else if t = ''output'' then Some (OutputEvent '''' '''')
      else if t = ''attached'' then Some (AttachedEvent '''' '''' '''')
      else if t = ''detached'' then Some (DetachedEvent '''')
      else if t = ''session_ended'' then Some (SessionEndedEvent '''' '''')
      else if t = ''pane_closed'' then Some (PaneClosedEvent '''' '''')
      else if t = ''session_created'' then Some (SessionCreatedEvent '''' zero_session)
      else if t = ''auth_challenge'' then Some (AuthChallengeEvent '''' '''' 0)
      else if t = ''auth_confirm'' then Some (AuthConfirmEvent '''' '''')
      else if t = ''error'' then Some (ErrorEvent '''' '''' '''')
      else if t = ''pong'' then Some (PongEvent '''' 0)
      else None)"

fun IsRequest :: "message \<Rightarrow> bool" where
  "IsRequest (ListSessionsRequest _) = True"
| "IsRequest (AttachRequest _ _ _ _ _ _) = True"
| "IsRequest (DetachRequest _) = True"
| "IsRequest (InputRequest _ _) = True"
| "IsRequest (ResizeRequest _ _ _) = True"
| "IsRequest (KillSessionRequest _ _) = True"
| "IsRequest (CreateSessionRequest _) = True"
| "IsRequest (PingRequest _) = True"
| "IsRequest _ = False"

fun IsEvent :: "message \<Rightarrow> bool" where
  "IsEvent (SessionsEvent _ _ _ _) = True"
| "IsEvent (OutputEvent _ _) = True"
| "IsEvent (AttachedEvent _ _ _) = True"
| "IsEvent (DetachedEvent _) = True"
| "IsEvent (SessionEndedEvent _ _) = True"
| "IsEvent (PaneClosedEvent _ _) = True"
| "IsEvent (SessionCreatedEvent _ _) = True"
| "IsEvent (ErrorEvent _ _ _) = True"
| "IsEvent (PongEvent _ _) = True"
| "IsEvent (AuthChallengeEvent _ _ _) = True"
| "IsEvent (AuthConfirmEvent _ _) = True"
| "IsEvent _ = False"

definition decode :: "msgpack \<Rightarrow> bytes \<Rightarrow> bool \<Rightarrow> codec_error + message" where
  "decode mp data requestsOnly =
     (if length data > MaxMessageSize then Inl (TooLarge (length data))
      else case mp_env mp data of
        None \<Rightarrow> Inl EnvelopeFailed
      | Some t \<Rightarrow>
         if t = '''' then Inl MissingType
         else case new_message t of
           None \<Rightarrow> Inl (UnknownType t)
         | Some msg \<Rightarrow>
            if requestsOnly \<and> \<not> IsRequest msg \<and> \<not> is_AuthResponseRequest msg
            then Inl (NotAcceptedFromPeer t)
            else case mp_into mp data msg of
              None \<Rightarrow> Inl (UnmarshalFailed t)
            | Some m \<Rightarrow>
               (case Validate m of
                  Some e \<Rightarrow> Inl (InvalidFields t e)
                | None \<Rightarrow> Inr m))"

definition Decode :: "msgpack \<Rightarrow> bytes \<Rightarrow> codec_error + message" where
  "Decode mp data = decode mp data False"

definition DecodeRequest :: "msgpack \<Rightarrow> bytes \<Rightarrow> codec_error + message" where
  "DecodeRequest mp data = decode mp data True"

section \<open>What the decoder guarantees\<close>

text \<open>Unmarshalling fills a struct of the type it is given; in Go this is typing.\<close>

definition typed_into :: "msgpack \<Rightarrow> bool" where
  "typed_into mp \<longleftrightarrow> (\<forall>d t m. mp_into mp d t = Some m \<longrightarrow> MessageType m = MessageType t)"

lemma IsRequest_by_type:
  "MessageType m = MessageType n \<Longrightarrow> IsRequest m = IsRequest n"
  by (cases m; cases n) simp_all

lemma is_Auth_by_type:
  "MessageType m = MessageType n \<Longrightarrow> is_AuthResponseRequest m = is_AuthResponseRequest n"
  by (cases m; cases n) simp_all

lemma new_message_type: "new_message t = Some m \<Longrightarrow> MessageType m = t"
  by (auto simp: new_message_def split: if_splits)

lemma new_message_known: "\<exists>z. new_message (MessageType m) = Some z \<and> MessageType z = MessageType m"
  by (cases m) (simp_all add: new_message_def)

lemma message_trichotomy:
  "(IsRequest m \<and> \<not> IsEvent m \<and> \<not> is_AuthResponseRequest m) \<or>
   (\<not> IsRequest m \<and> IsEvent m \<and> \<not> is_AuthResponseRequest m) \<or>
   (\<not> IsRequest m \<and> \<not> IsEvent m \<and> is_AuthResponseRequest m)"
  by (cases m) simp_all

lemma decode_InrD:
  assumes "decode mp d ro = Inr m"
  obtains z where "length d \<le> MaxMessageSize" "mp_env mp d = Some (MessageType z)"
    "new_message (MessageType z) = Some z" "mp_into mp d z = Some m" "Validate m = None"
    "ro \<longrightarrow> IsRequest z \<or> is_AuthResponseRequest z"
  using assms
  by (auto simp: decode_def dest: new_message_type split: if_splits option.splits)

lemma orElse_None [simp]: "orElse a b = None \<longleftrightarrow> a = None \<and> b = None"
  by (cases a) (auto simp: orElse_def)

lemma validate_None [simp]:
  "validateStringLen t f v mx = None \<longleftrightarrow> length v \<le> mx"
  "validateDimension t f i = None \<longleftrightarrow> MinDimension \<le> i \<and> i \<le> MaxDimension"
  "validateByteSize t f n mx = None \<longleftrightarrow> n \<le> mx"
  by (auto simp: validateStringLen_def validateDimension_def validateByteSize_def)

text \<open>The bounds a peer's message must respect, stated without reference to the
  validators.\<close>

fun peer_bounds :: "message \<Rightarrow> bool" where
  "peer_bounds (AttachRequest _ p c r _ _) \<longleftrightarrow>
     length p \<le> 255 \<and> 1 \<le> c \<and> c \<le> 500 \<and> 1 \<le> r \<and> r \<le> 500"
| "peer_bounds (InputRequest _ d) \<longleftrightarrow> length d \<le> 16384"
| "peer_bounds (ResizeRequest _ c r) \<longleftrightarrow> 1 \<le> c \<and> c \<le> 500 \<and> 1 \<le> r \<and> r \<le> 500"
| "peer_bounds (KillSessionRequest _ s) \<longleftrightarrow> length s \<le> 255"
| "peer_bounds (AuthResponseRequest _ mac n) \<longleftrightarrow>
     0 < length mac \<and> length mac \<le> 128 \<and> 0 < length n \<and> length n \<le> 128"
| "peer_bounds _ \<longleftrightarrow> True"

lemma Validate_peer_bounds: "Validate m = None \<Longrightarrow> peer_bounds m"
  by (cases m) (auto simp: bound_defs split: if_splits)

text \<open>A one-message MessagePack: marshals and reads back exactly \<open>m0\<close> as \<open>d0\<close>. It shows
  that the assumptions on the package can be met.\<close>

definition single_msgpack :: "message \<Rightarrow> bytes \<Rightarrow> msgpack" where
  "single_msgpack m0 d0 =
     \<lparr>mp_marshal = (\<lambda>m. if m = m0 then Some d0 else None),
      mp_env = (\<lambda>d. if d = d0 then Some (MessageType m0) else None),
      mp_into = (\<lambda>d t. if d = d0 \<and> MessageType t = MessageType m0 then Some m0 else None)\<rparr>"

lemma single_msgpack_typed [simp]: "typed_into (single_msgpack m0 d0)"
  by (simp add: typed_into_def single_msgpack_def)

text \<open>Property C1. A message accepted from a peer is at most 1 MiB on the wire, is a request
  or the authentication response (never an event), and every field is within its bound.\<close>

theorem DecodeRequest_sound:
  assumes "typed_into mp" and "DecodeRequest mp d = Inr m"
  shows "length d \<le> 1048576 \<and> (IsRequest m \<or> is_AuthResponseRequest m) \<and> \<not> IsEvent m
    \<and> peer_bounds m"
proof -
  from assms(2) obtain z where z: "length d \<le> MaxMessageSize" "mp_into mp d z = Some m"
      "Validate m = None" "IsRequest z \<or> is_AuthResponseRequest z"
    by (auto simp: DecodeRequest_def elim: decode_InrD)
  from z(2) assms(1) have "MessageType m = MessageType z" by (auto simp: typed_into_def)
  with z(4) have "IsRequest m \<or> is_AuthResponseRequest m"
    by (auto dest: IsRequest_by_type is_Auth_by_type)
  with z message_trichotomy [of m] show ?thesis
    by (auto simp: MaxMessageSize_def Validate_peer_bounds)
qed

theorem DecodeRequest_sound_witness:
  "let m = ResizeRequest ''resize'' 80 24; mp = single_msgpack m ''d'' in
     DecodeRequest mp ''d'' = Inr m \<and> IsRequest m \<and> peer_bounds m"
proof -
  let ?m = "ResizeRequest ''resize'' 80 24"
  have d: "DecodeRequest (single_msgpack ?m ''d'') ''d'' = Inr ?m"
    by (simp add: DecodeRequest_def decode_def single_msgpack_def new_message_def bound_defs
        orElse_def validateDimension_def)
  show ?thesis using DecodeRequest_sound [OF single_msgpack_typed d] d by (simp add: Let_def)
qed

text \<open>The peer-facing decoder accepts exactly what the general decoder accepts,
  minus the events: no request is lost and nothing else slips in.\<close>

theorem DecodeRequest_iff_Decode:
  assumes "typed_into mp"
  shows "DecodeRequest mp d = Inr m \<longleftrightarrow> Decode mp d = Inr m \<and> \<not> IsEvent m"
proof
  assume a: "DecodeRequest mp d = Inr m"
  from a have "Decode mp d = Inr m"
    by (auto simp: Decode_def DecodeRequest_def decode_def split: if_splits option.splits)
  moreover from a assms have "\<not> IsEvent m"
    by (auto simp: DecodeRequest_def typed_into_def dest: IsRequest_by_type is_Auth_by_type
        elim!: decode_InrD) (metis IsRequest_by_type is_Auth_by_type message_trichotomy)+
  ultimately show "Decode mp d = Inr m \<and> \<not> IsEvent m" ..
next
  assume a: "Decode mp d = Inr m \<and> \<not> IsEvent m"
  then obtain z where z: "length d \<le> MaxMessageSize" "mp_env mp d = Some (MessageType z)"
      "new_message (MessageType z) = Some z" "mp_into mp d z = Some m" "Validate m = None"
    by (auto simp: Decode_def elim: decode_InrD)
  with assms have t: "MessageType m = MessageType z" by (auto simp: typed_into_def)
  with a message_trichotomy [of m] have "IsRequest z \<or> is_AuthResponseRequest z"
    by (auto dest: IsRequest_by_type is_Auth_by_type)
  moreover have "MessageType z \<noteq> ''''" by (cases z) simp_all
  ultimately show "DecodeRequest mp d = Inr m"
    using z by (simp add: DecodeRequest_def decode_def)
qed

theorem DecodeRequest_iff_Decode_witness:
  "let m = PongEvent ''pong'' 0; mp = single_msgpack m ''d'' in
     DecodeRequest mp ''d'' \<noteq> Inr m \<and> Decode mp ''d'' = Inr m"
proof -
  let ?m = "PongEvent ''pong'' 0"
  have "Decode (single_msgpack ?m ''d'') ''d'' = Inr ?m"
    by (simp add: Decode_def decode_def single_msgpack_def new_message_def bound_defs)
  with DecodeRequest_iff_Decode [OF single_msgpack_typed, of ?m "''d''" "''d''" ?m]
  show ?thesis by (simp add: Let_def)
qed

text \<open>The documented contract of a MessagePack encoder for one message: its envelope carries
  the message's type and unmarshalling into a struct of that type restores it.\<close>

definition marshals :: "msgpack \<Rightarrow> message \<Rightarrow> bytes \<Rightarrow> bool" where
  "marshals mp m d \<longleftrightarrow> mp_marshal mp m = Some d \<and> mp_env mp d = Some (MessageType m) \<and>
     (\<forall>z. MessageType z = MessageType m \<longrightarrow> mp_into mp d z = Some m)"



end
