(* ===== verification/Compress.thy ===== *)
theory Compress
  imports Go_Std
begin

text \<open>
  The output compressor (\<open>internal/protocol/compress.go\<close>): one deflate stream per attached pane whose window
  persists between messages, flushed after each message. The deflate writer is a parameter: writing and
  flushing say whether they succeeded, and which bytes they put into the buffer.
\<close>

record 'w flate =
  fl_new :: 'w
  fl_write :: "bytes \<Rightarrow> 'w \<Rightarrow> bool \<times> bytes \<times> 'w"
  fl_flush :: "'w \<Rightarrow> bool \<times> bytes \<times> 'w"
  fl_close :: "'w \<Rightarrow> bool \<times> bytes \<times> 'w"

record 'w OutputCompressor =
  cw :: 'w
  cbuf :: bytes

datatype compress_error = ECompressWrite | ECompressFlush

definition NewOutputCompressor :: "'w flate \<Rightarrow> 'w OutputCompressor" where
  "NewOutputCompressor f = \<lparr>cw = fl_new f, cbuf = []\<rparr>"

definition Compress :: "'w flate \<Rightarrow> bytes \<Rightarrow> 'w OutputCompressor \<Rightarrow> (compress_error + bytes) \<times> 'w OutputCompressor" where
  "Compress f data c = (case fl_write f data (cw c) of
      (ok1, out1, w1) \<Rightarrow>
        let c1 = \<lparr>cw = w1, cbuf = out1\<rparr> in
        if \<not> ok1 then (Inl ECompressWrite, c1)
        else (case fl_flush f (cw c1) of
                (ok2, out2, w2) \<Rightarrow>
                  let c2 = \<lparr>cw = w2, cbuf = cbuf c1 @ out2\<rparr> in
                  if \<not> ok2 then (Inl ECompressFlush, c2) else (Inr (cbuf c2), c2)))"

definition Compressor_Close :: "'w flate \<Rightarrow> 'w OutputCompressor \<Rightarrow> bool \<times> 'w OutputCompressor" where
  "Compressor_Close f c = (case fl_close f (cw c) of (ok, out, w) \<Rightarrow> (ok, \<lparr>cw = w, cbuf = cbuf c @ out\<rparr>))"

text \<open>A run of calls, up to the first that fails.\<close>

fun compress_run :: "'w flate \<Rightarrow> bytes list \<Rightarrow> 'w OutputCompressor \<Rightarrow> bytes list option \<times> 'w OutputCompressor" where
  "compress_run f [] c = (Some [], c)"
| "compress_run f (d # ds) c = (case Compress f d c of
      (Inl _, c1) \<Rightarrow> (None, c1)
    | (Inr out, c1) \<Rightarrow> (case compress_run f ds c1 of (r, c2) \<Rightarrow> (map_option ((#) out) r, c2)))"

text \<open>What \<open>compress/flate\<close> documents: \<open>fed w\<close> and \<open>put w\<close> are the bytes written to the stream and the bytes it
  emitted, and after a flush the emitted bytes inflate to all bytes written.\<close>

definition flate_ok :: "'w flate \<Rightarrow> (bytes \<Rightarrow> bytes option) \<Rightarrow> ('w \<Rightarrow> bytes) \<Rightarrow> ('w \<Rightarrow> bytes) \<Rightarrow> bool" where
  "flate_ok f inflate fed put \<longleftrightarrow> fed (fl_new f) = [] \<and> put (fl_new f) = [] \<and>
     (\<forall>d w out w1. fl_write f d w = (True, out, w1) \<longrightarrow> fed w1 = fed w @ d \<and> put w1 = put w @ out) \<and>
     (\<forall>w out w1. fl_flush f w = (True, out, w1) \<longrightarrow> fed w1 = fed w \<and> put w1 = put w @ out \<and> inflate (put w1) = Some (fed w1))"

lemma flate_laws:
  assumes "flate_ok f inflate fed put"
  shows "fed (fl_new f) = []" "put (fl_new f) = []"
    "fl_write f d w = (True, out, w1) \<Longrightarrow> fed w1 = fed w @ d \<and> put w1 = put w @ out"
    "fl_flush f w = (True, out, w1) \<Longrightarrow> fed w1 = fed w \<and> put w1 = put w @ out \<and> inflate (put w1) = Some (fed w1)"
  using assms unfolding flate_ok_def by (blast, blast, blast, blast)

lemma Compress_step:
  assumes "flate_ok f inflate fed put" "Compress f d c = (Inr out, c1)"
  shows "fed (cw c1) = fed (cw c) @ d \<and> put (cw c1) = put (cw c) @ out \<and> inflate (put (cw c1)) = Some (fed (cw c1))"
proof -
  obtain out1 w1 where w: "fl_write f d (cw c) = (True, out1, w1)"
    using assms(2) by (auto simp: Compress_def Let_def split: prod.splits if_splits)
  then obtain out2 where "fl_flush f w1 = (True, out2, cw c1)" "out = out1 @ out2"
    using assms(2) by (auto simp: Compress_def Let_def split: prod.splits if_splits)
  with flate_laws(3) [OF assms(1) w] flate_laws(4) [OF assms(1), of w1 out2 "cw c1"] show ?thesis by auto
qed

lemma compress_run_stream:
  assumes "flate_ok f inflate fed put" "compress_run f ds c = (Some outs, c1)"
  shows "fed (cw c1) = fed (cw c) @ concat ds \<and> put (cw c1) = put (cw c) @ concat outs \<and>
    (ds \<noteq> [] \<longrightarrow> inflate (put (cw c1)) = Some (fed (cw c1)))"
  using assms(2)
proof (induction ds arbitrary: c outs)
  case (Cons d ds)
  obtain out c2 where s: "Compress f d c = (Inr out, c2)"
    using Cons.prems by (auto split: prod.splits sum.splits)
  then obtain rest where r: "compress_run f ds c2 = (Some rest, c1)" "outs = out # rest"
    using Cons.prems by (auto split: prod.splits)
  from Compress_step [OF assms(1) s] Cons.IH [OF r(1)] r show ?case by (cases ds) auto
qed simp

text \<open>The mobile, which inflates what it received so far, sees after every message all output up to it.\<close>

theorem compressed_output_complete:
  assumes "flate_ok f inflate fed put" and "ds \<noteq> []" and "compress_run f ds (NewOutputCompressor f) = (Some outs, c)"
  shows "inflate (concat outs) = Some (concat ds)"
  using compress_run_stream [OF assms(1,3)] flate_laws [OF assms(1)] assms(2) by (auto simp: NewOutputCompressor_def)

text \<open>The compressor the way the request handler uses it: the next output after a history of inputs.\<close>

definition deflate_after :: "'w flate \<Rightarrow> bytes list \<Rightarrow> bytes \<Rightarrow> bytes option" where
  "deflate_after f hist d = (case compress_run f hist (NewOutputCompressor f) of
      (None, _) \<Rightarrow> None
    | (Some _, c) \<Rightarrow> (case Compress f d c of (Inl _, _) \<Rightarrow> None | (Inr out, _) \<Rightarrow> Some out))"

lemma deflate_after_inflates:
  assumes "flate_ok f inflate fed put" "compress_run f hist (NewOutputCompressor f) = (Some outs, c)"
    and "deflate_after f hist d = Some out"
  shows "inflate (concat outs @ out) = Some (concat hist @ d)"
proof -
  obtain c1 where s: "Compress f d c = (Inr out, c1)"
    using assms(2,3) by (auto simp: deflate_after_def split: prod.splits sum.splits)
  show ?thesis
    using compress_run_stream [OF assms(1,2)] Compress_step [OF assms(1) s] flate_laws(1,2) [OF assms(1)]
    by (auto simp: NewOutputCompressor_def)
qed

text \<open>A writer that stores its input block by block satisfies the hypothesis.\<close>

definition stored_flate :: "bytes flate" where
  "stored_flate = \<lparr>fl_new = [], fl_write = (\<lambda>d w. (True, d, w @ d)),
     fl_flush = (\<lambda>w. (True, [], w)), fl_close = (\<lambda>w. (True, [], w))\<rparr>"

theorem compressed_output_complete_witness:
  "\<exists>outs c. compress_run stored_flate [''ab'', ''c''] (NewOutputCompressor stored_flate) = (Some outs, c) \<and>
     Some (concat outs) = Some ''abc''"
proof -
  have "flate_ok stored_flate Some (\<lambda>w. w) (\<lambda>w. w)" by (simp add: flate_ok_def stored_flate_def)
  moreover have "compress_run stored_flate [''ab'', ''c''] (NewOutputCompressor stored_flate) =
      (Some [''ab'', ''c''], \<lparr>cw = ''abc'', cbuf = ''c''\<rparr>)"
    by (simp add: NewOutputCompressor_def Compress_def stored_flate_def)
  ultimately show ?thesis
    using compressed_output_complete [of stored_flate Some "\<lambda>w. w" "\<lambda>w. w" "[''ab'', ''c'']"] by fastforce
qed

end
