(* ===== verification/Title_Filter.thy ===== *)
theory Title_Filter
  imports Go_Std
begin

text \<open>
  \<open>internal/tmux/titlefilter.go\<close>: the stateful filter that removes the sequences
  ESC k ... ESC \ from pane output, with a safety valve for titles that never end. The
  Go code scans ahead for the next ESC byte and copies whole runs; the model keeps that
  structure (\<open>Filter\<close>), and a byte-at-a-time automaton (\<open>tf_step\<close>) is the reference.

  Shown here: the fast path computes what the automaton computes, so the output does not
  depend on how the pane's bytes are cut into chunks; the title buffer never passes its
  cap; text without titles passes unchanged; a complete title disappears.
\<close>

definition maxTitleLen :: nat where "maxTitleLen = 512"

datatype tf_state = tfPassthrough | tfSawEsc | tfInTitle | tfSawEscInTitle

record TitleFilter =
  tf_st :: tf_state
  titleBuf :: bytes
  tf_out :: bytes

abbreviation ESC :: char where "ESC \<equiv> CHR 0x1B"
abbreviation BACKSLASH :: char where "BACKSLASH \<equiv> CHR 0x5C"

definition NewTitleFilter :: TitleFilter where
  "NewTitleFilter = \<lparr>tf_st = tfPassthrough, titleBuf = [], tf_out = []\<rparr>"

definition Reset :: "TitleFilter \<Rightarrow> TitleFilter" where
  "Reset f = f\<lparr>tf_st := tfPassthrough, titleBuf := []\<rparr>"

definition appendTitle :: "TitleFilter \<Rightarrow> char \<Rightarrow> TitleFilter" where
  "appendTitle f b =
     (let buf = titleBuf f @ [b] in
      if length buf > maxTitleLen
      then f\<lparr>tf_out := tf_out f @ buf, titleBuf := [], tf_st := tfPassthrough\<rparr>
      else f\<lparr>titleBuf := buf\<rparr>)"

text \<open>The loop of \<open>Filter\<close>; \<open>data\<close> is the part of the chunk from index \<open>i\<close> on.
  In passthrough the code looks for the next ESC and copies everything before it.\<close>

function filter_loop :: "TitleFilter \<Rightarrow> bytes \<Rightarrow> TitleFilter" where
  "filter_loop f data =
     (if data = [] then f
      else case tf_st f of
        tfPassthrough \<Rightarrow>
          (if ESC \<notin> set data then f\<lparr>tf_out := tf_out f @ data\<rparr>
           else filter_loop (f\<lparr>tf_out := tf_out f @ takeWhile (\<lambda>x. x \<noteq> ESC) data,
                               tf_st := tfSawEsc\<rparr>)
                            (tl (dropWhile (\<lambda>x. x \<noteq> ESC) data)))
      | tfSawEsc \<Rightarrow>
          (let b = hd data in
           if b = CHR ''k''
           then filter_loop (f\<lparr>tf_st := tfInTitle, titleBuf := [ESC, CHR ''k'']\<rparr>) (tl data)
           else if b = ESC then filter_loop (f\<lparr>tf_out := tf_out f @ [ESC]\<rparr>) (tl data)
           else filter_loop (f\<lparr>tf_out := tf_out f @ [ESC, b], tf_st := tfPassthrough\<rparr>) (tl data))
      | tfInTitle \<Rightarrow>
          (let b = hd data;
               f1 = (if b = ESC then f\<lparr>tf_st := tfSawEscInTitle\<rparr> else f)
           in filter_loop (appendTitle f1 b) (tl data))
      | tfSawEscInTitle \<Rightarrow>
          (let b = hd data in
           if b = BACKSLASH
           then filter_loop (f\<lparr>titleBuf := [], tf_st := tfPassthrough\<rparr>) (tl data)
           else if b = ESC then filter_loop (appendTitle f b) (tl data)
           else filter_loop (appendTitle (f\<lparr>tf_st := tfInTitle\<rparr>) b) (tl data)))"
  by pat_completeness auto
termination
proof (relation "measure (\<lambda>(f, d). length d)", goal_cases)
  case (2 f data)
  then have "length (dropWhile (\<lambda>x. x \<noteq> ESC) data) \<le> length data"
    by (simp add: length_dropWhile_le)
  with 2 show ?case by (cases "dropWhile (\<lambda>x. x \<noteq> ESC) data") auto
qed (auto simp: length_greater_0_conv[symmetric] simp del: length_greater_0_conv)

declare filter_loop.simps [simp del]

text \<open>\<open>Filter\<close>: nil for an empty chunk, otherwise the reset output buffer after the
  loop. A nil result and an empty one are the same empty byte sequence.\<close>

definition Filter :: "TitleFilter \<Rightarrow> bytes \<Rightarrow> bytes \<times> TitleFilter" where
  "Filter f data =
     (if data = [] then ([], f)
      else let f' = filter_loop (f\<lparr>tf_out := []\<rparr>) data in (tf_out f', f'))"

section \<open>The reference automaton\<close>

text \<open>One byte at a time, no look-ahead.\<close>

fun tf_step :: "TitleFilter \<Rightarrow> char \<Rightarrow> TitleFilter" where
  "tf_step f b =
     (case tf_st f of
        tfPassthrough \<Rightarrow>
          (if b = ESC then f\<lparr>tf_st := tfSawEsc\<rparr> else f\<lparr>tf_out := tf_out f @ [b]\<rparr>)
      | tfSawEsc \<Rightarrow>
          (if b = CHR ''k'' then f\<lparr>tf_st := tfInTitle, titleBuf := [ESC, CHR ''k'']\<rparr>
           else if b = ESC then f\<lparr>tf_out := tf_out f @ [ESC]\<rparr>
           else f\<lparr>tf_out := tf_out f @ [ESC, b], tf_st := tfPassthrough\<rparr>)
      | tfInTitle \<Rightarrow>
          appendTitle (if b = ESC then f\<lparr>tf_st := tfSawEscInTitle\<rparr> else f) b
      | tfSawEscInTitle \<Rightarrow>
          (if b = BACKSLASH then f\<lparr>titleBuf := [], tf_st := tfPassthrough\<rparr>
           else if b = ESC then appendTitle f b
           else appendTitle (f\<lparr>tf_st := tfInTitle\<rparr>) b))"

declare tf_step.simps [simp del]

lemma foldl_passthrough:
  "tf_st f = tfPassthrough \<Longrightarrow> ESC \<notin> set d \<Longrightarrow> foldl tf_step f d = f\<lparr>tf_out := tf_out f @ d\<rparr>"
  by (induction d arbitrary: f) (auto simp: tf_step.simps)

lemma split_at_ESC:
  "ESC \<in> set d \<Longrightarrow> d = takeWhile (\<lambda>x. x \<noteq> ESC) d @ ESC # tl (dropWhile (\<lambda>x. x \<noteq> ESC) d)"
  by (induction d) auto

lemma filter_loop_step:
  "tf_st f \<noteq> tfPassthrough \<Longrightarrow> filter_loop f (b # d) = filter_loop (tf_step f b) d"
  by (subst filter_loop.simps) (simp add: tf_step.simps Let_def split: tf_state.split)

lemma filter_loop_run:
  assumes "tf_st f = tfPassthrough" and "ESC \<in> set d"
  shows "filter_loop f d =
    filter_loop (foldl tf_step f (takeWhile (\<lambda>x. x \<noteq> ESC) d @ [ESC]))
      (tl (dropWhile (\<lambda>x. x \<noteq> ESC) d))"
proof -
  let ?p = "takeWhile (\<lambda>x. x \<noteq> ESC) d"
  have "ESC \<notin> set ?p" by (auto dest: set_takeWhileD)
  with assms(1) have "foldl tf_step f ?p = f\<lparr>tf_out := tf_out f @ ?p\<rparr>"
    by (rule foldl_passthrough)
  then show ?thesis
    using assms by (subst filter_loop.simps) (auto simp: tf_step.simps)
qed

lemma filter_loop_foldl: "filter_loop f d = foldl tf_step f d"
proof (induction d arbitrary: f rule: length_induct)
  case (1 d)
  consider "d = []" | "tf_st f = tfPassthrough" "ESC \<notin> set d" "d \<noteq> []"
    | "tf_st f = tfPassthrough" "ESC \<in> set d"
    | b d' where "tf_st f \<noteq> tfPassthrough" "d = b # d'"
    by (cases d) auto
  then show ?case
  proof cases
    case 1
    then show ?thesis by (simp add: filter_loop.simps)
  next
    case 2
    then show ?thesis by (subst filter_loop.simps) (simp add: foldl_passthrough)
  next
    case 3
    let ?p = "takeWhile (\<lambda>x. x \<noteq> ESC) d" and ?r = "tl (dropWhile (\<lambda>x. x \<noteq> ESC) d)"
    note d = split_at_ESC [OF 3(2)]
    have "length ?r < length d"
      using arg_cong [OF d, of length] by simp
    with "1.IH" have "filter_loop f d = foldl tf_step (foldl tf_step f (?p @ [ESC])) ?r"
      by (simp only: filter_loop_run [OF 3])
    also have "\<dots> = foldl tf_step f (?p @ ESC # ?r)" by simp
    finally show ?thesis by (simp only: d [symmetric])
  next
    case 4
    with "1.IH" show ?thesis by (simp add: filter_loop_step)
  qed
qed

section \<open>Chunks\<close>

text \<open>The stream loop feeds the filter chunk by chunk and sends each result.\<close>

fun filter_chunks :: "TitleFilter \<Rightarrow> bytes list \<Rightarrow> bytes \<times> TitleFilter" where
  "filter_chunks f [] = ([], f)"
| "filter_chunks f (c # cs) =
     (let (o1, f1) = Filter f c; (o2, f2) = filter_chunks f1 cs in (o1 @ o2, f2))"

definition same_ctl :: "TitleFilter \<Rightarrow> TitleFilter \<Rightarrow> bool" where
  "same_ctl f g \<longleftrightarrow> tf_st f = tf_st g \<and> titleBuf f = titleBuf g"

text \<open>A step only appends to the output and reads only the control state.\<close>

lemma tf_step_out:
  "tf_step (f\<lparr>tf_out := x @ y\<rparr>) b =
   (tf_step (f\<lparr>tf_out := y\<rparr>) b)\<lparr>tf_out := x @ tf_out (tf_step (f\<lparr>tf_out := y\<rparr>) b)\<rparr>"
  by (auto simp: tf_step.simps appendTitle_def Let_def split: tf_state.splits)

lemma foldl_out:
  "foldl tf_step (f\<lparr>tf_out := x @ y\<rparr>) d =
   (foldl tf_step (f\<lparr>tf_out := y\<rparr>) d)
     \<lparr>tf_out := x @ tf_out (foldl tf_step (f\<lparr>tf_out := y\<rparr>) d)\<rparr>"
proof (induction d arbitrary: f x y)
  case (Cons b d)
  let ?g = "tf_step (f\<lparr>tf_out := y\<rparr>) b"
  have "foldl tf_step (f\<lparr>tf_out := x @ y\<rparr>) (b # d)
      = foldl tf_step (?g\<lparr>tf_out := x @ tf_out ?g\<rparr>) d" by (simp add: tf_step_out)
  also have "\<dots> = (foldl tf_step (?g\<lparr>tf_out := tf_out ?g\<rparr>) d)
      \<lparr>tf_out := x @ tf_out (foldl tf_step (?g\<lparr>tf_out := tf_out ?g\<rparr>) d)\<rparr>" by (rule Cons)
  finally show ?case by simp
qed simp

lemma same_ctl_reset: "same_ctl f g \<Longrightarrow> f\<lparr>tf_out := x\<rparr> = g\<lparr>tf_out := x\<rparr>"
  by (simp add: same_ctl_def)

lemma Filter_eq: "Filter f d = (let g = foldl tf_step (f\<lparr>tf_out := []\<rparr>) d in
    (tf_out g, if d = [] then f else g))"
  by (simp add: Filter_def filter_loop_foldl Let_def)

lemma foldl_restart:
  "foldl tf_step g d = (foldl tf_step (g\<lparr>tf_out := []\<rparr>) d)
     \<lparr>tf_out := tf_out g @ tf_out (foldl tf_step (g\<lparr>tf_out := []\<rparr>) d)\<rparr>"
  using foldl_out [where f = g and x = "tf_out g" and y = "[]" and d = d] by simp

lemma filter_chunks_foldl:
  "fst (filter_chunks f cs) = tf_out (foldl tf_step (f\<lparr>tf_out := []\<rparr>) (concat cs)) \<and>
   same_ctl (snd (filter_chunks f cs)) (foldl tf_step (f\<lparr>tf_out := []\<rparr>) (concat cs))"
proof (induction cs arbitrary: f)
  case Nil
  then show ?case by (simp add: same_ctl_def)
next
  case (Cons c cs)
  let ?g = "foldl tf_step (f\<lparr>tf_out := []\<rparr>) c"
  let ?f1 = "snd (Filter f c)"
  have c: "same_ctl ?f1 ?g" by (simp add: Filter_eq Let_def same_ctl_def)
  have o1: "fst (Filter f c) = tf_out ?g" by (simp add: Filter_eq Let_def)
  let ?h = "foldl tf_step (?g\<lparr>tf_out := []\<rparr>) (concat cs)"
  have h: "fst (filter_chunks ?f1 cs) = tf_out ?h" "same_ctl (snd (filter_chunks ?f1 cs)) ?h"
    using Cons.IH [of ?f1] same_ctl_reset [OF c, of "[]"] by simp_all
  have "foldl tf_step ?g (concat cs) = ?h\<lparr>tf_out := tf_out ?g @ tf_out ?h\<rparr>"
    by (rule foldl_restart)
  with h o1 show ?case
    by (simp add: Let_def same_ctl_def split: prod.split)
      (metis fst_conv snd_conv)
qed

section \<open>The title buffer\<close>

definition tf_inv :: "TitleFilter \<Rightarrow> bool" where
  "tf_inv f \<longleftrightarrow> length (titleBuf f) \<le> maxTitleLen \<and>
     (tf_st f \<in> {tfPassthrough, tfSawEsc} \<longleftrightarrow> titleBuf f = [])"

lemma tf_inv_new: "tf_inv NewTitleFilter"
  by (simp add: tf_inv_def NewTitleFilter_def)

lemma tf_inv_reset: "tf_inv (Reset f)"
  by (simp add: tf_inv_def Reset_def)

lemma tf_inv_step: "tf_inv f \<Longrightarrow> tf_inv (tf_step f b)"
  by (auto simp: tf_inv_def tf_step.simps appendTitle_def Let_def maxTitleLen_def
      split: tf_state.splits)

lemma tf_inv_foldl: "tf_inv f \<Longrightarrow> tf_inv (foldl tf_step f d)"
  by (induction d arbitrary: f) (simp_all add: tf_inv_step)

lemma tf_inv_out [simp]: "tf_inv (f\<lparr>tf_out := x\<rparr>) = tf_inv f"
  by (simp add: tf_inv_def)

lemma tf_inv_Filter: "tf_inv f \<Longrightarrow> tf_inv (snd (Filter f d))"
  by (simp add: Filter_eq Let_def tf_inv_foldl)

lemma tf_inv_chunks: "tf_inv f \<Longrightarrow> tf_inv (snd (filter_chunks f cs))"
  by (induction cs arbitrary: f) (simp_all add: Let_def split_beta tf_inv_Filter)

text \<open>What is held back: the buffered title, or an ESC whose next byte is not known yet.\<close>

definition pending :: "TitleFilter \<Rightarrow> bytes" where
  "pending f = (if tf_st f = tfSawEsc then [ESC] else titleBuf f)"

lemma tf_step_conserves:
  assumes "tf_inv f" and "b \<noteq> BACKSLASH \<or> tf_st f \<noteq> tfSawEscInTitle"
  shows "tf_out (tf_step f b) @ pending (tf_step f b) = tf_out f @ pending f @ [b]"
  using assms
  by (auto simp: tf_inv_def tf_step.simps appendTitle_def pending_def Let_def
      split: tf_state.splits)

lemma foldl_conserves:
  "tf_inv f \<Longrightarrow> BACKSLASH \<notin> set d \<Longrightarrow>
   tf_out (foldl tf_step f d) @ pending (foldl tf_step f d) = tf_out f @ pending f @ d"
proof (induction d arbitrary: f)
  case (Cons b d)
  then have "tf_out (tf_step f b) @ pending (tf_step f b) = tf_out f @ pending f @ [b]"
    by (intro tf_step_conserves) auto
  with Cons show ?case
    using Cons.IH [of "tf_step f b"] by (simp add: tf_inv_step)
qed simp

lemma foldl_title:
  assumes "tf_st f = tfInTitle" and "ESC \<notin> set t"
    and "length (titleBuf f) + length t \<le> maxTitleLen"
  shows "foldl tf_step f t = f\<lparr>titleBuf := titleBuf f @ t\<rparr>"
  using assms
  by (induction t arbitrary: f) (auto simp: tf_step.simps appendTitle_def Let_def)

section \<open>Properties\<close>

text \<open>Property C37. The bytes sent for a stream do not depend on how it was cut into read
  chunks: filtering the chunks one after the other sends exactly what filtering the whole
  stream at once would send, although the code copies runs and scans ahead.\<close>

theorem Filter_chunk_independent:
  "fst (filter_chunks f cs) = fst (Filter f (concat cs))"
  using filter_chunks_foldl [of f cs] by (simp add: Filter_eq Let_def)

text \<open>However long an unterminated title grows, the filter holds back at most
  512 bytes, and none at all outside a title.\<close>

theorem Filter_buffer_bounded:
  "length (titleBuf (snd (filter_chunks NewTitleFilter cs))) \<le> 512 \<and>
   (tf_st (snd (filter_chunks NewTitleFilter cs)) \<in> {tfPassthrough, tfSawEsc} \<longleftrightarrow>
    titleBuf (snd (filter_chunks NewTitleFilter cs)) = [])"
  using tf_inv_chunks [OF tf_inv_new, of cs] by (simp add: tf_inv_def maxTitleLen_def)

text \<open>Only a terminated title is removed: on a stream without the terminator
  byte, what was sent followed by what is held back is the stream itself.\<close>

theorem Filter_loses_nothing:
  assumes "BACKSLASH \<notin> set d"
  shows "fst (Filter NewTitleFilter d) @ pending (snd (Filter NewTitleFilter d)) = d"
  using foldl_conserves [OF tf_inv_new assms] assms
  by (auto simp: Filter_eq Let_def NewTitleFilter_def pending_def)

theorem Filter_loses_nothing_witness:
  "fst (Filter NewTitleFilter ''abc'') @ pending (snd (Filter NewTitleFilter ''abc'')) = ''abc''"
  by (rule Filter_loses_nothing) simp

text \<open>A complete title sequence of at most 509 bytes is removed and the text
  around it is sent unchanged.\<close>

theorem Filter_strips_title:
  assumes "ESC \<notin> set a" and "ESC \<notin> set t" and "ESC \<notin> set b" and "length t \<le> 509"
  shows "fst (Filter NewTitleFilter (a @ [ESC, CHR ''k''] @ t @ [ESC, BACKSLASH] @ b)) = a @ b"
proof -
  let ?f = "NewTitleFilter"
  let ?f1 = "?f\<lparr>tf_out := a, tf_st := tfInTitle, titleBuf := [ESC, CHR ''k'']\<rparr>"
  have 1: "foldl tf_step ?f (a @ [ESC, CHR ''k'']) = ?f1"
    using assms(1) by (simp add: foldl_passthrough NewTitleFilter_def tf_step.simps)
  have 2: "foldl tf_step ?f1 t = ?f1\<lparr>titleBuf := [ESC, CHR ''k''] @ t\<rparr>"
    using assms(2,4) by (subst foldl_title) (simp_all add: maxTitleLen_def)
  have 3: "foldl tf_step (?f1\<lparr>titleBuf := [ESC, CHR ''k''] @ t\<rparr>) [ESC, BACKSLASH]
      = ?f\<lparr>tf_out := a\<rparr>"
    using assms(4)
    by (simp add: tf_step.simps appendTitle_def Let_def maxTitleLen_def NewTitleFilter_def)
  have "foldl tf_step ?f (a @ [ESC, CHR ''k''] @ t @ [ESC, BACKSLASH] @ b)
      = foldl tf_step (foldl tf_step (foldl tf_step (foldl tf_step ?f (a @ [ESC, CHR ''k''])) t)
          [ESC, BACKSLASH]) b" by (simp only: foldl_append)
  also have "\<dots> = foldl tf_step (?f\<lparr>tf_out := a\<rparr>) b" by (simp only: 1 2 3)
  also have "\<dots> = ?f\<lparr>tf_out := a @ b\<rparr>"
    using assms(3) by (subst foldl_passthrough) (simp_all add: NewTitleFilter_def)
  finally show ?thesis by (simp add: Filter_eq Let_def NewTitleFilter_def)
qed

theorem Filter_strips_title_witness:
  "fst (Filter NewTitleFilter (''x'' @ [ESC, CHR ''k''] @ ''vim'' @ [ESC, BACKSLASH] @ ''y''))
   = ''x'' @ ''y''"
  by (rule Filter_strips_title) simp_all

end
