(* ===== verification/Tmux_Client.thy ===== *)
theory Tmux_Client
  imports Protocol
begin

text \<open>
  \<open>internal/tmux/tmux.go\<close> (and \<open>WindowForPane\<close> of \<open>pty.go\<close>, the session
  converters of \<open>agent/handler.go\<close>): the wrapper around the tmux command line. tmux is
  another program; running it is the parameter \<open>ex\<close>, which maps the server's state, the
  argument list and the optional standard input to output, outcome and next server state.
  Besides that state the client record keeps the list of commands issued so far, so that
  theorems can speak about what reaches tmux.

  Shown here: targets supplied by a peer that fail the pattern never reach tmux; the
  listing parsers restore what tmux printed as long as names have no separator; input
  bytes travel on standard input only and never in an argument list.
\<close>

section \<open>Running tmux\<close>

datatype run_err = ExitError | SpawnError | TimedOut string

datatype outcome = Finished "run_err option" | DeadlineExceeded

type_synonym command = "string list \<times> bytes option"
type_synonym 'w exec = "'w \<Rightarrow> command \<Rightarrow> (string \<times> outcome) \<times> 'w"

record 'w client =
  Socket :: string
  TmuxBin :: string
  inputSeq :: "64 word"
  server :: 'w
  issued :: "command list"

text \<open>\<open>NewClient\<close>: an empty socket name means the default one; \<open>lookPath\<close> is where \<open>PATH\<close> has tmux.\<close>

definition DefaultSocket :: string where "DefaultSocket = ''pmux''"

definition NewClient :: "string option \<Rightarrow> string \<Rightarrow> 'w \<Rightarrow> 'w client" where
  "NewClient lookPath socket w =
     \<lparr>Socket = (if socket = '''' then DefaultSocket else socket),
      TmuxBin = (case lookPath of Some path \<Rightarrow> path | None \<Rightarrow> ''tmux''),
      inputSeq = 0, server = w, issued = []\<rparr>"

text \<open>The commands build their client from the configuration: a configured tmux path wins.\<close>

definition configured_client :: "string option \<Rightarrow> string \<Rightarrow> string \<Rightarrow> 'w \<Rightarrow> 'w client" where
  "configured_client lookPath socket tmuxPath w =
     (let c = NewClient lookPath socket w in if tmuxPath \<noteq> '''' then c\<lparr>TmuxBin := tmuxPath\<rparr> else c)"

lemma NewClient_socket: "Socket (NewClient lookPath socket w) \<noteq> ''''"
  by (simp add: NewClient_def DefaultSocket_def)

lemma configured_client_socket [simp]: "Socket (configured_client l socket t w) = Socket (NewClient l socket w)"
  by (simp add: configured_client_def Let_def)

datatype tmux_error =
    ErrInvalidTarget string
  | RunFailed string run_err string
  | ParseFailed string string

text \<open>\<open>runCtxStdin\<close>; the time-out error names only the subcommand. \<open>run\<close> passes no
  standard input.\<close>

definition timeoutError :: "string list \<Rightarrow> run_err" where
  "timeoutError args = TimedOut (case args of [] \<Rightarrow> '''' | a # _ \<Rightarrow> a)"

definition runCtxStdin ::
  "'w exec \<Rightarrow> bytes option \<Rightarrow> string list \<Rightarrow> 'w client \<Rightarrow> (string \<times> run_err option) \<times> 'w client" where
  "runCtxStdin ex stdin args c =
     (let cmd = ([''-L'', Socket c] @ args, stdin);
          ((out, oc), w) = ex (server c) cmd;
          err = (case oc of DeadlineExceeded \<Rightarrow> Some (timeoutError args) | Finished e \<Rightarrow> e)
      in ((trim_right (CHR 0x0A) out, err), c\<lparr>server := w, issued := issued c @ [cmd]\<rparr>))"

definition run :: "'w exec \<Rightarrow> string list \<Rightarrow> 'w client \<Rightarrow> (string \<times> run_err option) \<times> 'w client" where
  "run ex args c = runCtxStdin ex None args c"

section \<open>Targets\<close>

text \<open>The character class of \<open>ValidTmuxTarget\<close>, \<open>^[a-zA-Z0-9_.$@:%\-]+$\<close>.\<close>

definition target_char :: "char \<Rightarrow> bool" where
  "target_char c \<longleftrightarrow> (let n = (of_char c :: nat) in
     (97 \<le> n \<and> n \<le> 122) \<or> (65 \<le> n \<and> n \<le> 90) \<or> (48 \<le> n \<and> n \<le> 57) \<or>
     c \<in> {CHR ''_'', CHR ''.'', CHR ''$'', CHR ''@'', CHR '':'', CHR ''%'', CHR ''-''})"

definition ValidTmuxTarget :: "string \<Rightarrow> bool" where
  "ValidTmuxTarget s \<longleftrightarrow> s \<noteq> [] \<and> (\<forall>c \<in> set s. target_char c)"

definition validateTarget :: "string \<Rightarrow> tmux_error + unit" where
  "validateTarget t = (if ValidTmuxTarget t then Inr () else Inl (ErrInvalidTarget t))"

section \<open>The session tree\<close>

record Pane =
  pane_ID :: string
  pane_Index :: int
  pane_Active :: bool
  pane_Size :: PaneSize
  pane_Title :: string
  pane_Command :: string

record Window =
  win_ID :: string
  win_Name :: string
  win_Index :: int
  win_Active :: bool
  win_Panes :: "Pane list"

record Session =
  ses_ID :: string
  ses_Name :: string
  ses_CreatedAt :: int
  ses_LastActivityAt :: int
  ses_Attached :: bool
  ses_Windows :: "Window list"

definition parse_session_line :: "string \<Rightarrow> Session option" where
  "parse_session_line line =
     (case splitN (CHR ''|'') 5 line of
        [i, nm, cr, la, att] \<Rightarrow>
          Some \<lparr>ses_ID = i, ses_Name = nm, ses_CreatedAt = fst (parse_int cr),
                ses_LastActivityAt = fst (parse_int la), ses_Attached = (att = ''1''),
                ses_Windows = []\<rparr>
      | _ \<Rightarrow> None)"

definition parse_window_line :: "string \<Rightarrow> Window option" where
  "parse_window_line line =
     (case splitN (CHR ''|'') 4 line of
        [i, nm, ix, act] \<Rightarrow>
          Some \<lparr>win_ID = i, win_Name = nm, win_Index = fst (parse_int ix),
                win_Active = (act = ''1''), win_Panes = []\<rparr>
      | _ \<Rightarrow> None)"

definition parse_pane_line :: "string \<Rightarrow> Pane option" where
  "parse_pane_line line =
     (case splitN (CHR ''|'') 7 line of
        [i, ix, act, w, h, t, cmd] \<Rightarrow>
          Some \<lparr>pane_ID = i, pane_Index = fst (parse_int ix), pane_Active = (act = ''1''),
                pane_Size = \<lparr>ps_Cols = fst (parse_int w), ps_Rows = fst (parse_int h)\<rparr>,
                pane_Title = t, pane_Command = cmd\<rparr>
      | _ \<Rightarrow> None)"

text \<open>The loops over the lines skip those that do not split into the expected fields.\<close>

definition parse_lines :: "(string \<Rightarrow> 'a option) \<Rightarrow> string \<Rightarrow> 'a list" where
  "parse_lines p out = List.map_filter p (split_on (CHR 0x0A) out)"

definition ListSessions :: "'w exec \<Rightarrow> 'w client \<Rightarrow> (tmux_error + Session list) \<times> 'w client" where
  "ListSessions ex c =
     (let fmt = ''#{session_id}|#{session_name}|#{session_created}|#{session_last_activity}|#{session_attached}'';
          ((out, err), c1) = run ex [''list-sessions'', ''-F'', fmt] c
      in case err of
           Some e \<Rightarrow>
             (if contains_sub out ''no server running'' \<or> contains_sub out ''no sessions''
              then (Inr [], c1)
              else if trim_space out = '''' \<and> e = ExitError then (Inr [], c1)
              else (Inl (RunFailed ''list-sessions'' e out), c1))
         | None \<Rightarrow>
             (if out = '''' then (Inr [], c1)
              else (Inr (parse_lines parse_session_line out), c1)))"

definition ListWindows ::
  "'w exec \<Rightarrow> string \<Rightarrow> 'w client \<Rightarrow> (tmux_error + Window list) \<times> 'w client" where
  "ListWindows ex sid c =
     (case validateTarget sid of
        Inl e \<Rightarrow> (Inl e, c)
      | Inr _ \<Rightarrow>
         let fmt = ''#{window_id}|#{window_name}|#{window_index}|#{window_active}'';
             ((out, err), c1) = run ex [''list-windows'', ''-t'', sid, ''-F'', fmt] c
         in case err of
              Some e \<Rightarrow> (Inl (RunFailed ''list-windows'' e out), c1)
            | None \<Rightarrow> (if out = '''' then (Inr [], c1)
                       else (Inr (parse_lines parse_window_line out), c1)))"

definition ListPanes ::
  "'w exec \<Rightarrow> string \<Rightarrow> 'w client \<Rightarrow> (tmux_error + Pane list) \<times> 'w client" where
  "ListPanes ex target c =
     (case validateTarget target of
        Inl e \<Rightarrow> (Inl e, c)
      | Inr _ \<Rightarrow>
         let fmt = ''#{pane_id}|#{pane_index}|#{pane_active}|#{pane_width}|#{pane_height}|#{pane_title}|#{pane_current_command}'';
             ((out, err), c1) = run ex [''list-panes'', ''-t'', target, ''-F'', fmt] c
         in case err of
              Some e \<Rightarrow> (Inl (RunFailed ''list-panes'' e out), c1)
            | None \<Rightarrow> (if out = '''' then (Inr [], c1)
                       else (Inr (parse_lines parse_pane_line out), c1)))"

text \<open>\<open>ListAll\<close>: the two nested loops that fill in windows and panes; the first error ends
  them.\<close>

fun fill_panes ::
  "'w exec \<Rightarrow> string \<Rightarrow> Window list \<Rightarrow> 'w client \<Rightarrow> (tmux_error + Window list) \<times> 'w client" where
  "fill_panes ex sid [] c = (Inr [], c)"
| "fill_panes ex sid (w # ws) c =
     (case ListPanes ex (sid @ '':'' @ win_ID w) c of
        (Inl e, c1) \<Rightarrow> (Inl e, c1)
      | (Inr ps, c1) \<Rightarrow>
         (case fill_panes ex sid ws c1 of
            (Inl e, c2) \<Rightarrow> (Inl e, c2)
          | (Inr ws', c2) \<Rightarrow> (Inr (w\<lparr>win_Panes := ps\<rparr> # ws'), c2)))"

fun fill_windows ::
  "'w exec \<Rightarrow> Session list \<Rightarrow> 'w client \<Rightarrow> (tmux_error + Session list) \<times> 'w client" where
  "fill_windows ex [] c = (Inr [], c)"
| "fill_windows ex (s # ss) c =
     (case ListWindows ex (ses_ID s) c of
        (Inl e, c1) \<Rightarrow> (Inl e, c1)
      | (Inr ws, c1) \<Rightarrow>
         (case fill_panes ex (ses_ID s) ws c1 of
            (Inl e, c2) \<Rightarrow> (Inl e, c2)
          | (Inr ws', c2) \<Rightarrow>
             (case fill_windows ex ss c2 of
                (Inl e, c3) \<Rightarrow> (Inl e, c3)
              | (Inr ss', c3) \<Rightarrow> (Inr (s\<lparr>ses_Windows := ws'\<rparr> # ss'), c3))))"

definition ListAll :: "'w exec \<Rightarrow> 'w client \<Rightarrow> (tmux_error + Session list) \<times> 'w client" where
  "ListAll ex c =
     (case ListSessions ex c of
        (Inl e, c1) \<Rightarrow> (Inl e, c1)
      | (Inr ss, c1) \<Rightarrow> fill_windows ex ss c1)"

section \<open>Commands\<close>

definition IsServerRunning :: "'w exec \<Rightarrow> 'w client \<Rightarrow> bool \<times> 'w client" where
  "IsServerRunning ex c = (let ((out, err), c1) = run ex [''has-session''] c in (err = None, c1))"

definition SetGlobalEnv ::
  "'w exec \<Rightarrow> string \<Rightarrow> string \<Rightarrow> 'w client \<Rightarrow> (tmux_error + unit) \<times> 'w client" where
  "SetGlobalEnv ex k v c =
     (let ((out, err), c1) = run ex [''set-environment'', ''-g'', k, v] c
      in case err of Some e \<Rightarrow> (Inl (RunFailed ''set-environment'' e out), c1)
                   | None \<Rightarrow> (Inr (), c1))"

text \<open>\<open>Version\<close> runs tmux without a socket.\<close>

definition Version :: "'w exec \<Rightarrow> 'w client \<Rightarrow> (run_err + string) \<times> 'w client" where
  "Version ex c =
     (let ((out, oc), w) = ex (server c) ([''-V''], None);
          c1 = c\<lparr>server := w, issued := issued c @ [([''-V''], None)]\<rparr>
      in case oc of
           DeadlineExceeded \<Rightarrow> (Inl (TimedOut ''-V''), c1)
         | Finished (Some e) \<Rightarrow> (Inl e, c1)
         | Finished None \<Rightarrow> (Inr (trim_space out), c1))"

definition CreateSession ::
  "'w exec \<Rightarrow> string \<Rightarrow> string \<Rightarrow> 'w client \<Rightarrow> (tmux_error + string) \<times> 'w client" where
  "CreateSession ex nm cmd c =
     (let args = [''new-session'', ''-d'', ''-P'', ''-F'', ''#{session_id}'']
                 @ (if nm \<noteq> '''' then [''-s'', nm] else [])
                 @ (if cmd \<noteq> '''' then [cmd] else []);
          ((out, err), c1) = run ex args c
      in case err of Some e \<Rightarrow> (Inl (RunFailed ''new-session'' e out), c1)
                   | None \<Rightarrow> (Inr (trim_space out), c1))"

definition KillSession ::
  "'w exec \<Rightarrow> string \<Rightarrow> 'w client \<Rightarrow> (tmux_error + unit) \<times> 'w client" where
  "KillSession ex s c =
     (case validateTarget s of
        Inl e \<Rightarrow> (Inl e, c)
      | Inr _ \<Rightarrow>
         let ((out, err), c1) = run ex [''kill-session'', ''-t'', s] c
         in case err of Some e \<Rightarrow> (Inl (RunFailed ''kill-session'' e out), c1)
                      | None \<Rightarrow> (Inr (), c1))"

definition ResizeWindow ::
  "'w exec \<Rightarrow> string \<Rightarrow> int \<Rightarrow> int \<Rightarrow> 'w client \<Rightarrow> (tmux_error + unit) \<times> 'w client" where
  "ResizeWindow ex target cols rows c =
     (let ((out, err), c1) =
        run ex [''resize-window'', ''-t'', target, ''-x'', itoa cols, ''-y'', itoa rows] c
      in case err of Some e \<Rightarrow> (Inl (RunFailed ''resize-window'' e out), c1)
                   | None \<Rightarrow> (Inr (), c1))"

definition ClearWindowSizeOverride ::
  "'w exec \<Rightarrow> string \<Rightarrow> 'w client \<Rightarrow> (tmux_error + unit) \<times> 'w client" where
  "ClearWindowSizeOverride ex target c =
     (case validateTarget target of
        Inl e \<Rightarrow> (Inl e, c)
      | Inr _ \<Rightarrow>
         let ((out, err), c1) =
           run ex [''set-window-option'', ''-t'', target, ''-u'', ''window-size''] c
         in case err of Some e \<Rightarrow> (Inl (RunFailed ''unset window-size'' e out), c1)
                      | None \<Rightarrow> (Inr (), c1))"

definition WindowForPane ::
  "'w exec \<Rightarrow> string \<Rightarrow> 'w client \<Rightarrow> (tmux_error + string) \<times> 'w client" where
  "WindowForPane ex p c =
     (case validateTarget p of
        Inl e \<Rightarrow> (Inl e, c)
      | Inr _ \<Rightarrow>
         let ((out, err), c1) =
           run ex [''display-message'', ''-t'', p, ''-p'', ''#{session_id}:#{window_id}''] c
         in case err of Some e \<Rightarrow> (Inl (RunFailed ''find window for pane'' e out), c1)
                      | None \<Rightarrow> (Inr (trim_space out), c1))"

definition windowPaneCount ::
  "'w exec \<Rightarrow> string \<Rightarrow> 'w client \<Rightarrow> (tmux_error + int) \<times> 'w client" where
  "windowPaneCount ex p c =
     (let ((out, err), c1) = run ex [''display-message'', ''-t'', p, ''-p'', ''#{window_panes}''] c
      in case err of
           Some e \<Rightarrow> (Inl (RunFailed ''window pane count'' e out), c1)
         | None \<Rightarrow> (case parse_int (trim_space out) of
                      (n, None) \<Rightarrow> (Inr n, c1)
                    | (n, Some _) \<Rightarrow> (Inl (ParseFailed ''window pane count'' out), c1)))"

definition ResizePane ::
  "'w exec \<Rightarrow> string \<Rightarrow> int \<Rightarrow> int \<Rightarrow> 'w client \<Rightarrow> (tmux_error + unit) \<times> 'w client" where
  "ResizePane ex p cols rows c =
     (case validateTarget p of
        Inl e \<Rightarrow> (Inl e, c)
      | Inr _ \<Rightarrow>
        (case windowPaneCount ex p c of
           (Inl e, c1) \<Rightarrow> (Inl e, c1)
         | (Inr n, c1) \<Rightarrow>
            if n \<le> 1 then
              (case WindowForPane ex p c1 of
                 (Inl e, c2) \<Rightarrow> (Inl e, c2)
               | (Inr wt, c2) \<Rightarrow> ResizeWindow ex wt cols rows c2)
            else
              (let ((out, err), c2) =
                 run ex [''resize-pane'', ''-t'', p, ''-x'', itoa cols, ''-y'', itoa rows] c1
               in case err of Some e \<Rightarrow> (Inl (RunFailed ''resize-pane'' e out), c2)
                            | None \<Rightarrow> (Inr (), c2))))"

definition PaneDimensions ::
  "'w exec \<Rightarrow> string \<Rightarrow> 'w client \<Rightarrow> (tmux_error + int \<times> int) \<times> 'w client" where
  "PaneDimensions ex p c =
     (case validateTarget p of
        Inl e \<Rightarrow> (Inl e, c)
      | Inr _ \<Rightarrow>
         let ((out, err), c1) =
           run ex [''display-message'', ''-t'', p, ''-p'', ''#{pane_width}:#{pane_height}''] c
         in case err of
              Some e \<Rightarrow> (Inl (RunFailed ''pane-dimensions'' e out), c1)
            | None \<Rightarrow>
               (case splitN (CHR '':'') 2 (trim_space out) of
                  [a, b] \<Rightarrow>
                    (case (parse_int a, parse_int b) of
                       ((x, None), (y, None)) \<Rightarrow> (Inr (x, y), c1)
                     | _ \<Rightarrow> (Inl (ParseFailed ''pane-dimensions'' out), c1))
                | _ \<Rightarrow> (Inl (ParseFailed ''pane-dimensions'' out), c1)))"

text \<open>\<open>SendKeys\<close>: NUL bytes are dropped, the rest goes to \<open>load-buffer\<close> on standard
  input; on failure the buffer is deleted so the input does not stay readable.\<close>

definition SendKeys ::
  "'w exec \<Rightarrow> string \<Rightarrow> bytes \<Rightarrow> 'w client \<Rightarrow> (tmux_error + unit) \<times> 'w client" where
  "SendKeys ex p data c =
     (let clean = replace_all (CHR 0x00) [] data in
      if clean = [] then (Inr (), c)
      else
        let c0 = c\<lparr>inputSeq := inputSeq c + 1\<rparr>;
            nm = ''pmux-in-'' @ nat_digits (unat (inputSeq c0));
            ((out, err), c1) =
              runCtxStdin ex (Some clean)
                [''load-buffer'', ''-b'', nm, ''-'', '';'', ''paste-buffer'', ''-d'', ''-r'',
                 ''-b'', nm, ''-t'', p] c0
        in case err of
             None \<Rightarrow> (Inr (), c1)
           | Some e \<Rightarrow>
              (let (_, c2) = run ex [''delete-buffer'', ''-b'', nm] c1
               in (Inl (RunFailed ''paste input'' e out), c2)))"

definition CapturePane ::
  "'w exec \<Rightarrow> string \<Rightarrow> 'w client \<Rightarrow> (tmux_error + string) \<times> 'w client" where
  "CapturePane ex p c =
     (let ((out, err), c1) = run ex [''capture-pane'', ''-t'', p, ''-e'', ''-p''] c
      in case err of Some e \<Rightarrow> (Inl (RunFailed ''capture-pane'' e out), c1)
                   | None \<Rightarrow> (Inr out, c1))"

record PaneCursorState =
  CursorX :: int
  CursorY :: int
  AlternateOn :: bool
  CursorVisible :: bool

definition default_cursor :: PaneCursorState where
  "default_cursor = \<lparr>CursorX = 0, CursorY = 0, AlternateOn = False, CursorVisible = True\<rparr>"

definition parse_cursor :: "string list \<Rightarrow> PaneCursorState" where
  "parse_cursor parts =
     (let st0 = default_cursor;
          st1 = (if length parts \<ge> 2
                 then st0\<lparr>CursorX := fst (parse_int (parts ! 0)), CursorY := fst (parse_int (parts ! 1))\<rparr>
                 else st0);
          st2 = (if length parts \<ge> 3 then st1\<lparr>AlternateOn := (parts ! 2 = ''1'')\<rparr> else st1)
      in if length parts \<ge> 4 \<and> parts ! 3 \<noteq> ''''
         then st2\<lparr>CursorVisible := (parts ! 3 \<noteq> ''0'')\<rparr> else st2)"

definition CursorState ::
  "'w exec \<Rightarrow> string \<Rightarrow> 'w client \<Rightarrow> (tmux_error + PaneCursorState) \<times> 'w client" where
  "CursorState ex p c =
     (case validateTarget p of
        Inl e \<Rightarrow> (Inl e, c)
      | Inr _ \<Rightarrow>
         let ((out, err), c1) =
           run ex [''display-message'', ''-t'', p, ''-p'',
                   ''#{cursor_x}:#{cursor_y}:#{alternate_on}:#{cursor_flag}''] c
         in case err of
              Some e \<Rightarrow> (Inl (RunFailed ''cursor-state'' e out), c1)
            | None \<Rightarrow> (Inr (parse_cursor (splitN (CHR '':'') 4 (trim_space out))), c1))"

definition PaneExists :: "'w exec \<Rightarrow> string \<Rightarrow> 'w client \<Rightarrow> bool \<times> 'w client" where
  "PaneExists ex p c =
     (let ((out, err), c1) = run ex [''display-message'', ''-t'', p, ''-p'', ''#{pane_id}''] c
      in (err = None \<and> trim_space out = p, c1))"

section \<open>Conversion to protocol types\<close>

definition toProtocolPanes :: "Pane list \<Rightarrow> TmuxPane list" where
  "toProtocolPanes = map (\<lambda>p.
     \<lparr>tp_ID = pane_ID p, tp_Index = pane_Index p, tp_Active = pane_Active p,
      tp_Size = \<lparr>ps_Cols = ps_Cols (pane_Size p), ps_Rows = ps_Rows (pane_Size p)\<rparr>,
      tp_Title = pane_Title p, tp_CurrentCommand = pane_Command p\<rparr>)"

definition toProtocolWindows :: "Window list \<Rightarrow> TmuxWindow list" where
  "toProtocolWindows = map (\<lambda>w.
     \<lparr>tw_ID = win_ID w, tw_Name = win_Name w, tw_Index = win_Index w,
      tw_Active = win_Active w, tw_Panes = toProtocolPanes (win_Panes w)\<rparr>)"

definition toProtocolSessions :: "Session list \<Rightarrow> TmuxSession list" where
  "toProtocolSessions = map (\<lambda>s.
     \<lparr>ts_ID = ses_ID s, ts_Name = ses_Name s, ts_CreatedAt = ses_CreatedAt s,
      ts_Windows = toProtocolWindows (ses_Windows s),
      ts_LastActivityAt = ses_LastActivityAt s, ts_Attached = ses_Attached s\<rparr>)"

section \<open>What an operation leaves alone\<close>

lemma runCtxStdin_frame [frame]:
  "Socket (snd (runCtxStdin ex i a c)) = Socket c"
  "inputSeq (snd (runCtxStdin ex i a c)) = inputSeq c"
  "issued (snd (runCtxStdin ex i a c)) = issued c @ [([''-L'', Socket c] @ a, i)]"
  by (simp_all add: runCtxStdin_def Let_def split: prod.split)

lemma run_frame [frame]:
  "Socket (snd (run ex a c)) = Socket c"
  "inputSeq (snd (run ex a c)) = inputSeq c"
  "issued (snd (run ex a c)) = issued c @ [([''-L'', Socket c] @ a, None)]"
  by (simp_all add: run_def frame)

lemma run_ok:
  "fst (ex (server c) ([''-L'', Socket c] @ a, None)) = (out, Finished None) \<Longrightarrow>
   \<exists>c1. run ex a c = ((trim_right (CHR 0x0A) out, None), c1)"
  by (cases "ex (server c) ([''-L'', Socket c] @ a, None)")
    (simp add: run_def runCtxStdin_def)

text \<open>A command is safe when the argument after \<open>-t\<close>, if there is one, matches the target
  pattern. An operation extends the history safely when it keeps the socket and issues only
  safe commands.\<close>

fun target_arg :: "string list \<Rightarrow> string option" where
  "target_arg (a # b # r) = (if a = ''-t'' then Some b else target_arg (b # r))"
| "target_arg _ = None"

definition safe_command :: "command \<Rightarrow> bool" where
  "safe_command cmd \<longleftrightarrow>
     (case target_arg (drop 2 (fst cmd)) of None \<Rightarrow> True | Some t \<Rightarrow> ValidTmuxTarget t)"

definition extends_safely :: "'w client \<Rightarrow> 'w client \<Rightarrow> bool" where
  "extends_safely c c' \<longleftrightarrow> Socket c' = Socket c \<and>
     (\<exists>cmds. issued c' = issued c @ cmds \<and> list_all safe_command cmds)"

lemma extends_refl [simp]: "extends_safely c c"
  by (simp add: extends_safely_def)

lemma extends_trans:
  "extends_safely a b \<Longrightarrow> extends_safely b c \<Longrightarrow> extends_safely a c"
  by (auto simp: extends_safely_def)

lemma extends_run:
  "run ex a c = (r, c') \<Longrightarrow> safe_command ([''-L'', Socket c] @ a, None) \<Longrightarrow> extends_safely c c'"
  using run_frame [of ex a c] by (simp add: extends_safely_def)

lemma ListSessions_safe: "ListSessions ex c = (r, c') \<Longrightarrow> extends_safely c c'"
  by (auto simp: ListSessions_def Let_def safe_command_def split: prod.splits option.splits
      if_splits dest!: extends_run)

lemma ListWindows_safe: "ListWindows ex s c = (r, c') \<Longrightarrow> extends_safely c c'"
  by (auto simp: ListWindows_def validateTarget_def Let_def safe_command_def
      split: prod.splits option.splits if_splits dest!: extends_run)

lemma ListPanes_safe: "ListPanes ex s c = (r, c') \<Longrightarrow> extends_safely c c'"
  by (auto simp: ListPanes_def validateTarget_def Let_def safe_command_def
      split: prod.splits option.splits if_splits dest!: extends_run)

lemma fill_panes_safe: "fill_panes ex s ws c = (r, c') \<Longrightarrow> extends_safely c c'"
  by (induction ws arbitrary: c r c')
    (fastforce split: prod.splits sum.splits dest: ListPanes_safe intro: extends_trans)+

lemma fill_windows_safe: "fill_windows ex ss c = (r, c') \<Longrightarrow> extends_safely c c'"
  by (induction ss arbitrary: c r c')
    (fastforce split: prod.splits sum.splits dest: ListWindows_safe fill_panes_safe
      intro: extends_trans)+

text \<open>The window loop keeps the sessions of the listing, in order.\<close>

lemma fill_windows_ids:
  "fill_windows ex ss c = (Inr r, c') \<Longrightarrow>
   map (\<lambda>s. s\<lparr>ses_Windows := []\<rparr>) r = map (\<lambda>s. s\<lparr>ses_Windows := []\<rparr>) ss"
  by (induction ss arbitrary: c r c') (fastforce split: prod.splits sum.splits)+

section \<open>What tmux prints for a session\<close>

definition session_line :: "Session \<Rightarrow> string" where
  "session_line s = join_with (CHR ''|'')
     [ses_ID s, ses_Name s, itoa (ses_CreatedAt s), itoa (ses_LastActivityAt s),
      (if ses_Attached s then ''1'' else ''0'')]"

text \<open>A session as the listing can show it: no separator in identifier and name, times in
  the range of \<open>int64\<close>, no windows yet.\<close>

definition plain_session :: "Session \<Rightarrow> bool" where
  "plain_session s \<longleftrightarrow>
     CHR ''|'' \<notin> set (ses_ID s) \<and> CHR ''|'' \<notin> set (ses_Name s) \<and>
     CHR 0x0A \<notin> set (ses_ID s) \<and> CHR 0x0A \<notin> set (ses_Name s) \<and>
     min_int64 \<le> ses_CreatedAt s \<and> ses_CreatedAt s \<le> max_int64 \<and>
     min_int64 \<le> ses_LastActivityAt s \<and> ses_LastActivityAt s \<le> max_int64 \<and>
     ses_Windows s = []"

lemma parse_session_line_print: "plain_session s \<Longrightarrow> parse_session_line (session_line s) = Some s"
proof -
  assume p: "plain_session s"
  let ?ps = "[ses_ID s, ses_Name s, itoa (ses_CreatedAt s), itoa (ses_LastActivityAt s),
      (if ses_Attached s then ''1'' else ''0'')]"
  have "splitN (CHR ''|'') (length ?ps) (join_with (CHR ''|'') ?ps) = ?ps"
    using p by (intro splitN_join) (auto simp: plain_session_def itoa_plain)
  then have "splitN (CHR ''|'') 5 (session_line s) = ?ps"
    by (simp add: session_line_def eval_nat_numeral)
  with p show ?thesis
    by (simp add: parse_session_line_def parse_int_itoa plain_session_def)
qed

lemma splitN_5: "splitN c 5 s = splitN c (Suc (Suc (Suc (Suc (Suc 0))))) s"
  by (simp add: eval_nat_numeral)

lemma session_line_plain:
  "plain_session s \<Longrightarrow> session_line s \<noteq> [] \<and> CHR 0x0A \<notin> set (session_line s)"
  by (auto simp: plain_session_def session_line_def itoa_plain)

lemma map_filter_all: "(\<And>x. x \<in> set xs \<Longrightarrow> f (g x) = Some x) \<Longrightarrow> List.map_filter f (map g xs) = xs"
  by (induction xs) (simp_all add: List.map_filter_simps)

lemma parse_lines_print:
  assumes "ss \<noteq> []" and "\<forall>s \<in> set ss. plain_session s"
  shows "parse_lines parse_session_line (join_with (CHR 0x0A) (map session_line ss)) = ss"
proof -
  have "split_on (CHR 0x0A) (join_with (CHR 0x0A) (map session_line ss)) = map session_line ss"
    using assms by (intro split_on_join) (auto simp: session_line_plain)
  with assms show ?thesis
    by (simp add: parse_lines_def map_filter_all parse_session_line_print)
qed

text \<open>A concrete tmux for the witnesses: it answers every command the same way.\<close>

definition const_exec :: "string \<Rightarrow> outcome \<Rightarrow> unit exec" where
  "const_exec out oc w cmd = ((out, oc), ())"

definition fresh_client :: "unit client" where
  "fresh_client = NewClient None '''' ()"

lemma fresh_client_fields [simp]:
  "Socket fresh_client = ''pmux''" "inputSeq fresh_client = 0" "server fresh_client = ()" "issued fresh_client = []"
  by (simp_all add: fresh_client_def NewClient_def DefaultSocket_def)

section \<open>Properties\<close>

text \<open>A session, window or pane name that a peer sends and that does not match
  the target pattern is refused by every operation that checks it: the call returns the
  error and the client is unchanged, so no command was issued.\<close>

theorem invalid_target_not_issued:
  assumes "\<not> ValidTmuxTarget t"
  shows "ListWindows ex t c = (Inl (ErrInvalidTarget t), c) \<and>
    ListPanes ex t c = (Inl (ErrInvalidTarget t), c) \<and>
    KillSession ex t c = (Inl (ErrInvalidTarget t), c) \<and>
    ClearWindowSizeOverride ex t c = (Inl (ErrInvalidTarget t), c) \<and>
    WindowForPane ex t c = (Inl (ErrInvalidTarget t), c) \<and>
    ResizePane ex t cols rows c = (Inl (ErrInvalidTarget t), c) \<and>
    PaneDimensions ex t c = (Inl (ErrInvalidTarget t), c) \<and>
    CursorState ex t c = (Inl (ErrInvalidTarget t), c)"
  using assms
  by (simp add: validateTarget_def ListWindows_def ListPanes_def KillSession_def
      ClearWindowSizeOverride_def WindowForPane_def ResizePane_def PaneDimensions_def
      CursorState_def)

theorem invalid_target_not_issued_witness:
  "KillSession (const_exec '''' (Finished None)) ''a;b'' fresh_client =
   (Inl (ErrInvalidTarget ''a;b''), fresh_client)"
  using invalid_target_not_issued [of "''a;b''" "const_exec '''' (Finished None)" fresh_client]
  by (simp add: ValidTmuxTarget_def target_char_def)

text \<open>The full listing issues only commands whose targets match the pattern,
  whatever identifiers tmux itself printed; when it succeeds it holds exactly the sessions of
  the first listing, in their order, each with its fields as listed.\<close>

theorem ListAll_safe_and_complete:
  "extends_safely c (snd (ListAll ex c)) \<and>
   (case (fst (ListSessions ex c), fst (ListAll ex c)) of
      (Inr ss, Inr r) \<Rightarrow>
        map (\<lambda>s. s\<lparr>ses_Windows := []\<rparr>) r = map (\<lambda>s. s\<lparr>ses_Windows := []\<rparr>) ss
    | (Inl e, r) \<Rightarrow> r = Inl e
    | (Inr _, Inl _) \<Rightarrow> True)"
proof -
  obtain r1 c1 where 1: "ListSessions ex c = (r1, c1)" by fastforce
  note s1 = ListSessions_safe [OF 1]
  show ?thesis
  proof (cases r1)
    case (Inl e)
    with 1 s1 show ?thesis by (simp add: ListAll_def)
  next
    case (Inr ss)
    obtain r2 c2 where 2: "fill_windows ex ss c1 = (r2, c2)" by fastforce
    have "extends_safely c c2" using s1 fill_windows_safe [OF 2] by (rule extends_trans)
    with 1 2 Inr fill_windows_ids [of ex ss c1] show ?thesis
      by (auto simp: ListAll_def split: sum.split)
  qed
qed

text \<open>When tmux prints one line per session in the requested format, and no
  identifier or name holds a separator, \<open>ListSessions\<close> returns exactly those sessions.\<close>

theorem ListSessions_roundtrip:
  assumes "\<And>w cmd. fst (ex w cmd) = (print_lines (map session_line ss), Finished None)"
    and "\<forall>s \<in> set ss. plain_session s"
  shows "fst (ListSessions ex c) = Inr ss"
proof -
  let ?fmt = "''#{session_id}|#{session_name}|#{session_created}|#{session_last_activity}|#{session_attached}''"
  let ?o = "trim_right (CHR 0x0A) (print_lines (map session_line ss))"
  obtain c1 where r: "run ex [''list-sessions'', ''-F'', ?fmt] c = ((?o, None), c1)"
    using run_ok [where ex = ex, OF assms(1)] by blast
  have l: "ListSessions ex c =
      (if ?o = [] then (Inr [], c1) else (Inr (parse_lines parse_session_line ?o), c1))"
    by (simp add: ListSessions_def r)
  show ?thesis
  proof (cases "ss = []")
    case True
    then show ?thesis by (simp add: l print_lines_def trim_right_def)
  next
    case False
    have t: "?o = join_with (CHR 0x0A) (map session_line ss)"
      using False assms(2) by (intro trim_print_lines) (auto simp: session_line_plain)
    have "join_with (CHR 0x0A) (map session_line ss) \<noteq> []"
      using False assms(2) by (intro join_nonempty) (auto simp: last_map session_line_plain)
    with parse_lines_print [OF False assms(2)] show ?thesis by (simp add: l t)
  qed
qed

theorem ListSessions_roundtrip_witness:
  "fst (ListSessions (const_exec (print_lines (map session_line
      [\<lparr>ses_ID = ''$0'', ses_Name = ''main'', ses_CreatedAt = 17, ses_LastActivityAt = 42,
        ses_Attached = True, ses_Windows = []\<rparr>])) (Finished None)) fresh_client) =
   Inr [\<lparr>ses_ID = ''$0'', ses_Name = ''main'', ses_CreatedAt = 17, ses_LastActivityAt = 42,
        ses_Attached = True, ses_Windows = []\<rparr>]"
  by (rule ListSessions_roundtrip)
    (simp_all add: const_exec_def plain_session_def min_int64_def max_int64_def)

text \<open>The bytes a peer types never appear in an argument list, which other
  users of the machine can read: apart from standard input the issued commands are the same
  for all input that is not empty once NUL bytes are dropped, and if the paste fails the
  buffer holding the input is deleted.\<close>

theorem SendKeys_private:
  assumes "replace_all (CHR 0x00) [] data \<noteq> []"
  shows "let c' = snd (SendKeys ex p data c);
             nm = ''pmux-in-'' @ nat_digits (unat (inputSeq c + 1));
             paste = [''-L'', Socket c, ''load-buffer'', ''-b'', nm, ''-'', '';'',
                      ''paste-buffer'', ''-d'', ''-r'', ''-b'', nm, ''-t'', p];
             del = [''-L'', Socket c, ''delete-buffer'', ''-b'', nm]
         in inputSeq c' = inputSeq c + 1 \<and>
            issued c' = issued c @ [(paste, Some (replace_all (CHR 0x00) [] data))]
              @ (if isOK (fst (SendKeys ex p data c)) then [] else [(del, None)])"
proof -
  let ?c0 = "c\<lparr>inputSeq := inputSeq c + 1\<rparr>"
  let ?nm = "''pmux-in-'' @ nat_digits (unat (inputSeq c + 1))"
  let ?a = "[''load-buffer'', ''-b'', ?nm, ''-'', '';'', ''paste-buffer'', ''-d'', ''-r'',
                 ''-b'', ?nm, ''-t'', p]"
  let ?d = "[''delete-buffer'', ''-b'', ?nm]"
  let ?i = "Some (replace_all (CHR 0x00) [] data)"
  obtain out err c1 where 1: "runCtxStdin ex ?i ?a ?c0 = ((out, err), c1)"
    by (metis surj_pair)
  obtain r c2 where 2: "run ex ?d c1 = (r, c2)" by fastforce
  note f1 = runCtxStdin_frame [of ex ?i ?a ?c0, unfolded 1]
  note f2 = run_frame [of ex ?d c1, unfolded 2]
  show ?thesis
    using assms 1 2 f1 f2 by (cases err) (simp_all add: SendKeys_def Let_def)
qed

lemma nat_digits_1: "nat_digits (Suc 0) = ''1''"
  by code_simp

theorem SendKeys_private_witness:
  "issued (snd (SendKeys (const_exec '''' (Finished (Some ExitError))) ''%1'' ''ls'' fresh_client)) =
   [([''-L'', ''pmux'', ''load-buffer'', ''-b'', ''pmux-in-1'', ''-'', '';'',
      ''paste-buffer'', ''-d'', ''-r'', ''-b'', ''pmux-in-1'', ''-t'', ''%1''], Some ''ls''),
    ([''-L'', ''pmux'', ''delete-buffer'', ''-b'', ''pmux-in-1''], None)]"
  using SendKeys_private [of "''ls''" "const_exec '''' (Finished (Some ExitError))" "''%1''" fresh_client]
  by (simp add: SendKeys_def Let_def runCtxStdin_def run_def const_exec_def fresh_client_def NewClient_def DefaultSocket_def
      replace_all_def nat_digits_1)

text \<open>Two ways the session listing goes wrong on output tmux really prints.
  \<open>#{session_attached}\<close> is the number of attached clients, so a session with two clients is
  reported as detached; and a separator inside a session's name shifts the fields that
  follow, so the times and the attached flag are lost.\<close>

theorem session_listing_defects:
  "parse_session_line ''$0|main|17|42|2'' =
     Some \<lparr>ses_ID = ''$0'', ses_Name = ''main'', ses_CreatedAt = 17, ses_LastActivityAt = 42,
           ses_Attached = False, ses_Windows = []\<rparr> \<and>
   parse_session_line ''$0|a|b|17|42|1'' =
     Some \<lparr>ses_ID = ''$0'', ses_Name = ''a'', ses_CreatedAt = 0, ses_LastActivityAt = 17,
           ses_Attached = False, ses_Windows = []\<rparr>"
  by (simp add: parse_session_line_def splitN_5 parse_int_def parse_uint_def digit_val_def
      max_int64_def min_int64_def)

end
