(* ===== verification/Pane_Bridge.thy ===== *)
theory Pane_Bridge
  imports Tmux_Client
begin

text \<open>
  \<open>internal/tmux/pty.go\<close> and \<open>resize.go\<close>: a bridge streams one pane's output through a
  FIFO and a relay pipe. tmux keeps one output pipe per pane, so a second attach displaces
  the first bridge, and the client records which bridge owns a pane's pipe.

  Bridges are Go pointers; they live in a store \<open>heap\<close> and are named by their address, so
  that ownership is pointer identity as in \<open>c.pipes[paneID] == pb\<close>. Each operation is cut at
  its lock operations into atomic sections; the sequential operation composes them, and
  \<open>bstep\<close> interleaves the sections of any number of goroutines. Operating-system calls (temp
  directory, FIFO, pipe) report their outcome as an argument.

  Shown here: the quoted FIFO path is one shell word; a failed attach releases everything it
  acquired; closing a bridge never switches off the pipe of a newer one, in any interleaving;
  a reader is never left blocked on a closed or displaced bridge; the size tracker releases a
  window exactly when it had forced it.
\<close>

section \<open>Quoting\<close>

definition shellQuote :: "string \<Rightarrow> string" where
  "shellQuote s = [CHR 0x27] @ replace_all (CHR 0x27) [CHR 0x27, CHR 0x5C, CHR 0x27, CHR 0x27] s @ [CHR 0x27]"

text \<open>How a POSIX shell reads one word: unquoted, a backslash takes the next character
  literally and a single quote opens a quoted part that runs to the next single quote. Any
  character with another meaning to the shell ends the reading with \<open>None\<close>.\<close>

definition plain_sh_char :: "char \<Rightarrow> bool" where
  "plain_sh_char c \<longleftrightarrow> target_char c \<and> c \<noteq> CHR ''$''"

fun sh_word :: "bool \<Rightarrow> string \<Rightarrow> string option" where
  "sh_word True [] = None"
| "sh_word False [] = Some []"
| "sh_word True (c # cs) =
     (if c = CHR 0x27 then sh_word False cs else map_option ((#) c) (sh_word True cs))"
| "sh_word False (c # cs) =
     (if c = CHR 0x27 then sh_word True cs
      else if c = CHR 0x5C then
        (case cs of [] \<Rightarrow> None | d # ds \<Rightarrow> map_option ((#) d) (sh_word False ds))
      else if plain_sh_char c then map_option ((#) c) (sh_word False cs)
      else None)"

lemma sh_word_quoted:
  "sh_word True (replace_all (CHR 0x27) [CHR 0x27, CHR 0x5C, CHR 0x27, CHR 0x27] s @ [CHR 0x27])
   = Some s"
  by (induction s) (simp_all add: replace_all_def)

section \<open>Bridges and the client's pipe table\<close>

datatype resource = TempDir string | FifoFd nat | PipeEnd nat

record bridge =
  paneID :: pane_id
  fifoDir :: string
  fifoFd :: nat
  pipeR :: nat
  pipeW :: nat
  initialContent :: string
  closed :: bool
  displaced :: bool
  doneClosed :: bool
  wClosed :: bool
  pipeBuf :: bytes

text \<open>\<open>tpipe\<close> is what tmux has open on each pane: by its manual a \<open>pipe-pane\<close> with a
  command replaces the pane's pipe and one without removes it. It is only written next to the
  two \<open>pipe-pane\<close> calls and read by no operation.\<close>

record 'w bsys =
  cl :: "'w client"
  heap :: "nat \<rightharpoonup> bridge"
  nextb :: nat
  pipes :: "pane_id \<rightharpoonup> nat"
  resources :: "resource set"
  tpipe :: "pane_id \<rightharpoonup> nat"

abbreviation upd_bridge :: "nat \<Rightarrow> (bridge \<Rightarrow> bridge) \<Rightarrow> 'w bsys \<Rightarrow> 'w bsys" where
  "upd_bridge b f s \<equiv> s\<lparr>heap := (heap s)(b := map_option f (heap s b))\<rparr>"

text \<open>The operating system's answers while a bridge is set up: which call failed, or the
  directory and descriptors it returned.\<close>

datatype os_setup =
    MkdirFailed
  | MkfifoFailed string
  | OpenFailed string
  | PipeFailed string nat
  | Ready string nat nat nat

datatype bridge_error =
    SetupFailed os_setup
  | PipePaneFailed run_err
  | BridgeClosed
  | EOF
  | ErrBridgeDisplaced
  | Tmux tmux_error

definition bridge_resources :: "bridge \<Rightarrow> resource set" where
  "bridge_resources b = {TempDir (fifoDir b), FifoFd (fifoFd b), PipeEnd (pipeR b), PipeEnd (pipeW b)}"

text \<open>\<open>acquire\<close>: the effect of the calls that succeeded before the outcome, and the clean-up
  of the error returns.\<close>

definition acquire :: "os_setup \<Rightarrow> resource set \<Rightarrow> resource set" where
  "acquire o' r = (case o' of
      MkdirFailed \<Rightarrow> r
    | MkfifoFailed d \<Rightarrow> insert (TempDir d) r - {TempDir d}
    | OpenFailed d \<Rightarrow> insert (TempDir d) r - {TempDir d}
    | PipeFailed d fd \<Rightarrow> insert (FifoFd fd) (insert (TempDir d) r) - {FifoFd fd, TempDir d}
    | Ready d fd pr pw \<Rightarrow> {TempDir d, FifoFd fd, PipeEnd pr, PipeEnd pw} \<union> r)"

text \<open>Names the operating system hands out are not in use.\<close>

definition fresh_setup :: "os_setup \<Rightarrow> resource set \<Rightarrow> bool" where
  "fresh_setup o' r = (case o' of
      MkdirFailed \<Rightarrow> True
    | MkfifoFailed d \<Rightarrow> TempDir d \<notin> r
    | OpenFailed d \<Rightarrow> TempDir d \<notin> r
    | PipeFailed d fd \<Rightarrow> TempDir d \<notin> r \<and> FifoFd fd \<notin> r
    | Ready d fd pr pw \<Rightarrow> TempDir d \<notin> r \<and> FifoFd fd \<notin> r \<and> PipeEnd pr \<notin> r \<and> PipeEnd pw \<notin> r)"

section \<open>The sections of AttachPane\<close>

definition attach_prepare ::
  "'w exec \<Rightarrow> os_setup \<Rightarrow> pane_id \<Rightarrow> 'w bsys \<Rightarrow> (bridge_error + nat) \<times> 'w bsys" where
  "attach_prepare ex o' p s =
     (let s0 = s\<lparr>resources := acquire o' (resources s)\<rparr> in
      case o' of
        Ready d fd pr pw \<Rightarrow>
          (let (r, c1) = CapturePane ex p (cl s0);
               pb = \<lparr>paneID = p, fifoDir = d, fifoFd = fd, pipeR = pr, pipeW = pw,
                     initialContent = (case r of Inl _ \<Rightarrow> '''' | Inr t \<Rightarrow> t),
                     closed = False, displaced = False, doneClosed = False, wClosed = False,
                     pipeBuf = []\<rparr>
           in (Inr (nextb s0),
               s0\<lparr>cl := c1, heap := (heap s0)(nextb s0 \<mapsto> pb), nextb := Suc (nextb s0)\<rparr>))
      | _ \<Rightarrow> (Inl (SetupFailed o'), s0))"

definition pipe_command :: "string \<Rightarrow> string" where
  "pipe_command dir = ''exec sh -c '' @ [CHR 0x27] @ ''cat > '' @ [CHR 0x22] @ ''$0'' @ [CHR 0x22]
     @ [CHR 0x27] @ '' '' @ shellQuote (dir @ ''/output'')"

text \<open>Under the pane's lock: open the pipe, then record the owner and learn the previous one.\<close>

definition attach_pipe :: "'w exec \<Rightarrow> nat \<Rightarrow> bridge \<Rightarrow> 'w bsys \<Rightarrow> run_err option \<times> 'w bsys" where
  "attach_pipe ex b pb s =
     (let ((out, err), c1) = run ex [''pipe-pane'', ''-t'', paneID pb, pipe_command (fifoDir pb)] (cl s);
          s1 = s\<lparr>cl := c1\<rparr>
      in case err of
           Some e \<Rightarrow> (Some e, s1)
         | None \<Rightarrow> (None, s1\<lparr>tpipe := (tpipe s1)(paneID pb \<mapsto> b)\<rparr>))"

definition attach_abort :: "bridge \<Rightarrow> 'w bsys \<Rightarrow> 'w bsys" where
  "attach_abort pb s = s\<lparr>resources := resources s - bridge_resources pb\<rparr>"

definition attach_record :: "nat \<Rightarrow> bridge \<Rightarrow> 'w bsys \<Rightarrow> nat option \<times> 'w bsys" where
  "attach_record b pb s = (pipes s (paneID pb), s\<lparr>pipes := (pipes s)(paneID pb \<mapsto> b)\<rparr>)"

definition displace :: "nat \<Rightarrow> 'w bsys \<Rightarrow> 'w bsys" where
  "displace b s = (case heap s b of
      None \<Rightarrow> s
    | Some pb \<Rightarrow>
       if closed pb \<or> displaced pb then s
       else (upd_bridge b (\<lambda>x. x\<lparr>displaced := True, wClosed := True\<rparr>) s)
              \<lparr>resources := resources s - {PipeEnd (pipeW pb)}\<rparr>)"

definition attach_finish :: "'w exec \<Rightarrow> pane_id \<Rightarrow> int \<Rightarrow> int \<Rightarrow> 'w bsys \<Rightarrow> 'w bsys" where
  "attach_finish ex p cols rows s =
     (if cols > 0 \<and> rows > 0 then s\<lparr>cl := snd (ResizePane ex p cols rows (cl s))\<rparr> else s)"

text \<open>The whole of \<open>AttachPane\<close>, run without interruption.\<close>

definition AttachPane ::
  "'w exec \<Rightarrow> os_setup \<Rightarrow> pane_id \<Rightarrow> int \<Rightarrow> int \<Rightarrow> 'w bsys \<Rightarrow> (bridge_error + nat) \<times> 'w bsys" where
  "AttachPane ex o' p cols rows s =
     (case attach_prepare ex o' p s of
        (Inl e, s1) \<Rightarrow> (Inl e, s1)
      | (Inr b, s1) \<Rightarrow>
         (case heap s1 b of
            None \<Rightarrow> (Inr b, s1)
          | Some pb \<Rightarrow>
             (case attach_pipe ex b pb s1 of
                (Some e, s2) \<Rightarrow> (Inl (PipePaneFailed e), attach_abort pb s2)
              | (None, s2) \<Rightarrow>
                 (let (prev, s3) = attach_record b pb s2;
                      s4 = (case prev of None \<Rightarrow> s3 | Some q \<Rightarrow> displace q s3)
                  in (Inr b, attach_finish ex p cols rows s4)))))"

section \<open>The sections of Close\<close>

definition close_begin :: "nat \<Rightarrow> 'w bsys \<Rightarrow> bool \<times> 'w bsys" where
  "close_begin b s = (case heap s b of
      None \<Rightarrow> (False, s)
    | Some pb \<Rightarrow> if closed pb then (False, s)
                 else (True, upd_bridge b (\<lambda>x. x\<lparr>closed := True\<rparr>) s))"

definition release_take :: "nat \<Rightarrow> bridge \<Rightarrow> 'w bsys \<Rightarrow> bool \<times> 'w bsys" where
  "release_take b pb s =
     (if pipes s (paneID pb) = Some b
      then (True, s\<lparr>pipes := (pipes s)(paneID pb := None)\<rparr>)
      else (False, s))"

definition release_off :: "'w exec \<Rightarrow> bridge \<Rightarrow> 'w bsys \<Rightarrow> 'w bsys" where
  "release_off ex pb s =
     s\<lparr>cl := snd (run ex [''pipe-pane'', ''-t'', paneID pb] (cl s)),
       tpipe := (tpipe s)(paneID pb := None)\<rparr>"

definition releasePipe :: "'w exec \<Rightarrow> nat \<Rightarrow> bridge \<Rightarrow> 'w bsys \<Rightarrow> 'w bsys" where
  "releasePipe ex b pb s =
     (case release_take b pb s of (True, s1) \<Rightarrow> release_off ex pb s1 | (False, s1) \<Rightarrow> s1)"

definition close_finish :: "nat \<Rightarrow> bridge \<Rightarrow> 'w bsys \<Rightarrow> 'w bsys" where
  "close_finish b pb s =
     (upd_bridge b (\<lambda>x. x\<lparr>doneClosed := True, wClosed := True\<rparr>) s)
       \<lparr>resources := resources s - bridge_resources pb\<rparr>"

definition Close :: "'w exec \<Rightarrow> nat \<Rightarrow> 'w bsys \<Rightarrow> 'w bsys" where
  "Close ex b s = (case heap s b of
      None \<Rightarrow> s
    | Some pb \<Rightarrow>
       (case close_begin b s of
          (False, s1) \<Rightarrow> s1
        | (True, s1) \<Rightarrow> close_finish b pb (releasePipe ex b pb s1)))"

section \<open>Reading, writing, resizing\<close>

text \<open>\<open>Read\<close>, with \<open>None\<close> for a call that blocks. The pipe hands out what is buffered, then
  end-of-file once its write end is closed; after \<open>Close\<close> the first test answers.\<close>

definition Read :: "nat \<Rightarrow> nat \<Rightarrow> 'w bsys \<Rightarrow> (bridge_error + bytes) option \<times> 'w bsys" where
  "Read n b s = (case heap s b of
      None \<Rightarrow> (Some (Inl EOF), s)
    | Some pb \<Rightarrow>
       if closed pb then (Some (Inl EOF), s)
       else if pipeBuf pb \<noteq> [] then
         (Some (Inr (take n (pipeBuf pb))), upd_bridge b (\<lambda>x. x\<lparr>pipeBuf := drop n (pipeBuf x)\<rparr>) s)
       else if wClosed pb then
         (Some (Inl (if displaced pb \<and> \<not> closed pb then ErrBridgeDisplaced else EOF)), s)
       else (None, s))"

text \<open>\<open>waitReadable\<close>: poll until readable, restarted after a signal with what is left of the interval, given
  what each poll returned and how long it took (in nanoseconds); when poll fails, a timer or the
  closing of the bridge ends the wait, \<open>PollErr w\<close> after \<open>w\<close>. The value is the time spent.\<close>

definition millisecond :: int where "millisecond = 1000000"
definition relayPollInterval :: int where "relayPollInterval = 50 * millisecond"

datatype poll_result = PollReturns | PollEINTR | PollErr int

definition poll_timeout :: "int \<Rightarrow> int" where
  "poll_timeout left = (let ms = left div millisecond in if ms < 1 then 1 else ms)"

fun waitReadable :: "int \<Rightarrow> (poll_result \<times> int) list \<Rightarrow> int option" where
  "waitReadable left polls =
     (if left \<le> 0 then Some 0
      else case polls of
        [] \<Rightarrow> None
      | (PollEINTR, d) # ps \<Rightarrow> map_option (\<lambda>t. d + t) (waitReadable (left - d) ps)
      | (PollErr w, d) # ps \<Rightarrow> Some (d + w)
      | (PollReturns, d) # ps \<Rightarrow> Some d)"

declare waitReadable.simps [simp del]

text \<open>What poll and the timer promise: poll takes at most its timeout, an error is immediate, and the timer
  runs for what was left.\<close>

fun polls_ok :: "int \<Rightarrow> (poll_result \<times> int) list \<Rightarrow> bool" where
  "polls_ok left [] \<longleftrightarrow> True"
| "polls_ok left ((r, d) # ps) \<longleftrightarrow> 0 \<le> d \<and> d \<le> poll_timeout left * millisecond \<and>
     (case r of PollErr w \<Rightarrow> d = 0 \<and> 0 \<le> w \<and> w \<le> left | _ \<Rightarrow> True) \<and> polls_ok (left - d) ps"

lemma poll_timeout_le: "0 < left \<Longrightarrow> poll_timeout left * millisecond \<le> left + millisecond"
proof -
  assume "0 < left"
  moreover have "left div millisecond * millisecond \<le> left"
    using minus_mod_eq_div_mult [of left millisecond] pos_mod_sign [of millisecond left] by (simp add: millisecond_def)
  ultimately show ?thesis by (simp add: poll_timeout_def Let_def millisecond_def)
qed

lemma waitReadable_bound:
  assumes "polls_ok left polls" "waitReadable left polls = Some t" "0 \<le> left"
  shows "0 \<le> t \<and> t \<le> left + millisecond"
  using assms
proof (induction polls arbitrary: left t)
  case Nil
  then show ?case by (auto simp: waitReadable.simps [of left] millisecond_def split: if_splits)
next
  case (Cons a ps)
  obtain r d where a: "a = (r, d)" by fastforce
  consider "left = 0" | "0 < left" "r = PollReturns" | w where "0 < left" "r = PollErr w" | "0 < left" "r = PollEINTR"
    using Cons.prems(3) by (cases r; cases "left = 0") auto
  then show ?case
  proof cases
    case 4
    then obtain u where u: "waitReadable (left - d) ps = Some u" "t = d + u"
      using Cons.prems(2) a by (auto simp: waitReadable.simps [of left])
    show ?thesis
    proof (cases "0 \<le> left - d")
      case True
      then show ?thesis using Cons.IH [of "left - d" u] Cons.prems(1) a u by auto
    next
      case False
      then have "u = 0" using u(1) by (simp add: waitReadable.simps [of "left - d"])
      then show ?thesis using u(2) Cons.prems(1) a poll_timeout_le [of left] 4(1) by auto
    qed
  qed (use Cons.prems a poll_timeout_le [of left] in
      \<open>auto simp: waitReadable.simps [of left] waitReadable.simps [of 0] millisecond_def\<close>)
qed

text \<open>One round of the relay goroutine, given what the FIFO read returned: bytes, nothing yet
  (\<open>EAGAIN\<close>), or an error or end-of-file. The flag tells whether the loop goes on.\<close>

datatype fifo_read = Got bytes | Again | Stopped

definition relay_round :: "fifo_read \<Rightarrow> nat \<Rightarrow> 'w bsys \<Rightarrow> bool \<times> 'w bsys" where
  "relay_round f b s = (case heap s b of
      None \<Rightarrow> (False, s)
    | Some pb \<Rightarrow>
       if doneClosed pb then (False, s)
       else case f of
         Got d \<Rightarrow> (if d = [] then (False, s)
                    else if wClosed pb then (False, s)
                    else (True, upd_bridge b (\<lambda>x. x\<lparr>pipeBuf := pipeBuf x @ d\<rparr>) s))
       | Again \<Rightarrow> (True, s)
       | Stopped \<Rightarrow> (False, s))"

definition Write :: "'w exec \<Rightarrow> nat \<Rightarrow> bytes \<Rightarrow> 'w bsys \<Rightarrow> (bridge_error + nat) \<times> 'w bsys" where
  "Write ex b data s = (case heap s b of
      None \<Rightarrow> (Inl BridgeClosed, s)
    | Some pb \<Rightarrow>
       if closed pb then (Inl BridgeClosed, s)
       else let (r, c1) = SendKeys ex (paneID pb) data (cl s); s1 = s\<lparr>cl := c1\<rparr>
            in (case r of Inl e \<Rightarrow> (Inl (Tmux e), s1) | Inr _ \<Rightarrow> (Inr (length data), s1)))"

definition Resize :: "'w exec \<Rightarrow> nat \<Rightarrow> int \<Rightarrow> int \<Rightarrow> 'w bsys \<Rightarrow> (bridge_error + unit) \<times> 'w bsys" where
  "Resize ex b cols rows s = (case heap s b of
      None \<Rightarrow> (Inl BridgeClosed, s)
    | Some pb \<Rightarrow>
       if closed pb then (Inl BridgeClosed, s)
       else let (r, c1) = ResizePane ex (paneID pb) cols rows (cl s); s1 = s\<lparr>cl := c1\<rparr>
            in (case r of Inl e \<Rightarrow> (Inl (Tmux e), s1) | Inr _ \<Rightarrow> (Inr (), s1)))"

section \<open>Pane sizes\<close>

record tracker =
  forced :: "pane_id \<Rightarrow> bool"

definition NewPaneSizeTracker :: tracker where
  "NewPaneSizeTracker = \<lparr>forced = (\<lambda>_. False)\<rparr>"

definition TrackAndResize ::
  "'w exec \<Rightarrow> pane_id \<Rightarrow> int \<Rightarrow> int \<Rightarrow> tracker \<times> 'w client \<Rightarrow> (tmux_error + unit) \<times> tracker \<times> 'w client" where
  "TrackAndResize ex p cols rows = (\<lambda>(t, c).
     case ResizePane ex p cols rows c of
       (Inl e, c1) \<Rightarrow> (Inl e, t, c1)
     | (Inr _, c1) \<Rightarrow> (Inr (), t\<lparr>forced := (forced t)(p := True)\<rparr>, c1))"

definition ReleaseIfForced ::
  "'w exec \<Rightarrow> pane_id \<Rightarrow> tracker \<times> 'w client \<Rightarrow> (tmux_error + unit) \<times> tracker \<times> 'w client" where
  "ReleaseIfForced ex p = (\<lambda>(t, c).
     let t1 = t\<lparr>forced := (forced t)(p := False)\<rparr> in
     if \<not> forced t p then (Inr (), t1, c)
     else case WindowForPane ex p c of
       (Inl _, c1) \<Rightarrow> (Inr (), t1, c1)
     | (Inr wt, c1) \<Rightarrow> (let (r, c2) = ClearWindowSizeOverride ex wt c1 in (r, t1, c2)))"

section \<open>Interleavings\<close>

text \<open>Where a goroutine stands: waiting for the pane's lock, holding it, or past it. A
  goroutine keeps the bridge's address and the fields that never change (the record \<open>pb\<close>).
  \<open>returned\<close> holds the bridges that were handed to a caller, who may then close them.\<close>

datatype bpc =
    Idle
  | AttWant nat bridge
  | AttHold nat bridge
  | AttFailed nat bridge
  | AttPiped nat bridge
  | AttDisplace nat bridge "nat option"
  | CloseWant nat bridge
  | CloseHold nat bridge
  | CloseOff nat bridge
  | CloseFin nat bridge

record 'w bworld =
  sys :: "'w bsys"
  locks :: "pane_id \<rightharpoonup> nat"
  pcs :: "nat \<Rightarrow> bpc"
  returned :: "nat set"

abbreviation goto :: "nat \<Rightarrow> bpc \<Rightarrow> 'w bsys \<Rightarrow> 'w bworld \<Rightarrow> 'w bworld" where
  "goto t pc s w \<equiv> w\<lparr>sys := s, pcs := (pcs w)(t := pc)\<rparr>"

definition lockPane :: "nat \<Rightarrow> pane_id \<Rightarrow> 'w bworld \<Rightarrow> 'w bworld option" where
  "lockPane t p w =
     (if locks w p = None then Some (w\<lparr>locks := (locks w)(p \<mapsto> t)\<rparr>) else None)"

abbreviation unlock :: "pane_id \<Rightarrow> 'w bworld \<Rightarrow> 'w bworld" where
  "unlock p w \<equiv> w\<lparr>locks := (locks w)(p := None)\<rparr>"

inductive bstep :: "'w exec \<Rightarrow> 'w bworld \<Rightarrow> 'w bworld \<Rightarrow> bool" for ex :: "'w exec" where
  prepare: "pcs w t = Idle \<Longrightarrow> attach_prepare ex o' p (sys w) = (Inr b, s1) \<Longrightarrow>
    heap s1 b = Some pb \<Longrightarrow> bstep ex w (goto t (AttWant b pb) s1 w)"
| prepare_fails: "pcs w t = Idle \<Longrightarrow> attach_prepare ex o' p (sys w) = (Inl e, s1) \<Longrightarrow>
    bstep ex w (goto t Idle s1 w)"
| attach_lock: "pcs w t = AttWant b pb \<Longrightarrow> lockPane t (paneID pb) w = Some w1 \<Longrightarrow>
    bstep ex w (goto t (AttHold b pb) (sys w1) w1)"
| attach_piped: "pcs w t = AttHold b pb \<Longrightarrow> attach_pipe ex b pb (sys w) = (None, s1) \<Longrightarrow>
    bstep ex w (goto t (AttPiped b pb) s1 w)"
| attach_pipe_fails: "pcs w t = AttHold b pb \<Longrightarrow> attach_pipe ex b pb (sys w) = (Some e, s1) \<Longrightarrow>
    bstep ex w (unlock (paneID pb) (goto t (AttFailed b pb) s1 w))"
| attach_aborts: "pcs w t = AttFailed b pb \<Longrightarrow>
    bstep ex w (goto t Idle (attach_abort pb (sys w)) w)"
| attach_records: "pcs w t = AttPiped b pb \<Longrightarrow> attach_record b pb (sys w) = (prev, s1) \<Longrightarrow>
    bstep ex w (unlock (paneID pb) (goto t (AttDisplace b pb prev) s1 w))"
| attach_returns: "pcs w t = AttDisplace b pb prev \<Longrightarrow>
    s1 = (case prev of None \<Rightarrow> sys w | Some q \<Rightarrow> displace q (sys w)) \<Longrightarrow>
    bstep ex w ((goto t Idle (attach_finish ex (paneID pb) cols rows s1) w)
                  \<lparr>returned := insert b (returned w)\<rparr>)"
| close_starts: "pcs w t = Idle \<Longrightarrow> b \<in> returned w \<Longrightarrow> heap (sys w) b = Some pb \<Longrightarrow>
    close_begin b (sys w) = (True, s1) \<Longrightarrow> bstep ex w (goto t (CloseWant b pb) s1 w)"
| close_again: "pcs w t = Idle \<Longrightarrow> b \<in> returned w \<Longrightarrow>
    close_begin b (sys w) = (False, s1) \<Longrightarrow> bstep ex w (goto t Idle s1 w)"
| close_lock: "pcs w t = CloseWant b pb \<Longrightarrow> lockPane t (paneID pb) w = Some w1 \<Longrightarrow>
    bstep ex w (goto t (CloseHold b pb) (sys w1) w1)"
| close_owner: "pcs w t = CloseHold b pb \<Longrightarrow> release_take b pb (sys w) = (True, s1) \<Longrightarrow>
    bstep ex w (goto t (CloseOff b pb) s1 w)"
| close_not_owner: "pcs w t = CloseHold b pb \<Longrightarrow> release_take b pb (sys w) = (False, s1) \<Longrightarrow>
    bstep ex w (unlock (paneID pb) (goto t (CloseFin b pb) s1 w))"
| close_off: "pcs w t = CloseOff b pb \<Longrightarrow>
    bstep ex w (unlock (paneID pb) (goto t (CloseFin b pb) (release_off ex pb (sys w)) w))"
| close_ends: "pcs w t = CloseFin b pb \<Longrightarrow>
    bstep ex w (goto t Idle (close_finish b pb (sys w)) w)"
| reads: "Read n b (sys w) = (r, s1) \<Longrightarrow> bstep ex w (w\<lparr>sys := s1\<rparr>)"
| relays: "relay_round f b (sys w) = (r', s1) \<Longrightarrow> bstep ex w (w\<lparr>sys := s1\<rparr>)"
| writes: "Write ex b d (sys w) = (r'', s1) \<Longrightarrow> bstep ex w (w\<lparr>sys := s1\<rparr>)"
| resizes: "Resize ex b cols rows (sys w) = (r''', s1) \<Longrightarrow> bstep ex w (w\<lparr>sys := s1\<rparr>)"

definition binit :: "'w bworld \<Rightarrow> bool" where
  "binit w \<longleftrightarrow> pipes (sys w) = Map.empty \<and> tpipe (sys w) = Map.empty \<and> locks w = Map.empty
     \<and> pcs w = (\<lambda>_. Idle)"

text \<open>The sections that do not change the pipe table.\<close>

lemma pipe_tables_frame [frame]:
  "attach_prepare ex o' p s = (r, s1) \<Longrightarrow> pipes s1 = pipes s \<and> tpipe s1 = tpipe s"
  "close_begin b s = (r2, s1) \<Longrightarrow> pipes s1 = pipes s \<and> tpipe s1 = tpipe s"
  "Read n b s = (r3, s1) \<Longrightarrow> pipes s1 = pipes s \<and> tpipe s1 = tpipe s"
  "relay_round f b s = (r4, s1) \<Longrightarrow> pipes s1 = pipes s \<and> tpipe s1 = tpipe s"
  "Write ex b d s = (r5, s1) \<Longrightarrow> pipes s1 = pipes s \<and> tpipe s1 = tpipe s"
  "Resize ex b cols rows s = (r6, s1) \<Longrightarrow> pipes s1 = pipes s \<and> tpipe s1 = tpipe s"
  by (auto simp: attach_prepare_def close_begin_def Read_def relay_round_def Write_def
      Resize_def Let_def split: os_setup.splits option.splits if_splits prod.splits sum.splits
      fifo_read.splits)

lemma pipe_tables_frame_fun [frame, simp]:
  "pipes (attach_abort pb s) = pipes s" "tpipe (attach_abort pb s) = tpipe s"
  "pipes (displace b s) = pipes s" "tpipe (displace b s) = tpipe s"
  "pipes (attach_finish ex p cols rows s) = pipes s" "tpipe (attach_finish ex p cols rows s) = tpipe s"
  "pipes (close_finish b pb s) = pipes s" "tpipe (close_finish b pb s) = tpipe s"
  by (simp_all add: attach_abort_def displace_def attach_finish_def close_finish_def
      split: option.split)

lemma attach_pipe_tables:
  "attach_pipe ex b pb s = (e, s1) \<Longrightarrow> pipes s1 = pipes s \<and>
     tpipe s1 = (if e = None then (tpipe s)(paneID pb \<mapsto> b) else tpipe s)"
  by (auto simp: attach_pipe_def Let_def split: prod.splits option.splits)

text \<open>The pane a goroutine holds the lock of, and what it may assume about that pane.\<close>

fun holds :: "bpc \<Rightarrow> pane_id option" where
  "holds (AttHold b pb) = Some (paneID pb)"
| "holds (AttPiped b pb) = Some (paneID pb)"
| "holds (CloseHold b pb) = Some (paneID pb)"
| "holds (CloseOff b pb) = Some (paneID pb)"
| "holds _ = None"

fun in_section :: "bpc \<Rightarrow> nat option \<Rightarrow> nat option \<Rightarrow> bool" where
  "in_section (AttPiped b pb) own open' \<longleftrightarrow> open' = Some b"
| "in_section (CloseOff b pb) own open' \<longleftrightarrow> own = None \<and> open' = Some b"
| "in_section _ own open' \<longleftrightarrow> own = open'"

definition binv :: "'w bworld \<Rightarrow> bool" where
  "binv w \<longleftrightarrow>
     (\<forall>t p. locks w p = Some t \<longleftrightarrow> holds (pcs w t) = Some p) \<and>
     (\<forall>p. locks w p = None \<longrightarrow> pipes (sys w) p = tpipe (sys w) p) \<and>
     (\<forall>t p. holds (pcs w t) = Some p \<longrightarrow>
        in_section (pcs w t) (pipes (sys w) p) (tpipe (sys w) p))"

lemma binvI:
  assumes "\<And>t p. locks w p = Some t \<longleftrightarrow> holds (pcs w t) = Some p"
    and "\<And>p. locks w p = None \<Longrightarrow> pipes (sys w) p = tpipe (sys w) p"
    and "\<And>t p. holds (pcs w t) = Some p \<Longrightarrow>
      in_section (pcs w t) (pipes (sys w) p) (tpipe (sys w) p)"
  shows "binv w"
  using assms by (simp add: binv_def)

lemma binvD:
  assumes "binv w"
  shows "locks w p = Some t \<longleftrightarrow> holds (pcs w t) = Some p"
    and "locks w p = None \<Longrightarrow> pipes (sys w) p = tpipe (sys w) p"
    and "holds (pcs w t) = Some p \<Longrightarrow> in_section (pcs w t) (pipes (sys w) p) (tpipe (sys w) p)"
  using assms by (simp_all add: binv_def)

lemma binv_excl:
  "binv w \<Longrightarrow> holds (pcs w t) = Some p \<Longrightarrow> holds (pcs w u) = Some p \<Longrightarrow> t = u"
  using binvD(1) [of w p t] binvD(1) [of w p u] by simp

text \<open>Three ways a goroutine moves: without the lock, taking it, or holding it (and then
  keeping or releasing it).\<close>

lemma binv_outside:
  assumes "binv w" and "holds (pcs w t) = None" and "holds pc = None"
    and "pipes s = pipes (sys w)" and "tpipe s = tpipe (sys w)"
  shows "binv (goto t pc s w)"
  using assms binvD [OF assms(1)] by (intro binvI) (auto split: if_splits)

lemma binv_lock:
  assumes "binv w" and "holds (pcs w t) = None" and "lockPane t p w = Some w1"
    and "holds pc = Some p" and "\<And>x. in_section pc x x"
  shows "binv (w1\<lparr>pcs := (pcs w1)(t := pc)\<rparr>)"
proof -
  from assms(3) have free: "locks w p = None" and w1: "w1 = w\<lparr>locks := (locks w)(p \<mapsto> t)\<rparr>"
    by (simp_all add: lockPane_def split: if_splits)
  have none: "holds (pcs w u) \<noteq> Some p" for u
    using free binvD(1) [OF assms(1), of p u] by simp
  show ?thesis
    using assms(2,4,5) free none binvD [OF assms(1)]
    by (intro binvI) (auto simp: w1 split: if_splits)
qed

lemma binv_inside:
  assumes "binv w" and "holds (pcs w t) = Some p" and "holds pc = Some p"
    and "\<And>q. q \<noteq> p \<Longrightarrow> pipes s q = pipes (sys w) q \<and> tpipe s q = tpipe (sys w) q"
    and "in_section pc (pipes s p) (tpipe s p)"
  shows "binv (goto t pc s w)"
proof (rule binvI)
  fix u q
  show "locks (goto t pc s w) q = Some u \<longleftrightarrow> holds (pcs (goto t pc s w) u) = Some q"
    using assms(2,3) binvD(1) [OF assms(1), of q u] by auto
  show "pipes (sys (goto t pc s w)) q = tpipe (sys (goto t pc s w)) q"
    if "locks (goto t pc s w) q = None"
    using that assms(2,4) binvD(1) [OF assms(1), of p t] binvD(2) [OF assms(1), of q]
    by (cases "q = p") auto
  show "in_section (pcs (goto t pc s w) u) (pipes (sys (goto t pc s w)) q) (tpipe (sys (goto t pc s w)) q)"
    if "holds (pcs (goto t pc s w) u) = Some q"
  proof (cases "u = t")
    case False
    with that have "holds (pcs w u) = Some q" and "q \<noteq> p"
      using binv_excl [OF assms(1,2), of u] by auto
    with False assms(4) binvD(3) [OF assms(1), of u q] show ?thesis by simp
  qed (use that assms(3,5) in simp)
qed

lemma binv_unlock:
  assumes "binv w" and "holds (pcs w t) = Some p" and "holds pc = None"
    and "\<And>q. q \<noteq> p \<Longrightarrow> pipes s q = pipes (sys w) q \<and> tpipe s q = tpipe (sys w) q"
    and "pipes s p = tpipe s p"
  shows "binv (goto t pc s w\<lparr>locks := (locks w)(p := None)\<rparr>)"
proof (rule binvI)
  let ?w = "goto t pc s w\<lparr>locks := (locks w)(p := None)\<rparr>"
  fix u q
  show "locks ?w q = Some u \<longleftrightarrow> holds (pcs ?w u) = Some q"
  proof (cases "u = t")
    case True
    with assms(2,3) binvD(1) [OF assms(1), of q u] show ?thesis by auto
  next
    case False
    then have "holds (pcs w u) \<noteq> Some p" using binv_excl [OF assms(1,2), of u] by auto
    with False binvD(1) [OF assms(1), of q u] show ?thesis by auto
  qed
  show "pipes (sys ?w) q = tpipe (sys ?w) q" if "locks ?w q = None"
    using that assms(4,5) binvD(2) [OF assms(1), of q] by (cases "q = p") auto
  show "in_section (pcs ?w u) (pipes (sys ?w) q) (tpipe (sys ?w) q)"
    if "holds (pcs ?w u) = Some q"
  proof (cases "u = t")
    case False
    with that have "holds (pcs w u) = Some q" and "q \<noteq> p"
      using binv_excl [OF assms(1,2), of u] by auto
    with False assms(4) binvD(3) [OF assms(1), of u q] show ?thesis by simp
  qed (use that assms(3) in simp)
qed

lemma binv_same_tables:
  "binv w \<Longrightarrow> pipes s = pipes (sys w) \<Longrightarrow> tpipe s = tpipe (sys w) \<Longrightarrow> binv (w\<lparr>sys := s\<rparr>)"
  by (simp add: binv_def)

lemma binv_returned [simp]: "binv (w\<lparr>returned := r\<rparr>) = binv w"
  by (simp add: binv_def)

lemma binv_step: "binv w \<Longrightarrow> bstep ex w w' \<Longrightarrow> binv w'"
proof (erule bstep.cases, goal_cases)
  case (1 w t o' p b s1 pb)
  then show ?case by (auto intro!: binv_outside dest: pipe_tables_frame)
next
  case (2 w t o' p e s1)
  then show ?case by (auto intro!: binv_outside dest: pipe_tables_frame)
next
  case (3 w t b pb w1)
  then show ?case by (auto intro!: binv_lock)
next
  case (4 w t b pb s1)
  then show ?case by (auto intro!: binv_inside [where p = "paneID pb"] dest!: attach_pipe_tables)
next
  case (5 w t b pb e s1)
  then show ?case using binvD(3) [of w t "paneID pb"]
    by (auto intro!: binv_unlock dest!: attach_pipe_tables)
next
  case (6 w t b pb)
  then show ?case by (auto intro!: binv_outside)
next
  case (7 w t b pb prev s1)
  then show ?case using binvD(3) [of w t "paneID pb"]
    by (auto intro!: binv_unlock simp: attach_record_def)
next
  case (8 w t b pb prev s1 cols rows)
  then show ?case by (auto intro!: binv_outside split: option.split)
next
  case (9 w t b pb s1)
  then show ?case by (auto intro!: binv_outside dest: pipe_tables_frame)
next
  case (10 w t b s1)
  then show ?case by (auto intro!: binv_outside dest: pipe_tables_frame)
next
  case (11 w t b pb w1)
  then show ?case by (auto intro!: binv_lock)
next
  case (12 w t b pb s1)
  then show ?case using binvD(3) [of w t "paneID pb"]
    by (auto intro!: binv_inside [where p = "paneID pb"] simp: release_take_def split: if_splits)
next
  case (13 w t b pb s1)
  then show ?case using binvD(3) [of w t "paneID pb"]
    by (auto intro!: binv_unlock simp: release_take_def split: if_splits)
next
  case (14 w t b pb)
  then show ?case using binvD(3) [of w t "paneID pb"]
    by (auto intro!: binv_unlock simp: release_off_def)
next
  case (15 w t b pb)
  then show ?case by (auto intro!: binv_outside)
qed (auto intro!: binv_same_tables dest: pipe_tables_frame)

lemma binv_init: "binit w \<Longrightarrow> binv w"
  by (simp add: binit_def binv_def)

interpretation bridges: machine "binit" "bstep ex" "binv" for ex
  by unfold_locales (auto intro: binv_init binv_step)

section \<open>The sequential operations are runs of the interleaved model\<close>

lemma attach_prepare_Inr:
  "attach_prepare ex o' p s = (Inr b, s1) \<Longrightarrow> \<exists>pb. heap s1 b = Some pb \<and> paneID pb = p"
  by (auto simp: attach_prepare_def Let_def split: os_setup.splits prod.splits)

lemma bstep_to: "bstep ex w w' \<Longrightarrow> w' = w'' \<Longrightarrow> bstep ex w w''"
  by simp

lemma attach_run:
  assumes idle: "pcs w t = Idle" and free: "locks w p = None"
    and "AttachPane ex o' p cols rows (sys w) = (Inr b, s')"
  shows "(bstep ex)\<^sup>*\<^sup>* w (w\<lparr>sys := s', returned := insert b (returned w)\<rparr>)"
proof -
  obtain b' s1 where 1: "attach_prepare ex o' p (sys w) = (Inr b', s1)"
    using assms(3) by (cases "attach_prepare ex o' p (sys w)")
      (auto simp: AttachPane_def split: sum.splits)
  obtain pb where pb: "heap s1 b' = Some pb" "paneID pb = p"
    using attach_prepare_Inr [OF 1] by blast
  obtain s2 where 2: "attach_pipe ex b' pb s1 = (None, s2)"
    using assms(3) 1 pb by (cases "attach_pipe ex b' pb s1")
      (auto simp: AttachPane_def split: option.splits)
  obtain prev s3 where 3: "attach_record b' pb s2 = (prev, s3)" by fastforce
  let ?s4 = "case prev of None \<Rightarrow> s3 | Some q \<Rightarrow> displace q s3"
  have res: "b' = b" "s' = attach_finish ex p cols rows ?s4"
    using assms(3) 1 2 3 pb by (auto simp: AttachPane_def)
  let ?w1 = "goto t (AttWant b pb) s1 w"
  let ?w2 = "goto t (AttHold b pb) s1 w\<lparr>locks := (locks w)(p \<mapsto> t)\<rparr>"
  let ?w3 = "goto t (AttPiped b pb) s2 w\<lparr>locks := (locks w)(p \<mapsto> t)\<rparr>"
  let ?w4 = "goto t (AttDisplace b pb prev) s3 w"
  have nolock: "(locks w)(p := None) = locks w" using free by auto
  have "bstep ex w ?w1" using idle 1 pb res by (auto intro!: bstep.prepare)
  moreover have "bstep ex ?w1 ?w2"
  proof (rule bstep_to)
    show "bstep ex ?w1 (goto t (AttHold b pb) s1 (?w1\<lparr>locks := (locks w)(p \<mapsto> t)\<rparr>))"
      using bstep.attach_lock [of ?w1 t b pb "?w1\<lparr>locks := (locks w)(p \<mapsto> t)\<rparr>" ex] free pb
      by (simp add: lockPane_def)
  qed (cases w; simp)
  moreover have "bstep ex ?w2 ?w3"
    by (rule bstep_to [OF bstep.attach_piped [where t = t and b = b and pb = pb]])
      ((use 2 res in \<open>cases w; simp\<close>)+)
  moreover have "bstep ex ?w3 ?w4"
  proof (rule bstep_to)
    show "bstep ex ?w3 (unlock (paneID pb) (goto t (AttDisplace b pb prev) s3 ?w3))"
      using bstep.attach_records [of ?w3 t b pb prev s3 ex] 3 res by simp
  qed (use pb nolock in \<open>cases w; simp\<close>)
  moreover have "bstep ex ?w4 (w\<lparr>sys := s', returned := insert b (returned w)\<rparr>)"
  proof (rule bstep_to)
    show "bstep ex ?w4 ((goto t Idle (attach_finish ex (paneID pb) cols rows ?s4) ?w4)
        \<lparr>returned := insert b (returned ?w4)\<rparr>)"
      by (rule bstep.attach_returns [where prev = prev]) (simp_all split: option.split)
  qed (use res pb idle in \<open>cases w; simp add: fun_upd_idem\<close>)
  ultimately show ?thesis by (meson rtranclp.rtrancl_refl converse_rtranclp_into_rtranclp)
qed

section \<open>Properties\<close>

text \<open>The FIFO path handed to the shell is read back as one word equal to the
  path, whatever bytes it contains.\<close>

theorem shellQuote_one_word: "sh_word False (shellQuote s) = Some s"
  by (simp add: shellQuote_def sh_word_quoted)


text \<open>Property C38. An attach that fails leaves no temporary directory, descriptor or pipe
  behind and does not touch the owner of the pane's pipe.\<close>

theorem AttachPane_failure_releases:
  assumes "fresh_setup o' (resources s)" and "AttachPane ex o' p cols rows s = (Inl e, s')"
  shows "resources s' = resources s \<and> pipes s' = pipes s \<and> tpipe s' = tpipe s"
  using assms
  by (cases o')
    (auto simp: AttachPane_def attach_prepare_def acquire_def fresh_setup_def attach_abort_def
      attach_pipe_def bridge_resources_def Let_def split: prod.splits option.splits sum.splits)

text \<open>Once a bridge is closed, \<open>Read\<close> returns end-of-file at once; once it is
  displaced, \<open>Read\<close> hands out what was buffered and then reports the displacement. In neither
  state does it block.\<close>

theorem Read_never_stuck:
  assumes "heap s b = Some pb" and "\<not> closed pb" and "\<not> displaced pb"
  shows "fst (Read n b (Close ex b s)) = Some (Inl EOF) \<and>
    fst (Read n b (displace b s)) =
      Some (if pipeBuf pb = [] then Inl ErrBridgeDisplaced else Inr (take n (pipeBuf pb)))"
proof -
  have "heap (Close ex b s) b = Some (pb\<lparr>closed := True, doneClosed := True, wClosed := True\<rparr>)"
    using assms by (cases pb) (simp add: Close_def close_begin_def close_finish_def releasePipe_def
        release_take_def release_off_def)
  then have "fst (Read n b (Close ex b s)) = Some (Inl EOF)" by (simp add: Read_def)
  moreover have "heap (displace b s) b = Some (pb\<lparr>displaced := True, wClosed := True\<rparr>)"
    using assms by (simp add: displace_def)
  ultimately show ?thesis using assms by (simp add: Read_def)
qed

text \<open>The tracker hands a window back to tmux exactly when it had forced it: for a
  pane that is not marked nothing is issued and nothing changes, a release unmarks that pane
  only, and releasing twice is the same as releasing once. A resize that failed marks
  nothing.\<close>

theorem ReleaseIfForced_once:
  "let (r, t1, c1) = ReleaseIfForced ex p (t, c) in
     forced t1 = (forced t)(p := False) \<and>
     (r, t1, c1) = (if forced t p then (r, t1, c1) else (Inr (), t, c)) \<and>
     ReleaseIfForced ex p (t1, c1) = (Inr (), t1, c1) \<and>
     (case TrackAndResize ex p cols rows (t, c) of
        (Inl e, t2, c2) \<Rightarrow> t2 = t
      | (Inr u, t2, c2) \<Rightarrow> forced t2 = (forced t)(p := True))"
proof -
  have id: "\<not> forced t' q \<Longrightarrow> t'\<lparr>forced := (forced t')(q := False)\<rparr> = t'" for t' q
    by (cases t') (auto simp: fun_upd_idem)
  obtain r t1 c1 where e: "ReleaseIfForced ex p (t, c) = (r, t1, c1)" by (metis prod_cases3)
  then have t1: "t1 = t\<lparr>forced := (forced t)(p := False)\<rparr>"
    by (auto simp: ReleaseIfForced_def Let_def split: if_splits prod.splits sum.splits)
  then have n: "\<not> forced t1 p" by simp
  have "r = Inr () \<and> t1 = t \<and> c1 = c" if "\<not> forced t p"
    using e that id [OF that] by (simp add: ReleaseIfForced_def)
  moreover have "ReleaseIfForced ex p (t1, c1) = (Inr (), t1, c1)"
    using n id [OF n] by (simp add: ReleaseIfForced_def)
  ultimately show ?thesis
    using n by (auto simp: e t1 TrackAndResize_def split: prod.splits sum.splits)
qed

section \<open>Witnesses\<close>

definition demo_bsys :: "unit bsys" where
  "demo_bsys = \<lparr>cl = fresh_client, heap = Map.empty, nextb = 0, pipes = Map.empty,
     resources = {}, tpipe = Map.empty\<rparr>"

definition demo_world :: "unit bworld" where
  "demo_world = \<lparr>sys = demo_bsys, locks = Map.empty, pcs = (\<lambda>_. Idle), returned = {}\<rparr>"

abbreviation ok_exec :: "unit exec" where "ok_exec \<equiv> const_exec '''' (Finished None)"

definition demo_attached :: "unit bsys" where
  "demo_attached = snd (AttachPane ok_exec (Ready ''/tmp/b'' 3 4 5) ''%1'' 0 0 demo_bsys)"

lemmas demo_defs = demo_bsys_def AttachPane_def attach_prepare_def acquire_def
  attach_pipe_def attach_record_def attach_finish_def CapturePane_def run_def runCtxStdin_def
  const_exec_def fresh_client_def NewClient_def DefaultSocket_def trim_right_def

lemma demo_attach_ok:
  "AttachPane ok_exec (Ready ''/tmp/b'' 3 4 5) ''%1'' 0 0 demo_bsys = (Inr 0, demo_attached)"
  by (simp add: demo_attached_def demo_defs)

lemma demo_world_sys: "sys demo_world = demo_bsys"
  by (simp add: demo_world_def)

lemma demo_reach: "reach binit (bstep ok_exec) (demo_world\<lparr>sys := demo_attached, returned := {0}\<rparr>)"
proof -
  have "reach binit (bstep ok_exec) demo_world"
    by (rule reach.start) (simp add: binit_def demo_world_def demo_bsys_def)
  moreover have "(bstep ok_exec)\<^sup>*\<^sup>* demo_world (demo_world\<lparr>sys := demo_attached, returned := insert 0 (returned demo_world)\<rparr>)"
    by (rule attach_run [where t = 7, OF _ _ demo_attach_ok [folded demo_world_sys]])
      (simp_all add: demo_world_def)
  ultimately show ?thesis by (auto simp: demo_world_def dest: reach_steps)
qed


theorem AttachPane_failure_releases_witness:
  "resources (snd (AttachPane (const_exec '''' (Finished (Some ExitError)))
      (Ready ''/tmp/b'' 3 4 5) ''%1'' 0 0 demo_bsys)) = {}"
  using AttachPane_failure_releases [of "Ready ''/tmp/b'' 3 4 5" demo_bsys
      "const_exec '''' (Finished (Some ExitError))" "''%1''" 0 0 "PipePaneFailed ExitError"]
  by (simp add: fresh_setup_def demo_defs)

theorem Read_never_stuck_witness:
  "fst (Read 8 0 (displace 0 demo_attached)) = Some (Inl ErrBridgeDisplaced)"
  using Read_never_stuck [of demo_attached 0 "the (heap demo_attached 0)" 8 ok_exec]
  by (simp add: demo_attached_def demo_defs)

end
