(* ===== verification/Peer_Auth.thy ===== *)
theory Peer_Auth
  imports Protocol
begin

text \<open>
  The part of \<open>internal/webrtc/peer.go\<close> that belongs to one connection: the AUTH V2
  key-possession handshake, the gate in front of the request handler, the gate in front of
  outgoing messages, and the stop of dispatch at tear-down.

  A \<open>Peer\<close> is touched by several goroutines: Pion's message callback, the callback that
  sends the challenge, the timer, senders, and the tear-down. Each method is cut at its lock
  operations into sections; the method composes them, and \<open>pstep\<close> interleaves the sections of
  all goroutines. What can be seen from outside (messages received and sent, requests handed
  to the handler, nonces, tear-downs) is recorded in a trace; no operation reads it.

  Shown here: in every interleaving a request reaches the handler only after the peer proved
  possession of the pairing secret over this connection's nonce and certificates; nothing but
  handshake messages leaves before \<open>auth_confirm\<close>; a verdict on the handshake is final; after
  dispatch is stopped no request reaches the handler.
\<close>

section \<open>The transcript and its MAC\<close>

definition authNonceSize :: nat where "authNonceSize = 32"
definition authProtocolVersion :: int where "authProtocolVersion = 2"
definition authLabelMobileToHost :: string where
  "authLabelMobileToHost = ''pocketmux-auth-v2 mobile->host''"
definition authLabelHostToMobile :: string where
  "authLabelHostToMobile = ''pocketmux-auth-v2 host->mobile''"
definition maxBufferedAmount :: nat where "maxBufferedAmount = 512 * 1024"
definition maxControlBufferedAmount :: nat where "maxControlBufferedAmount = 2 * maxBufferedAmount"

definition auth_transcript :: "string \<Rightarrow> bytes \<Rightarrow> bytes \<Rightarrow> bytes \<Rightarrow> bytes \<Rightarrow> bytes" where
  "auth_transcript label hn mn hfp mfp = label @ hn @ mn @ hfp @ mfp"

definition authMAC :: "bytes \<Rightarrow> string \<Rightarrow> bytes \<Rightarrow> bytes \<Rightarrow> bytes \<Rightarrow> bytes \<Rightarrow> bytes" where
  "authMAC secret label hn mn hfp mfp = hmac_sha256 secret (auth_transcript label hn mn hfp mfp)"

text \<open>What \<open>pcDTLSFingerprints\<close> reads from Pion: whether the SCTP and DTLS transports exist, the
  certificate the remote side presented, and the local fingerprints with their algorithms.\<close>

record transport =
  tr_sctp :: bool
  tr_dtls :: bool
  tr_remoteCert :: bytes
  tr_local :: "(string \<times> string) list option"

datatype fp_error = NoSCTP | NoDTLS | NoRemoteCert | NoLocalParams | BadHex | BadLength | NoSHA256

fun local_fingerprint :: "(string \<times> string) list \<Rightarrow> fp_error + bytes" where
  "local_fingerprint [] = Inl NoSHA256"
| "local_fingerprint ((alg, val) # fps) =
     (if \<not> equal_fold alg ''sha-256'' then local_fingerprint fps
      else case hex_decode (replace_all (CHR '':'') [] val) of
        None \<Rightarrow> Inl BadHex
      | Some s \<Rightarrow> if length s \<noteq> 32 then Inl BadLength else Inr s)"

definition pcDTLSFingerprints :: "transport \<Rightarrow> fp_error + bytes \<times> bytes" where
  "pcDTLSFingerprints pc =
     (if \<not> tr_sctp pc then Inl NoSCTP
      else if \<not> tr_dtls pc then Inl NoDTLS
      else if length (tr_remoteCert pc) = 0 then Inl NoRemoteCert
      else case tr_local pc of
        None \<Rightarrow> Inl NoLocalParams
      | Some fps \<Rightarrow> (case local_fingerprint fps of
          Inl e \<Rightarrow> Inl e
        | Inr l \<Rightarrow> Inr (l, sha256 (tr_remoteCert pc))))"

section \<open>The peer\<close>

record candidate_init =
  Candidate :: string
  SDPMid :: string
  SDPMLineIndex :: "16 word option"

datatype event =
    Challenged bytes
  | Received bytes
  | TransportRead transport
  | AuthFailed string
  | AuthOK
  | Sent message
  | SentRaw bytes
  | Dispatched message
  | DispatchStopped
  | TearDown

record peer =
  DeviceID :: peer_id
  attemptID :: string
  sharedSecret :: bytes
  dc :: bool
  pclosed :: bool
  remoteDescSet :: bool
  iceCandidates :: "candidate_init list"
  silenced :: bool
  dispatchStopped :: bool
  sendStop :: bool
  authenticated :: bool
  authConfirmed :: bool
  authResolved :: bool
  authNonce :: bytes
  authTimer :: bool
  trace :: "event list"

definition new_peer :: "peer_id \<Rightarrow> string \<Rightarrow> bytes \<Rightarrow> peer" where
  "new_peer d a s = \<lparr>DeviceID = d, attemptID = a, sharedSecret = s, dc = False, pclosed = False,
     remoteDescSet = False, iceCandidates = [], silenced = False, dispatchStopped = False,
     sendStop = False, authenticated = False, authConfirmed = False, authResolved = False,
     authNonce = [], authTimer = False, trace = []\<rparr>"

abbreviation log :: "event \<Rightarrow> peer \<Rightarrow> peer" where
  "log e p \<equiv> p\<lparr>trace := trace p @ [e]\<rparr>"

text \<open>\<open>closeViaManager\<close> hands the peer to the manager; here it leaves a mark, the manager's part
  is in \<open>Peer_Manager\<close>.\<close>

definition closeViaManager_mark :: "peer \<Rightarrow> peer" where
  "closeViaManager_mark p = log TearDown p"

definition failAuth :: "string \<Rightarrow> peer \<Rightarrow> peer" where
  "failAuth reason p =
     (if authResolved p then p
      else closeViaManager_mark (log (AuthFailed reason)
             (p\<lparr>authResolved := True, authNonce := [], authTimer := False\<rparr>)))"

section \<open>Sending\<close>

datatype send_error =
    PeerClosed
  | NoDataChannel
  | NotAuthenticated string
  | EncodeError codec_error
  | Backpressure
  | SendFailed

text \<open>What a send meets: the bytes queued on the channel, how a wait for the queue to drain
  ends, and whether Pion takes the data.\<close>

record send_env =
  buffered :: nat
  drains :: bool
  accepts :: bool

definition isAuthHandshakeMessage :: "message \<Rightarrow> bool" where
  "isAuthHandshakeMessage m \<longleftrightarrow> MessageType m = ''auth_challenge'' \<or> MessageType m = ''auth_confirm''"

text \<open>The wait ends at once below the threshold; otherwise only with a drain signal, and with
  an error when the peer is closed, dispatch is being stopped, the context is cancelled or
  the time is up.\<close>

definition waitForSendReady :: "send_env \<Rightarrow> send_error option" where
  "waitForSendReady e =
     (if buffered e \<le> maxBufferedAmount then None else if drains e then None else Some Backpressure)"

definition send_gate :: "message \<Rightarrow> peer \<Rightarrow> send_error option" where
  "send_gate m p =
     (if pclosed p then Some PeerClosed
      else if \<not> dc p then Some NoDataChannel
      else if \<not> authConfirmed p \<and> \<not> isAuthHandshakeMessage m then Some (NotAuthenticated (MessageType m))
      else None)"

definition send_finish :: "msgpack \<Rightarrow> send_env \<Rightarrow> message \<Rightarrow> peer \<Rightarrow> send_error option \<times> peer" where
  "send_finish mp e m p =
     (case Encode mp m of
        Inl err \<Rightarrow> (Some (EncodeError err), p)
      | Inr data \<Rightarrow>
         (case (if is_OutputEvent m then waitForSendReady e
                else if buffered e > maxControlBufferedAmount then Some Backpressure else None) of
            Some err \<Rightarrow> (Some err, p)
          | None \<Rightarrow> if accepts e then (None, log (Sent m) p) else (Some SendFailed, p)))"

definition SendMessageContext ::
  "msgpack \<Rightarrow> send_env \<Rightarrow> message \<Rightarrow> peer \<Rightarrow> send_error option \<times> peer" where
  "SendMessageContext mp e m p =
     (case send_gate m p of Some err \<Rightarrow> (Some err, p) | None \<Rightarrow> send_finish mp e m p)"

definition raw_gate :: "peer \<Rightarrow> send_error option" where
  "raw_gate p =
     (if pclosed p then Some PeerClosed
      else if \<not> dc p then Some NoDataChannel
      else if \<not> authConfirmed p then Some (NotAuthenticated ''raw'')
      else None)"

definition raw_finish :: "send_env \<Rightarrow> bytes \<Rightarrow> peer \<Rightarrow> send_error option \<times> peer" where
  "raw_finish e data p =
     (case waitForSendReady e of
        Some err \<Rightarrow> (Some err, p)
      | None \<Rightarrow> if accepts e then (None, log (SentRaw data) p) else (Some SendFailed, p))"

definition SendRaw :: "send_env \<Rightarrow> bytes \<Rightarrow> peer \<Rightarrow> send_error option \<times> peer" where
  "SendRaw e data p = (case raw_gate p of Some err \<Rightarrow> (Some err, p) | None \<Rightarrow> raw_finish e data p)"

section \<open>The handshake\<close>

text \<open>\<open>sendAuthChallenge\<close>: arm (nonce and timer), then send. \<open>rnd\<close> is what the random source
  returned, \<open>None\<close> if it failed.\<close>

definition arm_challenge :: "bytes \<Rightarrow> peer \<Rightarrow> peer" where
  "arm_challenge nonce p = log (Challenged nonce) (p\<lparr>authNonce := nonce, authTimer := True\<rparr>)"

definition challenge_msg :: "bytes \<Rightarrow> message" where
  "challenge_msg nonce = AuthChallengeEvent ''auth_challenge'' (b64_encode nonce) authProtocolVersion"

definition sendAuthChallenge :: "msgpack \<Rightarrow> send_env \<Rightarrow> bytes option \<Rightarrow> peer \<Rightarrow> peer" where
  "sendAuthChallenge mp e rnd p =
     (case rnd of
        None \<Rightarrow> failAuth ''nonce generation failed'' p
      | Some nonce \<Rightarrow>
         (case SendMessageContext mp e (challenge_msg nonce) (arm_challenge nonce p) of
            (None, p1) \<Rightarrow> p1
          | (Some _, p1) \<Rightarrow> failAuth ''challenge send failed'' p1))"

text \<open>The checks of \<open>verifyAuthResponse\<close> on the captured nonce and secret: the reason for
  failure, or the mobile's nonce and the two fingerprints.\<close>

definition verify_checks ::
  "transport \<Rightarrow> bytes \<Rightarrow> bytes \<Rightarrow> message \<Rightarrow> string + bytes \<times> bytes \<times> bytes" where
  "verify_checks pc hostNonce secret decoded =
     (case decoded of
        AuthResponseRequest _ mac nonce \<Rightarrow>
          (case b64_decode nonce of
             None \<Rightarrow> Inl ''auth response nonce not valid base64''
           | Some mobileNonce \<Rightarrow>
              if length mobileNonce \<noteq> authNonceSize then Inl ''auth response nonce length''
              else case b64_decode mac of
                None \<Rightarrow> Inl ''auth response MAC not valid base64''
              | Some gotMAC \<Rightarrow>
                 if length hostNonce = 0
                 then Inl ''auth response received before challenge nonce was set''
                 else case pcDTLSFingerprints pc of
                   Inl _ \<Rightarrow> Inl ''DTLS fingerprints unavailable''
                 | Inr (hostFp, mobileFp) \<Rightarrow>
                    if authMAC secret authLabelMobileToHost hostNonce mobileNonce hostFp mobileFp \<noteq> gotMAC
                    then Inl ''auth response MAC mismatch''
                    else Inr (mobileNonce, hostFp, mobileFp))
      | _ \<Rightarrow> Inl ''expected auth_response'')"

text \<open>The commit under the lock; \<open>False\<close> when the timeout was faster.\<close>

definition commit_auth :: "peer \<Rightarrow> bool \<times> peer" where
  "commit_auth p =
     (if authResolved p then (False, p)
      else (True, log AuthOK (p\<lparr>authResolved := True, authenticated := True, authNonce := [],
                                authTimer := False\<rparr>)))"

definition confirm_msg :: "bytes \<Rightarrow> bytes \<Rightarrow> bytes \<Rightarrow> bytes \<Rightarrow> bytes \<Rightarrow> message" where
  "confirm_msg secret hn mn hfp mfp =
     AuthConfirmEvent ''auth_confirm'' (b64_encode (authMAC secret authLabelHostToMobile hn mn hfp mfp))"

definition revoke_auth :: "peer \<Rightarrow> peer" where
  "revoke_auth p = closeViaManager_mark (p\<lparr>authenticated := False\<rparr>)"

definition verifyAuthResponse ::
  "msgpack \<Rightarrow> send_env \<Rightarrow> transport \<Rightarrow> message \<Rightarrow> peer \<Rightarrow> peer" where
  "verifyAuthResponse mp e pc decoded p =
     (if authResolved p then p
      else let hostNonce = authNonce p; secret = sharedSecret p; p0 = log (TransportRead pc) p in
        case verify_checks pc hostNonce secret decoded of
          Inl reason \<Rightarrow> failAuth reason p0
        | Inr (mn, hfp, mfp) \<Rightarrow>
           (case commit_auth p0 of
              (False, p1) \<Rightarrow> p1
            | (True, p1) \<Rightarrow>
               (case SendMessageContext mp e (confirm_msg secret hostNonce mn hfp mfp) p1 of
                  (Some _, p2) \<Rightarrow> revoke_auth p2
                | (None, p2) \<Rightarrow> p2\<lparr>authConfirmed := True\<rparr>)))"

section \<open>Dispatch\<close>

text \<open>What \<open>handleDataChannelMessage\<close> does with a message, decided by the flags it reads and the
  decoder.\<close>

datatype route =
    Drop
  | Reject string
  | Verify message
  | ToHandler message

definition route_message :: "msgpack \<Rightarrow> bytes \<Rightarrow> peer \<Rightarrow> route" where
  "route_message mp data p =
     (if dispatchStopped p then Drop
      else let authed = authenticated p in
        case DecodeRequest mp data of
          Inl _ \<Rightarrow> if authed then Drop else Reject ''undecodable message before authentication''
        | Inr decoded \<Rightarrow>
           if \<not> authed then Verify decoded
           else if \<not> IsRequest decoded then Drop
           else ToHandler decoded)"

definition handleDataChannelMessage ::
  "msgpack \<Rightarrow> send_env \<Rightarrow> transport \<Rightarrow> bytes \<Rightarrow> peer \<Rightarrow> peer" where
  "handleDataChannelMessage mp e pc data p =
     (let p0 = log (Received data) p in
      case route_message mp data p of
        Drop \<Rightarrow> p0
      | Reject r \<Rightarrow> failAuth r p0
      | Verify m \<Rightarrow> verifyAuthResponse mp e pc m p0
      | ToHandler m \<Rightarrow> log (Dispatched m) p0)"

text \<open>\<open>stopDispatch\<close> first releases waiting senders, then takes the dispatch lock.\<close>

definition stop_senders :: "peer \<Rightarrow> peer" where "stop_senders p = p\<lparr>sendStop := True\<rparr>"
definition mark_stopped :: "peer \<Rightarrow> peer" where
  "mark_stopped p = log DispatchStopped (p\<lparr>dispatchStopped := True\<rparr>)"
definition stopDispatch :: "peer \<Rightarrow> peer" where "stopDispatch p = mark_stopped (stop_senders p)"

definition silence :: "peer \<Rightarrow> peer" where "silence p = p\<lparr>silenced := True\<rparr>"

definition ClosePeerConn :: "peer \<Rightarrow> peer" where
  "ClosePeerConn p = (if pclosed p then p else p\<lparr>pclosed := True, authTimer := False\<rparr>)"

section \<open>Interleavings\<close>

text \<open>Where the two callback goroutines stand. The message callback holds the dispatch lock in
  every state but \<open>DIdle\<close>. \<open>outbox\<close> holds messages of other goroutines that passed the gate
  and are not on the channel yet; those goroutines never send handshake messages, which only
  the two callbacks construct.\<close>

datatype opc = ONew | OArmed bytes | OSend bytes | OFail string | ODone

datatype dpc =
    DIdle
  | DFail string
  | DVerify message
  | DCommit bytes bytes bytes bytes
  | DConfirm message
  | DConfirmSend message
  | DRevoke
  | DMark
  | DHandling message

record world =
  pr :: peer
  opener :: opc
  disp :: dpc
  outbox :: "message list"
  rawbox :: "bytes list"

inductive pstep :: "msgpack \<Rightarrow> world \<Rightarrow> world \<Rightarrow> bool" for mp :: msgpack where
  channel_created: "pstep mp w (w\<lparr>pr := (pr w)\<lparr>dc := True\<rparr>\<rparr>)"
| open_rand_fails: "opener w = ONew \<Longrightarrow> pstep mp w (w\<lparr>opener := OFail ''nonce generation failed''\<rparr>)"
| open_arm: "opener w = ONew \<Longrightarrow> length nonce = authNonceSize \<Longrightarrow>
    pstep mp w (w\<lparr>pr := arm_challenge nonce (pr w), opener := OArmed nonce\<rparr>)"
| open_gate: "opener w = OArmed nonce \<Longrightarrow>
    pstep mp w (w\<lparr>opener := (case send_gate (challenge_msg nonce) (pr w) of
                     None \<Rightarrow> OSend nonce | Some _ \<Rightarrow> OFail ''challenge send failed'')\<rparr>)"
| open_send: "opener w = OSend nonce \<Longrightarrow>
    send_finish mp e (challenge_msg nonce) (pr w) = (r, p1) \<Longrightarrow>
    pstep mp w (w\<lparr>pr := p1, opener := (case r of
                     None \<Rightarrow> ODone | Some _ \<Rightarrow> OFail ''challenge send failed'')\<rparr>)"
| open_fail: "opener w = OFail r \<Longrightarrow> pstep mp w (w\<lparr>pr := failAuth r (pr w), opener := ODone\<rparr>)"
| timeout: "pstep mp w (w\<lparr>pr := failAuth ''authentication timeout'' (pr w)\<rparr>)"
| receive: "disp w = DIdle \<Longrightarrow>
    pstep mp w (case route_message mp data (pr w) of
        Drop \<Rightarrow> w\<lparr>pr := log (Received data) (pr w)\<rparr>
      | Reject r \<Rightarrow> w\<lparr>pr := log (Received data) (pr w), disp := DFail r\<rparr>
      | Verify m \<Rightarrow> w\<lparr>pr := log (Received data) (pr w), disp := DVerify m\<rparr>
      | ToHandler m \<Rightarrow> w\<lparr>pr := log (Dispatched m) (log (Received data) (pr w)),
                         disp := DHandling m\<rparr>)"
| handled: "disp w = DHandling m \<Longrightarrow> pstep mp w (w\<lparr>disp := DIdle\<rparr>)"
| reject: "disp w = DFail r \<Longrightarrow> pstep mp w (w\<lparr>pr := failAuth r (pr w), disp := DIdle\<rparr>)"
| verify: "disp w = DVerify m \<Longrightarrow>
    pstep mp w (if authResolved (pr w) then w\<lparr>disp := DIdle\<rparr>
      else w\<lparr>pr := log (TransportRead pc) (pr w),
             disp := (case verify_checks pc (authNonce (pr w)) (sharedSecret (pr w)) m of
                        Inl r \<Rightarrow> DFail r
                      | Inr (mn, hfp, mfp) \<Rightarrow> DCommit (authNonce (pr w)) mn hfp mfp)\<rparr>)"
| commit: "disp w = DCommit hn mn hfp mfp \<Longrightarrow> commit_auth (pr w) = (ok, p1) \<Longrightarrow>
    pstep mp w (w\<lparr>pr := p1, disp := (if ok then DConfirm (confirm_msg (sharedSecret p1) hn mn hfp mfp)
                                     else DIdle)\<rparr>)"
| confirm_gate: "disp w = DConfirm m \<Longrightarrow>
    pstep mp w (w\<lparr>disp := (case send_gate m (pr w) of None \<Rightarrow> DConfirmSend m | Some _ \<Rightarrow> DRevoke)\<rparr>)"
| confirm_send: "disp w = DConfirmSend m \<Longrightarrow> send_finish mp e m (pr w) = (r, p1) \<Longrightarrow>
    pstep mp w (w\<lparr>pr := p1, disp := (case r of None \<Rightarrow> DMark | Some _ \<Rightarrow> DRevoke)\<rparr>)"
| revoke: "disp w = DRevoke \<Longrightarrow> pstep mp w (w\<lparr>pr := revoke_auth (pr w), disp := DIdle\<rparr>)"
| mark: "disp w = DMark \<Longrightarrow> pstep mp w (w\<lparr>pr := (pr w)\<lparr>authConfirmed := True\<rparr>, disp := DIdle\<rparr>)"
| send_begin: "\<not> isAuthHandshakeMessage m \<Longrightarrow> send_gate m (pr w) = None \<Longrightarrow>
    pstep mp w (w\<lparr>outbox := m # outbox w\<rparr>)"
| send_end: "m \<in> set (outbox w) \<Longrightarrow> send_finish mp e m (pr w) = (r, p1) \<Longrightarrow>
    pstep mp w (w\<lparr>pr := p1, outbox := remove1 m (outbox w)\<rparr>)"
| raw_begin: "raw_gate (pr w) = None \<Longrightarrow> pstep mp w (w\<lparr>rawbox := d # rawbox w\<rparr>)"
| raw_end: "d \<in> set (rawbox w) \<Longrightarrow> raw_finish e d (pr w) = (r, p1) \<Longrightarrow>
    pstep mp w (w\<lparr>pr := p1, rawbox := remove1 d (rawbox w)\<rparr>)"
| release_senders: "pstep mp w (w\<lparr>pr := stop_senders (pr w)\<rparr>)"
| stop_dispatch: "disp w = DIdle \<Longrightarrow> pstep mp w (w\<lparr>pr := mark_stopped (pr w)\<rparr>)"
| silenced: "pstep mp w (w\<lparr>pr := silence (pr w)\<rparr>)"
| closes: "pstep mp w (w\<lparr>pr := ClosePeerConn (pr w)\<rparr>)"

definition pinit :: "peer_id \<Rightarrow> string \<Rightarrow> bytes \<Rightarrow> world \<Rightarrow> bool" where
  "pinit d a s w \<longleftrightarrow> w = \<lparr>pr = new_peer d a s, opener = ONew, disp = DIdle, outbox = [], rawbox = []\<rparr>"

section \<open>Facts about traces\<close>

text \<open>The peer proved key possession: some received message decodes to an authentication
  response whose MAC is the one over the nonce of a challenge of this connection, the
  response's own nonce and the certificates in use.\<close>

definition proof_of :: "msgpack \<Rightarrow> bytes \<Rightarrow> event list \<Rightarrow> bytes \<Rightarrow> bytes \<Rightarrow> transport \<Rightarrow> bool" where
  "proof_of mp s tr d n pc \<longleftrightarrow>
     Received d \<in> set tr \<and> Challenged n \<in> set tr \<and> TransportRead pc \<in> set tr \<and> length n = 32 \<and>
     (\<exists>t mac nonce mn hfp mfp.
        DecodeRequest mp d = Inr (AuthResponseRequest t mac nonce) \<and>
        b64_decode nonce = Some mn \<and> length mn = 32 \<and>
        pcDTLSFingerprints pc = Inr (hfp, mfp) \<and>
        b64_decode mac = Some (authMAC s authLabelMobileToHost n mn hfp mfp))"

definition proven :: "msgpack \<Rightarrow> bytes \<Rightarrow> event list \<Rightarrow> bool" where
  "proven mp s tr \<longleftrightarrow> (\<exists>d n pc. proof_of mp s tr d n pc)"

lemma proven_mono [simp]: "proven mp s tr \<Longrightarrow> proven mp s (tr @ es)"
  unfolding proven_def proof_of_def set_append by blast

section \<open>Invariants\<close>

definition confirm_sent :: "event list \<Rightarrow> bool" where
  "confirm_sent tr \<longleftrightarrow> (\<exists>m. Sent m \<in> set tr \<and> is_AuthConfirmEvent m)"

fun is_Dispatched :: "event \<Rightarrow> bool" where
  "is_Dispatched (Dispatched _) = True"
| "is_Dispatched _ = False"

fun is_payload :: "event \<Rightarrow> bool" where
  "is_payload (Sent m) = (\<not> isAuthHandshakeMessage m)"
| "is_payload (SentRaw _) = True"
| "is_payload _ = False"

fun is_verdict :: "event \<Rightarrow> bool" where
  "is_verdict AuthOK = True"
| "is_verdict (AuthFailed _) = True"
| "is_verdict _ = False"

definition inv_proof :: "msgpack \<Rightarrow> bytes \<Rightarrow> world \<Rightarrow> bool" where
  "inv_proof mp s w \<longleftrightarrow> (let p = pr w in
     sharedSecret p = s \<and>
     (authNonce p \<noteq> [] \<longrightarrow> Challenged (authNonce p) \<in> set (trace p) \<and> length (authNonce p) = 32) \<and>
     (\<forall>m. disp w = DVerify m \<longrightarrow> (\<exists>d. Received d \<in> set (trace p) \<and> DecodeRequest mp d = Inr m)) \<and>
     (authenticated p \<or> (\<exists>a b c d. disp w = DCommit a b c d) \<longrightarrow> proven mp s (trace p)) \<and>
     preceded (proven mp s) is_Dispatched (trace p))"

definition inv_out :: "world \<Rightarrow> bool" where
  "inv_out w \<longleftrightarrow> (let p = pr w in
     (authConfirmed p \<or> disp w = DMark \<longrightarrow> confirm_sent (trace p)) \<and>
     (outbox w \<noteq> [] \<or> rawbox w \<noteq> [] \<longrightarrow> authConfirmed p) \<and>
     (\<forall>m. disp w = DConfirm m \<or> disp w = DConfirmSend m \<longrightarrow> is_AuthConfirmEvent m) \<and>
     preceded confirm_sent is_payload (trace p))"

definition inv_verdict :: "world \<Rightarrow> bool" where
  "inv_verdict w \<longleftrightarrow> (let p = pr w in
     length (filter is_verdict (trace p)) = (if authResolved p then 1 else 0) \<and>
     (authenticated p \<longrightarrow> authResolved p \<and> AuthOK \<in> set (trace p)) \<and>
     preceded (\<lambda>xs. AuthOK \<in> set xs) is_Dispatched (trace p))"

definition inv_stop :: "world \<Rightarrow> bool" where
  "inv_stop w \<longleftrightarrow> (let p = pr w in
     (DispatchStopped \<in> set (trace p) \<longleftrightarrow> dispatchStopped p) \<and>
     preceded (\<lambda>xs. DispatchStopped \<notin> set xs) is_Dispatched (trace p))"

lemmas peer_op_defs [op_defs] = arm_challenge_def failAuth_def closeViaManager_mark_def
  commit_auth_def revoke_auth_def stop_senders_def mark_stopped_def silence_def ClosePeerConn_def

lemma send_finish_snd:
  "snd (send_finish mp e m p) = (if fst (send_finish mp e m p) = None then log (Sent m) p else p)"
  by (simp add: send_finish_def split: sum.split option.split)

lemma raw_finish_snd:
  "snd (raw_finish e d p) = (if fst (raw_finish e d p) = None then log (SentRaw d) p else p)"
  by (simp add: raw_finish_def split: option.split)

lemma send_finish_state:
  "send_finish mp e m p = (r, p1) \<Longrightarrow> p1 = (if r = None then log (Sent m) p else p)"
  using send_finish_snd [of mp e m p] by simp

lemma raw_finish_state:
  "raw_finish e d p = (r, p1) \<Longrightarrow> p1 = (if r = None then log (SentRaw d) p else p)"
  using raw_finish_snd [of e d p] by simp

lemma gate_open:
  "send_gate m p = None \<Longrightarrow> authConfirmed p \<or> isAuthHandshakeMessage m"
  "raw_gate p = None \<Longrightarrow> authConfirmed p"
  by (auto simp: send_gate_def raw_gate_def split: if_splits)

lemma route_cases:
  "route_message mp d p = Verify m \<Longrightarrow> DecodeRequest mp d = Inr m"
  "route_message mp d p = ToHandler m \<Longrightarrow> authenticated p \<and> \<not> dispatchStopped p"
  by (auto simp: route_message_def Let_def split: if_splits sum.splits)

text \<open>Passing the checks is a proof.\<close>

lemma verify_checks_proven:
  assumes "verify_checks pc n s m = Inr (mn, hfp, mfp)"
    and "Received d \<in> set tr" and "DecodeRequest mp d = Inr m"
    and "n \<noteq> [] \<longrightarrow> Challenged n \<in> set tr \<and> length n = 32"
  shows "proven mp s (tr @ [TransportRead pc])"
proof -
  from assms(1) obtain t mac nonce where m: "m = AuthResponseRequest t mac nonce"
    and c: "b64_decode nonce = Some mn" "length mn = 32" "n \<noteq> []"
      "pcDTLSFingerprints pc = Inr (hfp, mfp)"
      "b64_decode mac = Some (authMAC s authLabelMobileToHost n mn hfp mfp)"
    by (auto simp: verify_checks_def authNonceSize_def
        split: message.splits option.splits if_splits sum.splits prod.splits)
  have "proof_of mp s (tr @ [TransportRead pc]) d n pc"
    unfolding proof_of_def using assms(2-4) m c by auto
  then show ?thesis by (auto simp: proven_def)
qed

lemma inv_proof_init: "pinit d a s w \<Longrightarrow> inv_proof mp s w"
  by (simp add: pinit_def inv_proof_def new_peer_def)

lemma inv_proof_step: "inv_proof mp s w \<Longrightarrow> pstep mp w w' \<Longrightarrow> inv_proof mp s w'"
proof (erule pstep.cases, goal_cases)
  case (8 w data)
  then show ?case using route_cases [of mp data "pr w"]
    by (auto simp: inv_proof_def Let_def split: route.split)
next
  case (11 w m pc)
  show ?case
  proof (cases "authResolved (pr w)")
    case True
    with 11 show ?thesis by (auto simp: inv_proof_def Let_def)
  next
    case False
    let ?n = "authNonce (pr w)" and ?tr = "trace (pr w)"
    from 11 obtain d where d: "Received d \<in> set ?tr" "DecodeRequest mp d = Inr m"
      and n: "?n \<noteq> [] \<longrightarrow> Challenged ?n \<in> set ?tr \<and> length ?n = 32" and s: "sharedSecret (pr w) = s"
      by (auto simp: inv_proof_def Let_def)
    have "proven mp s (?tr @ [TransportRead pc])" if "verify_checks pc ?n s m = Inr (a, b, c)" for a b c
      using verify_checks_proven [OF that d n] .
    with 11 False s show ?thesis
      by (auto simp: inv_proof_def Let_def split: sum.split prod.split)
  qed
qed (auto simp: inv_proof_def Let_def op_defs authNonceSize_def dest!: send_finish_state raw_finish_state
    split: option.split if_splits)

lemma inv_out_init: "pinit d a s w \<Longrightarrow> inv_out w"
  by (simp add: pinit_def inv_out_def new_peer_def)

lemma confirm_sent_append [simp]: "confirm_sent (tr @ es) \<longleftrightarrow> confirm_sent tr \<or> confirm_sent es"
  by (auto simp: confirm_sent_def)

lemma confirm_sent_Cons [simp]:
  "confirm_sent (e # es) \<longleftrightarrow> (\<exists>m. e = Sent m \<and> is_AuthConfirmEvent m) \<or> confirm_sent es"
  "\<not> confirm_sent []"
  by (auto simp: confirm_sent_def)

lemma handshake_iff:
  "isAuthHandshakeMessage m \<longleftrightarrow> is_AuthChallengeEvent m \<or> is_AuthConfirmEvent m"
  by (cases m) (simp_all add: isAuthHandshakeMessage_def)

lemma is_challenge_msg [simp]: "is_AuthChallengeEvent (challenge_msg n)"
  by (simp add: challenge_msg_def)

lemma is_confirm_msg [simp]: "is_AuthConfirmEvent (confirm_msg s a b c d)"
  by (simp add: confirm_msg_def)

text \<open>A step that appends no payload and leaves the dispatcher alone.\<close>

lemma inv_out_frame:
  assumes inv: "inv_out w" and tr: "trace p1 = trace (pr w) @ es" and es: "\<not> (\<exists>e \<in> set es. is_payload e)"
    and ac: "authConfirmed p1 = authConfirmed (pr w)"
  shows "inv_out (w\<lparr>pr := p1, opener := x\<rparr>)"
proof -
  have "preceded confirm_sent is_payload (trace (pr w) @ es)"
    using es inv
    by (induction es rule: rev_induct)
      (simp_all add: inv_out_def Let_def del: append_assoc add: append_assoc [symmetric])
  moreover have "confirm_sent (trace p1)" if "confirm_sent (trace (pr w))"
    using that tr by simp
  ultimately show ?thesis using inv tr ac unfolding inv_out_def Let_def by simp
qed

lemma inv_out_step: "pstep mp w w' \<Longrightarrow> inv_out w \<Longrightarrow> inv_out w'"
proof (induction rule: pstep.induct)
  case (open_send w nonce e r p1)
  have "isAuthHandshakeMessage (challenge_msg nonce)" by (simp add: handshake_iff)
  with open_send show ?case
    by (intro inv_out_frame [where es = "if r = None then [Sent (challenge_msg nonce)] else []"])
      (simp_all add: send_finish_state [OF open_send(2)])
next
  case (receive w data)
  then show ?case by (simp add: inv_out_def Let_def split: route.split)
next
  case (verify w m pc)
  then show ?case by (simp add: inv_out_def Let_def split: sum.split prod.split)
next
  case (confirm_send w m e r p1)
  then show ?case
    by (cases r) (simp_all add: send_finish_state [OF confirm_send(2)] inv_out_def Let_def handshake_iff)
next
  case (send_begin m w)
  then show ?case by (auto simp: inv_out_def Let_def dest: gate_open)
next
  case (send_end m w e r p1)
  then have "outbox w \<noteq> []" by auto
  with send_end show ?case
    by (cases r) (simp_all add: send_finish_state [OF send_end(2)] inv_out_def Let_def)
next
  case (raw_begin w d)
  then show ?case by (auto simp: inv_out_def Let_def dest: gate_open)
next
  case (raw_end d w e r p1)
  then have "rawbox w \<noteq> []" by auto
  with raw_end show ?case
    by (cases r) (simp_all add: raw_finish_state [OF raw_end(2)] inv_out_def Let_def)
qed (auto simp: inv_out_def Let_def op_defs split: option.splits if_splits)

lemma inv_verdict_init: "pinit d a s w \<Longrightarrow> inv_verdict w"
  by (simp add: pinit_def inv_verdict_def new_peer_def)

lemma inv_verdict_step: "inv_verdict w \<Longrightarrow> pstep mp w w' \<Longrightarrow> inv_verdict w'"
  by (erule pstep.cases)
    (auto simp: inv_verdict_def Let_def op_defs dest!: send_finish_state raw_finish_state
      dest: route_cases split: option.splits if_splits route.splits sum.splits prod.splits)

lemma inv_stop_init: "pinit d a s w \<Longrightarrow> inv_stop w"
  by (simp add: pinit_def inv_stop_def new_peer_def)

lemma inv_stop_step: "inv_stop w \<Longrightarrow> pstep mp w w' \<Longrightarrow> inv_stop w'"
  by (erule pstep.cases)
    (auto simp: inv_stop_def Let_def op_defs dest!: send_finish_state raw_finish_state
      dest: route_cases split: option.splits if_splits route.splits sum.splits prod.splits)

definition pinv :: "msgpack \<Rightarrow> bytes \<Rightarrow> world \<Rightarrow> bool" where
  "pinv mp s w \<longleftrightarrow> inv_proof mp s w \<and> inv_out w \<and> inv_verdict w \<and> inv_stop w"

interpretation peer_machine: machine "pinit d a s" "pstep mp" "pinv mp s" for d a s mp
  by unfold_locales
    (auto simp: pinv_def intro: inv_proof_init inv_out_init inv_verdict_init inv_stop_init
      inv_proof_step inv_out_step inv_verdict_step inv_stop_step)

section \<open>The methods are runs of the interleaved model\<close>

abbreviation psteps :: "msgpack \<Rightarrow> world \<Rightarrow> world \<Rightarrow> bool" where
  "psteps mp \<equiv> (pstep mp)\<^sup>*\<^sup>*"

lemma step_then: "pstep mp w w1 \<Longrightarrow> psteps mp w1 w2 \<Longrightarrow> psteps mp w w2"
  by (rule converse_rtranclp_into_rtranclp)

lemma pstep_to: "pstep mp w w1 \<Longrightarrow> w1 = w2 \<Longrightarrow> pstep mp w w2"
  by simp

lemma fail_run:
  "disp w = DFail r \<Longrightarrow> psteps mp w (w\<lparr>pr := failAuth r (pr w), disp := DIdle\<rparr>)"
  by (rule r_into_rtranclp, rule pstep.reject)

lemma confirm_run:
  assumes "disp w = DConfirm m"
  shows "psteps mp w (w\<lparr>pr := (case SendMessageContext mp e m (pr w) of
           (Some _, p2) \<Rightarrow> revoke_auth p2 | (None, p2) \<Rightarrow> p2\<lparr>authConfirmed := True\<rparr>), disp := DIdle\<rparr>)"
proof (cases "send_gate m (pr w)")
  case (Some err)
  let ?w1 = "w\<lparr>disp := DRevoke\<rparr>"
  have "pstep mp w ?w1"
    using pstep.confirm_gate [of w m mp] assms Some by simp
  moreover have "pstep mp ?w1 (w\<lparr>pr := revoke_auth (pr w), disp := DIdle\<rparr>)"
    using pstep.revoke [of ?w1 mp] by simp
  ultimately show ?thesis using Some by (auto simp: SendMessageContext_def)
next
  case None
  obtain r p1 where f: "send_finish mp e m (pr w) = (r, p1)" by fastforce
  let ?w1 = "w\<lparr>disp := DConfirmSend m\<rparr>"
  let ?w2 = "w\<lparr>pr := p1, disp := (case r of None \<Rightarrow> DMark | Some _ \<Rightarrow> DRevoke)\<rparr>"
  have "pstep mp w ?w1"
    using pstep.confirm_gate [of w m mp] assms None by simp
  moreover have "pstep mp ?w1 ?w2"
    using pstep.confirm_send [of ?w1 m mp e r p1] f by (simp cong: option.case_cong)
  moreover have "pstep mp ?w2 (w\<lparr>pr := (case r of Some _ \<Rightarrow> revoke_auth p1
      | None \<Rightarrow> p1\<lparr>authConfirmed := True\<rparr>), disp := DIdle\<rparr>)"
    using pstep.revoke [of ?w2 mp] pstep.mark [of ?w2 mp] by (cases r) simp_all
  ultimately show ?thesis
    using None f by (cases r) (auto simp: SendMessageContext_def intro: step_then)
qed

lemma verify_run:
  assumes "disp w = DVerify m"
  shows "psteps mp w (w\<lparr>pr := verifyAuthResponse mp e pc m (pr w), disp := DIdle\<rparr>)"
proof (cases "authResolved (pr w)")
  case True
  then show ?thesis
    using pstep.verify [OF assms, of mp pc]
    by (cases w) (auto simp: verifyAuthResponse_def intro: r_into_rtranclp)
next
  case False
  let ?n = "authNonce (pr w)" and ?s = "sharedSecret (pr w)" and ?p0 = "log (TransportRead pc) (pr w)"
  show ?thesis
  proof (cases "verify_checks pc ?n ?s m")
    case (Inl r)
    let ?w1 = "w\<lparr>pr := ?p0, disp := DFail r\<rparr>"
    have "pstep mp w ?w1" using pstep.verify [OF assms, of mp pc] False Inl by simp
    moreover have "psteps mp ?w1 (w\<lparr>pr := failAuth r ?p0, disp := DIdle\<rparr>)"
      using fail_run [of ?w1 r mp] by simp
    ultimately show ?thesis
      using False Inl by (auto simp: verifyAuthResponse_def Let_def intro: step_then)
  next
    case (Inr t)
    obtain mn hfp mfp where t: "t = (mn, hfp, mfp)" by (cases t) auto
    let ?w1 = "w\<lparr>pr := ?p0, disp := DCommit ?n mn hfp mfp\<rparr>"
    obtain p1 where c: "commit_auth ?p0 = (True, p1)" "sharedSecret p1 = ?s"
      using False by (simp add: commit_auth_def)
    let ?w2 = "w\<lparr>pr := p1, disp := DConfirm (confirm_msg ?s ?n mn hfp mfp)\<rparr>"
    have "pstep mp w ?w1" using pstep.verify [OF assms, of mp pc] False Inr t by simp
    moreover have "pstep mp ?w1 ?w2" using pstep.commit [of ?w1 ?n mn hfp mfp True p1 mp] c by simp
    moreover note confirm_run [of ?w2 "confirm_msg ?s ?n mn hfp mfp" mp e]
    ultimately show ?thesis
      using False Inr t c by (auto simp: verifyAuthResponse_def Let_def intro: step_then)
  qed
qed

lemma handle_run:
  assumes "disp w = DIdle"
  shows "psteps mp w (w\<lparr>pr := handleDataChannelMessage mp e pc d (pr w)\<rparr>)"
proof -
  note r = pstep.receive [OF assms, of mp d]
  have bk: "w\<lparr>pr := p, disp := DIdle\<rparr> = w\<lparr>pr := p\<rparr>" for p using assms by (cases w) simp
  show ?thesis
  proof (cases "route_message mp d (pr w)")
    case Drop
    with r show ?thesis by (auto simp: handleDataChannelMessage_def Let_def)
  next
    case (Reject x)
    let ?w1 = "w\<lparr>pr := log (Received d) (pr w), disp := DFail x\<rparr>"
    have "psteps mp ?w1 (w\<lparr>pr := failAuth x (log (Received d) (pr w)), disp := DIdle\<rparr>)"
      using fail_run [of ?w1 x mp] by simp
    with r Reject show ?thesis
      by (auto simp: handleDataChannelMessage_def Let_def bk intro: step_then)
  next
    case (Verify m)
    let ?w1 = "w\<lparr>pr := log (Received d) (pr w), disp := DVerify m\<rparr>"
    have "psteps mp ?w1 (w\<lparr>pr := verifyAuthResponse mp e pc m (log (Received d) (pr w)), disp := DIdle\<rparr>)"
      using verify_run [of ?w1 m mp e pc] by simp
    with r Verify show ?thesis
      by (auto simp: handleDataChannelMessage_def Let_def bk intro: step_then)
  next
    case (ToHandler m)
    let ?w1 = "w\<lparr>pr := log (Dispatched m) (log (Received d) (pr w)), disp := DHandling m\<rparr>"
    have "pstep mp ?w1 (w\<lparr>pr := log (Dispatched m) (log (Received d) (pr w)), disp := DIdle\<rparr>)"
      using pstep.handled [of ?w1 m mp] by simp
    with r ToHandler show ?thesis
      by (auto simp: handleDataChannelMessage_def Let_def bk intro: step_then)
  qed
qed

lemma local_fingerprint_length: "local_fingerprint fps = Inr s \<Longrightarrow> length s = 32"
  by (induction fps rule: local_fingerprint.induct) (auto split: if_splits option.splits)

lemma fingerprint_length:
  assumes "pcDTLSFingerprints pc = Inr (h, m)"
  shows "length h = 32" and "length m = 32"
  using assms
  by (auto simp: pcDTLSFingerprints_def dest: local_fingerprint_length
      split: if_splits option.splits sum.splits)

section \<open>Properties\<close>

text \<open>Property C5. Key possession. In every interleaving of the goroutines that touch a peer, a
  request reaches the handler only if before that the peer sent an authentication response
  whose MAC verifies under the pairing secret over a nonce this connection was challenged
  with, a 32-byte nonce of the peer, and the DTLS certificates in use.\<close>

theorem requests_only_after_proof:
  assumes "reach (pinit dev att s) (pstep mp) w"
    and "trace (pr w) = xs @ Dispatched m # ys"
  shows "\<exists>d n pc t mac nonce mn hfp mfp.
    Received d \<in> set xs \<and> Challenged n \<in> set xs \<and> length n = 32 \<and> TransportRead pc \<in> set xs \<and>
    DecodeRequest mp d = Inr (AuthResponseRequest t mac nonce) \<and>
    b64_decode nonce = Some mn \<and> length mn = 32 \<and>
    pcDTLSFingerprints pc = Inr (hfp, mfp) \<and>
    b64_decode mac = Some (authMAC s authLabelMobileToHost n mn hfp mfp)"
proof -
  have "pinv mp s w" using assms(1) by (rule peer_machine.inv_reach)
  then have "preceded (proven mp s) is_Dispatched (trace (pr w))"
    by (simp add: pinv_def inv_proof_def Let_def)
  with assms(2) have "proven mp s xs" by (auto simp: preceded_def)
  then show ?thesis unfolding proven_def proof_of_def by blast
qed

text \<open>Property C7. Nothing but the two handshake messages leaves the host before
  \<open>auth_confirm\<close> was sent, whichever goroutine sends it: the first message a mobile sees after
  the handshake is the host's own proof.\<close>

theorem confirm_before_payload:
  assumes "reach (pinit dev att s) (pstep mp) w"
    and "trace (pr w) = xs @ e # ys" and "is_payload e"
  shows "\<exists>t mac. Sent (AuthConfirmEvent t mac) \<in> set xs"
proof -
  have "pinv mp s w" using assms(1) by (rule peer_machine.inv_reach)
  then have "preceded confirm_sent is_payload (trace (pr w))"
    by (simp add: pinv_def inv_out_def Let_def)
  with assms(2,3) have "confirm_sent xs" by (auto simp: preceded_def)
  then show ?thesis by (auto simp: confirm_sent_def is_AuthConfirmEvent_def)
qed

text \<open>Property C10. The verdict on a handshake is reached at most once, and a failed one is final:
  timeout, bad response and failed challenge never let a later request through, and a
  verified response is never overtaken by the timeout.\<close>

theorem auth_verdict_final:
  assumes "reach (pinit dev att s) (pstep mp) w"
  shows "length (filter is_verdict (trace (pr w))) \<le> 1 \<and>
    (\<forall>r m. AuthFailed r \<in> set (trace (pr w)) \<longrightarrow>
       \<not> authenticated (pr w) \<and> Dispatched m \<notin> set (trace (pr w)))"
proof -
  have inv: "inv_verdict w" using peer_machine.inv_reach [OF assms] by (simp add: pinv_def)
  let ?tr = "trace (pr w)"
  have one: "length (filter is_verdict ?tr) \<le> 1" using inv by (simp add: inv_verdict_def Let_def)
  have excl: "AuthOK \<notin> set ?tr" if f: "AuthFailed r \<in> set ?tr" for r
  proof
    assume "AuthOK \<in> set ?tr"
    with f have "{AuthOK, AuthFailed r} \<subseteq> set (filter is_verdict ?tr)" by simp
    then have "card {AuthOK, AuthFailed r} \<le> length (filter is_verdict ?tr)"
      using card_mono card_length order_trans by (metis List.finite_set)
    with one show False by simp
  qed
  have "Dispatched m \<notin> set ?tr" if "AuthFailed r \<in> set ?tr" for r m
  proof
    assume "Dispatched m \<in> set ?tr"
    then obtain xs ys where tr: "?tr = xs @ Dispatched m # ys" by (auto simp: in_set_conv_decomp)
    with inv have "AuthOK \<in> set xs" by (auto simp: inv_verdict_def Let_def preceded_def)
    with tr have "AuthOK \<in> set ?tr" by simp
    with excl [OF that] show False by simp
  qed
  with one excl inv show ?thesis by (auto simp: inv_verdict_def Let_def)
qed

text \<open>Once \<open>stopDispatch\<close> has returned no request reaches the handler, so the
  disconnect handler that runs next cannot race a late request.\<close>

theorem no_dispatch_after_stop:
  assumes "reach (pinit dev att s) (pstep mp) w"
    and "trace (pr w) = xs @ DispatchStopped # ys"
  shows "Dispatched m \<notin> set ys"
proof
  have inv: "inv_stop w" using peer_machine.inv_reach [OF assms(1)] by (simp add: pinv_def)
  assume "Dispatched m \<in> set ys"
  then obtain us vs where "ys = us @ Dispatched m # vs" by (auto simp: in_set_conv_decomp)
  with assms(2) have "trace (pr w) = (xs @ DispatchStopped # us) @ Dispatched m # vs" by simp
  with inv have "DispatchStopped \<notin> set (xs @ DispatchStopped # us)"
    unfolding inv_stop_def Let_def preceded_def by (meson is_Dispatched.simps(1))
  then show False by simp
qed

text \<open>The authenticated transcript is unambiguous: for nonces of 32 bytes and
  SHA-256 fingerprints, two transcripts with the handshake's labels are equal only if
  direction, nonces and certificates are; so a MAC made for one direction or one session is
  a MAC over other bytes than any other.\<close>

theorem auth_transcript_injective:
  assumes "l \<in> {authLabelMobileToHost, authLabelHostToMobile}"
    and "l' \<in> {authLabelMobileToHost, authLabelHostToMobile}"
    and "length hn = 32" "length mn = 32" "length hn' = 32" "length mn' = 32"
    and "pcDTLSFingerprints pc = Inr (hfp, mfp)" "pcDTLSFingerprints pc' = Inr (hfp', mfp')"
  shows "auth_transcript l hn mn hfp mfp = auth_transcript l' hn' mn' hfp' mfp' \<longleftrightarrow>
    l = l' \<and> hn = hn' \<and> mn = mn' \<and> hfp = hfp' \<and> mfp = mfp'"
proof -
  have "length l = length l'"
    using assms(1,2) by (auto simp: authLabelMobileToHost_def authLabelHostToMobile_def)
  moreover have "length hfp = length hfp'"
    using fingerprint_length(1) [OF assms(7)] fingerprint_length(1) [OF assms(8)] by simp
  ultimately show ?thesis using assms(3-6) by (simp add: auth_transcript_def)
qed


section \<open>Witnesses\<close>

text \<open>A connection played through: challenge with nonce \<open>n0\<close>, the honest response, then a
  ping. The MACs stay symbolic; the decoder knows the two messages.\<close>

definition n0 :: bytes where "n0 = replicate 32 (CHR ''n'')"
definition m0 :: bytes where "m0 = replicate 32 (CHR ''m'')"
definition pc0 :: transport where
  "pc0 = \<lparr>tr_sctp = True, tr_dtls = True, tr_remoteCert = ''cert'',
          tr_local = Some [(''SHA-256'', replicate 64 (CHR ''0''))]\<rparr>"
definition fp0 :: bytes where "fp0 = replicate 32 (CHR 0x00)"

definition mac0 :: bytes where
  "mac0 = authMAC ''key'' authLabelMobileToHost n0 m0 fp0 (sha256 ''cert'')"

definition mp0 :: msgpack where
  "mp0 = \<lparr>mp_marshal = (\<lambda>_. Some []),
          mp_env = (\<lambda>d. Some (if d = ''auth'' then ''auth_response'' else ''ping'')),
          mp_into = (\<lambda>d z. Some (if d = ''auth''
            then AuthResponseRequest ''auth_response'' (b64_encode mac0) (b64_encode m0)
            else PingRequest ''ping''))\<rparr>"

definition e0 :: send_env where "e0 = \<lparr>buffered = 0, drains = False, accepts = True\<rparr>"

definition w0 :: world where
  "w0 = \<lparr>pr = new_peer ''dev'' '''' ''key'', opener = ONew, disp = DIdle, outbox = [], rawbox = []\<rparr>"

definition armed0 :: peer where
  "armed0 = arm_challenge n0 ((new_peer ''dev'' '''' ''key'')\<lparr>dc := True\<rparr>)"

definition talk0 :: peer where
  "talk0 = handleDataChannelMessage mp0 e0 pc0 ''ping'' (handleDataChannelMessage mp0 e0 pc0 ''auth'' armed0)"

lemma length_0 [simp]: "length n0 = 32" "length m0 = 32" "length fp0 = 32" "n0 \<noteq> []"
  by (simp_all add: n0_def m0_def fp0_def)

lemma hex_zeros: "hex_decode (replicate (n + n) (CHR ''0'')) = Some (replicate n (CHR 0x00))"
  by (induction n) (simp_all add: hex_val_def char_of_def)

lemma sha_label: "equal_fold ''SHA-256'' ''sha-256''"
  by code_simp

lemma fp_pc0: "pcDTLSFingerprints pc0 = Inr (fp0, sha256 ''cert'')"
  using hex_zeros [of 32] sha_label
  by (simp add: pcDTLSFingerprints_def pc0_def replace_all_def fp0_def map_replicate_const)

lemma valid_auth0:
  "Validate (AuthResponseRequest ''auth_response'' (b64_encode mac0) (b64_encode m0)) = None"
proof -
  have "length (b64_encode mac0) = 44" "length (b64_encode m0) = 44"
    by (simp_all add: length_b64_encode mac0_def authMAC_def)
  then show ?thesis by (simp add: MaxAuthBlobLength_def flip: length_greater_0_conv)
qed

lemma decode_auth0: "DecodeRequest mp0 ''auth'' = Inr (AuthResponseRequest ''auth_response'' (b64_encode mac0) (b64_encode m0))"
  using valid_auth0
  by (simp add: DecodeRequest_def decode_def mp0_def new_message_def MaxMessageSize_def del: Validate.simps)

lemma decode_ping0: "DecodeRequest mp0 ''ping'' = Inr (PingRequest ''ping'')"
  by (simp add: DecodeRequest_def decode_def mp0_def new_message_def MaxMessageSize_def)

text \<open>What the peer's trace looks like after the conversation.\<close>

definition confirm0 :: message where
  "confirm0 = AuthConfirmEvent ''auth_confirm''
     (b64_encode (authMAC ''key'' authLabelHostToMobile n0 m0 fp0 (sha256 ''cert'')))"

lemmas conversation_defs = handleDataChannelMessage_def route_message_def verifyAuthResponse_def
  verify_checks_def authNonceSize_def b64_decode_encode commit_auth_def SendMessageContext_def
  send_gate_def send_finish_def Encode_def confirm_msg_def isAuthHandshakeMessage_def Let_def

lemma talk0_trace:
  "trace talk0 = [Challenged n0, Received ''auth'', TransportRead pc0, AuthOK, Sent confirm0,
     Received ''ping''] @ Dispatched (PingRequest ''ping'') # []"
  by (simp add: talk0_def armed0_def arm_challenge_def new_peer_def conversation_defs decode_auth0
      decode_ping0 fp_pc0 mac0_def [symmetric] confirm0_def e0_def)
    (simp add: mp0_def)

lemma talk0_reach: "reach (pinit ''dev'' '''' ''key'') (pstep mp0) (w0\<lparr>pr := talk0, opener := OArmed n0\<rparr>)"
proof -
  let ?w1 = "w0\<lparr>pr := (pr w0)\<lparr>dc := True\<rparr>\<rparr>" and ?w2 = "w0\<lparr>pr := armed0, opener := OArmed n0\<rparr>"
  let ?w3 = "?w2\<lparr>pr := handleDataChannelMessage mp0 e0 pc0 ''auth'' (pr ?w2)\<rparr>"
  have "reach (pinit ''dev'' '''' ''key'') (pstep mp0) w0"
    by (rule reach.start) (simp add: pinit_def w0_def)
  moreover have "pstep mp0 w0 ?w1" by (rule pstep.channel_created)
  moreover have "pstep mp0 ?w1 ?w2"
    using pstep.open_arm [of ?w1 n0 mp0] by (simp add: w0_def armed0_def authNonceSize_def)
  ultimately have "reach (pinit ''dev'' '''' ''key'') (pstep mp0) ?w2" by (blast intro: reach.move)
  moreover have "psteps mp0 ?w2 ?w3" by (rule handle_run) (simp add: w0_def)
  ultimately have r3: "reach (pinit ''dev'' '''' ''key'') (pstep mp0) ?w3" by (rule reach_steps)
  have "psteps mp0 ?w3 (?w3\<lparr>pr := handleDataChannelMessage mp0 e0 pc0 ''ping'' (pr ?w3)\<rparr>)"
    by (rule handle_run) (simp add: w0_def)
  from reach_steps [OF r3 this] show ?thesis by (simp add: talk0_def w0_def)
qed

theorem requests_only_after_proof_witness:
  "\<exists>n. Challenged n \<in> set (trace talk0) \<and> length n = 32"
proof -
  have "trace (pr (w0\<lparr>pr := talk0, opener := OArmed n0\<rparr>)) = [Challenged n0, Received ''auth'',
      TransportRead pc0, AuthOK, Sent confirm0, Received ''ping''] @ Dispatched (PingRequest ''ping'') # []"
    using talk0_trace by simp
  from requests_only_after_proof [OF talk0_reach this] show ?thesis by (auto simp: talk0_trace)
qed

text \<open>After the conversation any goroutine may send output.\<close>

lemma talk0_flags: "authConfirmed talk0" "dc talk0" "\<not> pclosed talk0" "authResolved talk0"
  by (simp_all add: talk0_def armed0_def arm_challenge_def new_peer_def conversation_defs decode_auth0
      decode_ping0 fp_pc0 mac0_def [symmetric] e0_def)
    (simp_all add: mp0_def)

definition raw0 :: world where
  "raw0 = w0\<lparr>pr := log (SentRaw ''x'') talk0, opener := OArmed n0\<rparr>"

lemma raw0_reach: "reach (pinit ''dev'' '''' ''key'') (pstep mp0) raw0"
proof -
  let ?w = "w0\<lparr>pr := talk0, opener := OArmed n0\<rparr>"
  let ?w1 = "?w\<lparr>rawbox := [''x'']\<rparr>"
  have "pstep mp0 ?w ?w1"
    using pstep.raw_begin [of ?w mp0 "''x''"] talk0_flags by (simp add: raw_gate_def w0_def)
  moreover have "pstep mp0 ?w1 raw0"
    using pstep.raw_end [of "''x''" ?w1 e0 None "log (SentRaw ''x'') talk0" mp0]
    by (simp add: raw_finish_def waitForSendReady_def e0_def raw0_def w0_def)
  ultimately show ?thesis using talk0_reach by (blast intro: reach.move)
qed

theorem confirm_before_payload_witness:
  "\<exists>t mac. Sent (AuthConfirmEvent t mac) \<in> set (trace talk0)"
proof -
  have "trace (pr raw0) = trace talk0 @ SentRaw ''x'' # []" by (simp add: raw0_def)
  from confirm_before_payload [OF raw0_reach this] show ?thesis by simp
qed

theorem auth_verdict_final_witness: "length (filter is_verdict (trace talk0)) \<le> 1"
  using auth_verdict_final [OF talk0_reach] by simp

theorem no_dispatch_after_stop_witness:
  "Dispatched (PingRequest ''ping'') \<notin> set [Received ''late'']"
proof -
  let ?w = "w0\<lparr>pr := mark_stopped (pr w0)\<rparr>"
  let ?v = "?w\<lparr>pr := log (Received ''late'') (pr ?w)\<rparr>"
  have "reach (pinit ''dev'' '''' ''key'') (pstep mp0) w0"
    by (rule reach.start) (simp add: pinit_def w0_def)
  moreover have "pstep mp0 w0 ?w" by (rule pstep.stop_dispatch) (simp add: w0_def)
  moreover have "pstep mp0 ?w ?v"
    using pstep.receive [of ?w mp0 "''late''"]
    by (simp add: route_message_def mark_stopped_def w0_def)
  ultimately have "reach (pinit ''dev'' '''' ''key'') (pstep mp0) ?v" by (blast intro: reach.move)
  moreover have "trace (pr ?v) = [] @ DispatchStopped # [Received ''late'']"
    by (simp add: mark_stopped_def w0_def new_peer_def)
  ultimately show ?thesis by (rule no_dispatch_after_stop)
qed

theorem auth_transcript_injective_witness:
  "auth_transcript authLabelMobileToHost n0 m0 fp0 (sha256 ''cert'') \<noteq>
   auth_transcript authLabelHostToMobile n0 m0 fp0 (sha256 ''cert'')"
  using auth_transcript_injective [of authLabelMobileToHost authLabelHostToMobile n0 m0 n0 m0 pc0 fp0
      "sha256 ''cert''" pc0 fp0 "sha256 ''cert''"] fp_pc0
  by (simp add: authLabelMobileToHost_def authLabelHostToMobile_def)


end
