(* ===== verification/Peer_Manager.thy ===== *)
theory Peer_Manager
  imports Peer_Auth
begin

text \<open>
  The \<open>PeerManager\<close> of \<open>internal/webrtc/peer.go\<close>: the table of connections keyed by device,
  admission of connect requests, replacement of a connection by a reconnect, the grace and
  watchdog timers, and tear-down.

  Peers are pointers: they live in the store \<open>pheap\<close>, the table maps a device to an address,
  and every identity test of the code (\<open>pm.peers[id] == peer\<close>) compares addresses. Goroutines
  the code spawns are pending jobs; a method that releases the manager's lock between two
  sections leaves a job for the second one. \<open>mstep\<close> interleaves jobs, timers, callbacks and
  signaling messages. Pion's answers (connection states, whether an offer could be made) and
  the outcome of sends are arguments.

  Shown here: only the paired device ever enters the table, and only with a secret; the table
  never exceeds its bound and is empty while the manager is closed; a replaced connection
  cannot evict or silence its replacement; buffers stay bounded; a late notice does not kill
  a live session. One race of the tear-down is exhibited as well.
\<close>

section \<open>State\<close>

definition maxBufferedICECandidates :: nat where "maxBufferedICECandidates = 64"
definition maxReplacedAttempts :: nat where "maxReplacedAttempts = 8"
definition pcDisconnectedTimeout :: int where "pcDisconnectedTimeout = 10 * 10 ^ 9"
definition turnCacheTTL :: int where "turnCacheTTL = 10 * 60 * 10 ^ 9"

datatype pc_state = PCNew | PCConnecting | PCConnected | PCDisconnected | PCFailed | PCClosed

record ice_server =
  URLs :: "string list"
  Username :: string
  Credential :: string

datatype signal =
    SConnectionRejected string peer_id
  | SOffer peer_id string string
  | SCandidate peer_id string string

text \<open>Work the code has handed to a goroutine, or the rest of a method that let go of the lock:
  \<open>JTeardown\<close>, \<open>JDisconnect\<close>, \<open>JFinish\<close> are the stages of \<open>scheduleCleanup\<close>'s goroutine,
  \<open>JReplaced\<close> and \<open>JClose\<close> belong to a reconnect, \<open>JCloseIfCurrent\<close> to \<open>peer_unavailable\<close>,
  \<open>JNotify\<close> to \<open>closeAll\<close>, \<open>JAnswer\<close> to \<open>sdp_answer\<close>, \<open>JResched\<close>, \<open>JRestart\<close> and \<open>JWatch\<close> to
  the disconnect timer, and \<open>JInsert\<close>, \<open>JSetup\<close> to \<open>connect_request\<close>.\<close>

datatype job =
    JTeardown nat
  | JDisconnect nat
  | JFinish nat
  | JReplaced peer_id nat
  | JClose nat
  | JCloseIfCurrent peer_id nat
  | JNotify peer_id nat
  | JAnswer peer_id nat
  | JResched peer_id int
  | JRestart peer_id
  | JWatch peer_id nat
  | JBuild peer_id string bytes
  | JInsert peer_id nat
  | JSetup peer_id nat

record mgr =
  allowedDeviceID :: string
  MaxPeers :: nat
  ForceRelay :: bool
  pheap :: "nat \<rightharpoonup> peer"
  pnext :: nat
  peers :: "peer_id \<rightharpoonup> nat"
  disconnectTimers :: "peer_id \<rightharpoonup> nat"
  iceRestartTimers :: "peer_id \<rightharpoonup> nat"
  disconnectTimes :: "peer_id \<rightharpoonup> int"
  nextTimer :: nat
  mclosed :: bool
  shutDown :: bool
  replacedAttempts :: "string list"
  turnCache :: "ice_server list"
  turnCacheTime :: int
  signaled :: "signal list"
  notified :: "(peer_id \<times> nat option) list"
  jobs :: "job list"

definition NewPeerManager :: mgr where
  "NewPeerManager = \<lparr>allowedDeviceID = '''', MaxPeers = 1, ForceRelay = False, pheap = Map.empty,
     pnext = 0, peers = Map.empty, disconnectTimers = Map.empty, iceRestartTimers = Map.empty,
     disconnectTimes = Map.empty, nextTimer = 0, mclosed = False, shutDown = False,
     replacedAttempts = [], turnCache = [], turnCacheTime = 0, signaled = [], notified = [],
     jobs = []\<rparr>"

abbreviation upd_peer :: "nat \<Rightarrow> (peer \<Rightarrow> peer) \<Rightarrow> mgr \<Rightarrow> mgr" where
  "upd_peer a f m \<equiv> m\<lparr>pheap := (pheap m)(a := map_option f (pheap m a))\<rparr>"

abbreviation spawn :: "job \<Rightarrow> mgr \<Rightarrow> mgr" where
  "spawn j m \<equiv> m\<lparr>jobs := jobs m @ [j]\<rparr>"

text \<open>A call of the disconnect handler is recorded with the connection that is current for the
  device at that moment.\<close>

definition OnPeerDisconnect :: "peer_id \<Rightarrow> mgr \<Rightarrow> mgr" where
  "OnPeerDisconnect d m = m\<lparr>notified := notified m @ [(d, peers m d)]\<rparr>"

definition SetAllowedDeviceID :: "string \<Rightarrow> mgr \<Rightarrow> mgr" where
  "SetAllowedDeviceID d m = m\<lparr>allowedDeviceID := d\<rparr>"

section \<open>Tear-down\<close>

definition stopTimersLocked :: "peer_id \<Rightarrow> mgr \<Rightarrow> mgr" where
  "stopTimersLocked d m = m\<lparr>disconnectTimers := (disconnectTimers m)(d := None),
     iceRestartTimers := (iceRestartTimers m)(d := None),
     disconnectTimes := (disconnectTimes m)(d := None)\<rparr>"

definition ClosePeer :: "peer_id \<Rightarrow> mgr \<Rightarrow> mgr" where
  "ClosePeer d m =
     (let m1 = stopTimersLocked d (m\<lparr>peers := (peers m)(d := None)\<rparr>)
      in case peers m d of None \<Rightarrow> m1 | Some a \<Rightarrow> upd_peer a ClosePeerConn m1)"

definition ClosePeerIfCurrent :: "peer_id \<Rightarrow> nat \<Rightarrow> mgr \<Rightarrow> mgr" where
  "ClosePeerIfCurrent d a m =
     (if peers m d \<noteq> Some a then upd_peer a ClosePeerConn m
      else upd_peer a ClosePeerConn (stopTimersLocked d (m\<lparr>peers := (peers m)(d := None)\<rparr>)))"

definition scheduleCleanup :: "nat \<Rightarrow> mgr \<Rightarrow> mgr" where
  "scheduleCleanup a m = (if mclosed m then m else spawn (JTeardown a) m)"

definition goTeardownLocked :: "job \<Rightarrow> mgr \<Rightarrow> mgr" where "goTeardownLocked j m = spawn j m"
definition goCleanup :: "job \<Rightarrow> mgr \<Rightarrow> mgr" where "goCleanup j m = spawn j m"

definition closeViaManager :: "nat \<Rightarrow> mgr \<Rightarrow> mgr" where
  "closeViaManager a m =
     (if \<not> mclosed m then scheduleCleanup a m else spawn (JClose a) m)"

text \<open>\<open>teardownIfCurrent\<close>: dispatch stops, then identity is tested under the lock; the handler
  runs after the lock is released.\<close>

definition teardown_check :: "nat \<Rightarrow> mgr \<Rightarrow> mgr" where
  "teardown_check a m = (case pheap m a of
      None \<Rightarrow> m
    | Some p \<Rightarrow>
       let m1 = upd_peer a stopDispatch m in
       if peers m (DeviceID p) = Some a then spawn (JDisconnect a) m1 else spawn (JFinish a) m1)"

definition teardown_notify :: "nat \<Rightarrow> mgr \<Rightarrow> mgr" where
  "teardown_notify a m = (case pheap m a of
      None \<Rightarrow> m | Some p \<Rightarrow> spawn (JFinish a) (OnPeerDisconnect (DeviceID p) m))"

definition teardown_close :: "nat \<Rightarrow> mgr \<Rightarrow> mgr" where
  "teardown_close a m = (case pheap m a of
      None \<Rightarrow> m | Some p \<Rightarrow> ClosePeerIfCurrent (DeviceID p) a m)"

definition teardownIfCurrent :: "nat \<Rightarrow> mgr \<Rightarrow> mgr" where
  "teardownIfCurrent a m = (case pheap m a of
      None \<Rightarrow> m
    | Some p \<Rightarrow>
       let m1 = upd_peer a stopDispatch m in
       if peers m (DeviceID p) = Some a then OnPeerDisconnect (DeviceID p) m1 else m1)"

definition DisconnectPeer :: "peer_id \<Rightarrow> mgr \<Rightarrow> bool \<times> mgr" where
  "DisconnectPeer d m = (case peers m d of
      None \<Rightarrow> (False, m) | Some a \<Rightarrow> (True, scheduleCleanup a m))"

definition PeerCount :: "mgr \<Rightarrow> nat" where "PeerCount m = card (dom (peers m))"

text \<open>\<open>closeAll\<close>: the locked part empties table and timers; each peer of the old table gets a
  goroutine (\<open>devs\<close> lists the table's devices, Go iterates in any order). \<open>CloseAllAndReopen\<close>
  reopens once no handler tear-down is pending.\<close>

definition closeAll_locked :: "peer_id list \<Rightarrow> mgr \<Rightarrow> mgr" where
  "closeAll_locked devs m =
     m\<lparr>mclosed := True, peers := Map.empty, disconnectTimers := Map.empty,
       iceRestartTimers := Map.empty, disconnectTimes := Map.empty,
       jobs := jobs m @ map (\<lambda>d. JNotify d (the (peers m d))) devs\<rparr>"

fun is_teardown_job :: "job \<Rightarrow> bool" where
  "is_teardown_job (JTeardown _) = True"
| "is_teardown_job (JDisconnect _) = True"
| "is_teardown_job (JReplaced _ _) = True"
| "is_teardown_job (JNotify _ _) = True"
| "is_teardown_job _ = False"

definition reopen :: "mgr \<Rightarrow> mgr" where
  "reopen m = (if \<not> shutDown m then m\<lparr>mclosed := False\<rparr> else m)"

definition begin_shutdown :: "mgr \<Rightarrow> mgr" where "begin_shutdown m = m\<lparr>shutDown := True\<rparr>"

definition notify_job :: "peer_id \<Rightarrow> nat \<Rightarrow> mgr \<Rightarrow> mgr" where
  "notify_job d a m = spawn (JClose a) (OnPeerDisconnect d (upd_peer a stopDispatch m))"

section \<open>Signaling messages\<close>

definition isOtherAttempt :: "peer \<Rightarrow> string \<Rightarrow> bool" where
  "isOtherAttempt p att \<longleftrightarrow> att \<noteq> '''' \<and> attemptID p \<noteq> '''' \<and> att \<noteq> attemptID p"

definition recordReplacedAttemptLocked :: "string \<Rightarrow> mgr \<Rightarrow> mgr" where
  "recordReplacedAttemptLocked att m =
     (if att = '''' then m
      else let r = replacedAttempts m @ [att]
           in m\<lparr>replacedAttempts := (if length r > maxReplacedAttempts then tl r else r)\<rparr>)"

text \<open>\<open>handlePeerUnavailable\<close>, given the state of the channel and the connection.\<close>

definition handlePeerUnavailable :: "peer_id \<Rightarrow> string \<Rightarrow> bool \<Rightarrow> pc_state \<Rightarrow> mgr \<Rightarrow> mgr" where
  "handlePeerUnavailable d att dcOpen st m = (case peers m d of
      None \<Rightarrow> m
    | Some a \<Rightarrow>
       (case pheap m a of
          None \<Rightarrow> m
        | Some p \<Rightarrow>
           if att \<noteq> attemptID p \<and> att \<in> set (replacedAttempts m) then m
           else if dcOpen \<or> st = PCConnecting \<or> st = PCConnected then m
           else goCleanup (JCloseIfCurrent d a) m))"

text \<open>\<open>handleConnectRequest\<close>: admission, then removal of an old connection. \<open>sec\<close> is what
  \<open>getSharedSecret\<close> returned.\<close>

definition getSharedSecret :: "bytes option \<Rightarrow> bytes option" where
  "getSharedSecret r = (case r of None \<Rightarrow> None | Some s \<Rightarrow> if length s = 0 then None else Some s)"

definition connect_remove :: "peer_id \<Rightarrow> mgr \<Rightarrow> mgr" where
  "connect_remove d m =
     (case peers m d of
        None \<Rightarrow> stopTimersLocked d m
      | Some a \<Rightarrow>
         let att = (case pheap m a of None \<Rightarrow> '''' | Some p \<Rightarrow> attemptID p) in
         goCleanup (JClose a)
           (stopTimersLocked d
             (goTeardownLocked (JReplaced d a)
               (recordReplacedAttemptLocked att
                 ((upd_peer a silence m)\<lparr>peers := (peers m)(d := None)\<rparr>)))))"

definition connect_admit :: "peer_id \<Rightarrow> string \<Rightarrow> bytes option \<Rightarrow> mgr \<Rightarrow> mgr" where
  "connect_admit d att sec m =
     (if mclosed m then m
      else if allowedDeviceID m = '''' \<or> d \<noteq> allowedDeviceID m
      then m\<lparr>signaled := signaled m @ [SConnectionRejected ''not_paired'' d]\<rparr>
      else case getSharedSecret sec of
        None \<Rightarrow> m\<lparr>signaled := signaled m @ [SConnectionRejected ''secret_unavailable'' d]\<rparr>
      | Some s \<Rightarrow>
         if peers m d = None \<and> PeerCount m \<ge> MaxPeers m
         then m\<lparr>signaled := signaled m @ [SConnectionRejected ''already_connected'' d]\<rparr>
         else spawn (JBuild d att s) (connect_remove d m))"

text \<open>TURN credentials, cached; \<open>resp\<close> is the server's answer.\<close>

definition fetchTurnCredentials ::
  "int \<Rightarrow> ice_server list option \<Rightarrow> mgr \<Rightarrow> ice_server list option \<times> mgr" where
  "fetchTurnCredentials now resp m =
     (if length (turnCache m) > 0 \<and> now - turnCacheTime m < turnCacheTTL
      then (Some (turnCache m), m)
      else case resp of
        None \<Rightarrow> (None, m)
      | Some srv \<Rightarrow> (Some srv, m\<lparr>turnCache := srv, turnCacheTime := now\<rparr>))"

definition connect_build ::
  "int \<Rightarrow> ice_server list option \<Rightarrow> bool \<Rightarrow> peer_id \<Rightarrow> string \<Rightarrow> bytes \<Rightarrow> mgr \<Rightarrow> mgr" where
  "connect_build now resp pcOK d att s m =
     (case fetchTurnCredentials now resp m of
        (turn, m1) \<Rightarrow>
          if turn = None \<and> ForceRelay m1 then m1
          else if \<not> pcOK then m1
          else spawn (JInsert d (pnext m1))
                 (m1\<lparr>pheap := (pheap m1)(pnext m1 \<mapsto> new_peer d att s), pnext := Suc (pnext m1)\<rparr>))"

definition connect_insert :: "peer_id \<Rightarrow> nat \<Rightarrow> mgr \<Rightarrow> mgr" where
  "connect_insert d a m =
     (if mclosed m then m
      else if allowedDeviceID m \<noteq> d then m
      else if peers m d = None \<and> PeerCount m \<ge> MaxPeers m then m
      else spawn (JSetup d a) (m\<lparr>peers := (peers m)(d \<mapsto> a)\<rparr>))"

datatype setup_outcome = ChannelFailed | OfferFailed | LocalDescFailed | OfferSendFailed | OfferSent string

definition connect_setup :: "setup_outcome \<Rightarrow> peer_id \<Rightarrow> nat \<Rightarrow> mgr \<Rightarrow> mgr" where
  "connect_setup out d a m =
     (case out of
        ChannelFailed \<Rightarrow> ClosePeer d m
      | OfferSent sdp \<Rightarrow>
         let m1 = upd_peer a (\<lambda>p. p\<lparr>dc := True\<rparr>) m;
             att = (case pheap m a of None \<Rightarrow> '''' | Some p \<Rightarrow> attemptID p)
         in m1\<lparr>signaled := signaled m1 @ [SOffer d att sdp]\<rparr>
      | _ \<Rightarrow> ClosePeer d (upd_peer a (\<lambda>p. p\<lparr>dc := True\<rparr>) m))"

text \<open>The answer watchdog of the initial offer.\<close>

definition answer_watchdog :: "peer_id \<Rightarrow> nat \<Rightarrow> bool \<Rightarrow> mgr \<Rightarrow> mgr" where
  "answer_watchdog d a answered m =
     (if mclosed m \<or> peers m d \<noteq> Some a then m
      else if \<not> answered then scheduleCleanup a m else m)"

definition handleSDPAnswer ::
  "peer_id \<Rightarrow> string \<Rightarrow> string \<Rightarrow> bool \<Rightarrow> bool \<Rightarrow> mgr \<Rightarrow> mgr" where
  "handleSDPAnswer d att sdp noOffer setOK m =
     (if length sdp = 0 then m
      else if length sdp > 64 * 1024 then m
      else case peers m d of
        None \<Rightarrow> m
      | Some a \<Rightarrow>
         (case pheap m a of
            None \<Rightarrow> m
          | Some p \<Rightarrow>
             if isOtherAttempt p att then m
             else if noOffer then m
             else if \<not> setOK then spawn (JAnswer d a) m
             else upd_peer a (\<lambda>q. q\<lparr>remoteDescSet := True, iceCandidates := []\<rparr>) m))"

definition answer_failed :: "peer_id \<Rightarrow> nat \<Rightarrow> mgr \<Rightarrow> mgr" where
  "answer_failed d a m = (if peers m d = Some a then scheduleCleanup a m else m)"

definition mline :: "int option \<Rightarrow> 16 word option" where
  "mline i = map_option word_of_int i"

definition handleICECandidate ::
  "peer_id \<Rightarrow> string \<Rightarrow> string \<Rightarrow> string \<Rightarrow> int option \<Rightarrow> mgr \<Rightarrow> mgr" where
  "handleICECandidate d att cand mid idx m = (case peers m d of
      None \<Rightarrow> m
    | Some a \<Rightarrow>
       (case pheap m a of
          None \<Rightarrow> m
        | Some p \<Rightarrow>
           if isOtherAttempt p att then m
           else if remoteDescSet p then m
           else if length (iceCandidates p) \<ge> maxBufferedICECandidates then m
           else upd_peer a (\<lambda>q. q\<lparr>iceCandidates := iceCandidates q @
                  [\<lparr>Candidate = cand, SDPMid = mid, SDPMLineIndex = mline idx\<rparr>]\<rparr>) m))"

definition sendICECandidate :: "nat \<Rightarrow> string \<Rightarrow> mgr \<Rightarrow> mgr" where
  "sendICECandidate a cand m = (case pheap m a of
      None \<Rightarrow> m
    | Some p \<Rightarrow> if silenced p then m
                else m\<lparr>signaled := signaled m @ [SCandidate (DeviceID p) (attemptID p) cand]\<rparr>)"

section \<open>Connection states and timers\<close>

definition handlePeerStateChange :: "int \<Rightarrow> nat \<Rightarrow> pc_state \<Rightarrow> mgr \<Rightarrow> mgr" where
  "handlePeerStateChange now a st m = (case pheap m a of
      None \<Rightarrow> m
    | Some p \<Rightarrow>
       let d = DeviceID p in
       if peers m d \<noteq> Some a then m
       else case st of
         PCConnected \<Rightarrow>
           (let m1 = (if disconnectTimers m d \<noteq> None
                      then m\<lparr>disconnectTimers := (disconnectTimers m)(d := None),
                             disconnectTimes := (disconnectTimes m)(d := None)\<rparr>
                      else m)
            in m1\<lparr>iceRestartTimers := (iceRestartTimers m1)(d := None)\<rparr>)
       | PCDisconnected \<Rightarrow>
           (if iceRestartTimers m d \<noteq> None then m
            else if disconnectTimers m d \<noteq> None then m
            else m\<lparr>disconnectTimes := (disconnectTimes m)(d \<mapsto> now),
                   disconnectTimers := (disconnectTimers m)(d \<mapsto> nextTimer m),
                   nextTimer := Suc (nextTimer m)\<rparr>)
       | PCFailed \<Rightarrow> scheduleCleanup a (stopTimersLocked d m)
       | PCClosed \<Rightarrow> scheduleCleanup a (stopTimersLocked d m)
       | _ \<Rightarrow> m)"

definition onDisconnectTimerFired :: "int \<Rightarrow> pc_state \<Rightarrow> peer_id \<Rightarrow> mgr \<Rightarrow> mgr" where
  "onDisconnectTimerFired now st d m =
     (let m1 = m\<lparr>disconnectTimers := (disconnectTimers m)(d := None),
                 disconnectTimes := (disconnectTimes m)(d := None)\<rparr>
      in if peers m d = None then m1
         else if st \<noteq> PCDisconnected then m1
         else case disconnectTimes m d of
           Some t \<Rightarrow> if now - t < pcDisconnectedTimeout div 2 then spawn (JResched d t) m1
                     else spawn (JRestart d) m1
         | None \<Rightarrow> spawn (JRestart d) m1)"

definition reschedule_timer :: "peer_id \<Rightarrow> int \<Rightarrow> mgr \<Rightarrow> mgr" where
  "reschedule_timer d t m =
     m\<lparr>disconnectTimes := (disconnectTimes m)(d \<mapsto> t),
       disconnectTimers := (disconnectTimers m)(d \<mapsto> nextTimer m), nextTimer := Suc (nextTimer m)\<rparr>"

datatype restart_outcome = RestartOfferFailed | RestartSendFailed | RestartSent string

definition attemptICERestart :: "restart_outcome \<Rightarrow> peer_id \<Rightarrow> mgr \<Rightarrow> mgr" where
  "attemptICERestart out d m = (case peers m d of
      None \<Rightarrow> m
    | Some a \<Rightarrow>
       (case out of
          RestartOfferFailed \<Rightarrow> scheduleCleanup a m
        | RestartSendFailed \<Rightarrow>
            scheduleCleanup a (upd_peer a (\<lambda>p. p\<lparr>remoteDescSet := False, iceCandidates := []\<rparr>) m)
        | RestartSent sdp \<Rightarrow>
            let m1 = upd_peer a (\<lambda>p. p\<lparr>remoteDescSet := False, iceCandidates := []\<rparr>) m;
                att = (case pheap m a of None \<Rightarrow> '''' | Some p \<Rightarrow> attemptID p)
            in spawn (JWatch d a) (m1\<lparr>signaled := signaled m1 @ [SOffer d att sdp]\<rparr>)))"

definition start_watchdog :: "peer_id \<Rightarrow> nat \<Rightarrow> mgr \<Rightarrow> mgr" where
  "start_watchdog d a m =
     (if mclosed m \<or> peers m d \<noteq> Some a then m
      else m\<lparr>iceRestartTimers := (iceRestartTimers m)(d \<mapsto> nextTimer m),
             nextTimer := Suc (nextTimer m)\<rparr>)"

definition restart_watchdog_fired :: "nat \<Rightarrow> peer_id \<Rightarrow> nat \<Rightarrow> pc_state \<Rightarrow> mgr \<Rightarrow> mgr" where
  "restart_watchdog_fired t d a st m =
     (let m1 = (if iceRestartTimers m d = Some t
                then m\<lparr>iceRestartTimers := (iceRestartTimers m)(d := None)\<rparr> else m)
      in if peers m1 d \<noteq> Some a then m1
         else if st \<noteq> PCConnected then scheduleCleanup a m1 else m1)"

text \<open>\<open>SignalingMessage\<close> (the fields the manager reads) and \<open>HandleSignalingMessage\<close>; \<open>sigenv\<close> holds
  what the operations it calls learn from the keyring and from Pion.\<close>

record SignalingMessage =
  sg_Type :: string
  sg_TargetDeviceID :: string
  sg_DeviceID :: string
  sg_AttemptID :: string
  sg_SDP :: string
  sg_Candidate :: string
  sg_SDPMid :: string
  sg_SDPMLineIndex :: "int option"

record sigenv =
  se_secret :: "bytes option"
  se_dcOpen :: bool
  se_state :: pc_state
  se_noOffer :: bool
  se_setOK :: bool

definition attemptIDPattern :: "string \<Rightarrow> bool" where
  "attemptIDPattern s \<longleftrightarrow> length s = 32 \<and> (\<forall>c \<in> set s. c \<in> set ''0123456789abcdef'')"

definition clean_attempt :: "string \<Rightarrow> string" where
  "clean_attempt s = (if s \<noteq> '''' \<and> \<not> attemptIDPattern s then '''' else s)"

definition HandleSignalingMessage :: "sigenv \<Rightarrow> SignalingMessage \<Rightarrow> mgr \<Rightarrow> mgr" where
  "HandleSignalingMessage e g m =
     (let att = clean_attempt (sg_AttemptID g); t = sg_Type g in
      if t = ''connect_request'' then connect_admit (sg_TargetDeviceID g) att (se_secret e) m
      else if t = ''sdp_answer''
      then handleSDPAnswer (sg_TargetDeviceID g) att (sg_SDP g) (se_noOffer e) (se_setOK e) m
      else if t = ''ice_candidate''
      then handleICECandidate (sg_TargetDeviceID g) att (sg_Candidate g) (sg_SDPMid g) (sg_SDPMLineIndex g) m
      else if t = ''peer_unavailable''
      then handlePeerUnavailable (sg_DeviceID g) att (se_dcOpen e) (se_state e) m
      else m)"

text \<open>\<open>SendTo\<close>; \<open>None\<close> when the device has no connection.\<close>

definition SendTo :: "msgpack \<Rightarrow> send_env \<Rightarrow> peer_id \<Rightarrow> message \<Rightarrow> mgr \<Rightarrow> send_error option option \<times> mgr" where
  "SendTo mp e d msg m = (case peers m d of
      None \<Rightarrow> (None, m)
    | Some a \<Rightarrow>
       (case pheap m a of
          None \<Rightarrow> (None, m)
        | Some p \<Rightarrow> (case SendMessageContext mp e msg p of
             (r, p1) \<Rightarrow> (Some r, m\<lparr>pheap := (pheap m)(a \<mapsto> p1)\<rparr>))))"

section \<open>Interleavings\<close>

abbreviation drop_job :: "job \<Rightarrow> mgr \<Rightarrow> mgr" where
  "drop_job j m \<equiv> m\<lparr>jobs := remove1 j (jobs m)\<rparr>"

definition replaced_job :: "peer_id \<Rightarrow> nat \<Rightarrow> mgr \<Rightarrow> mgr" where
  "replaced_job d a m = OnPeerDisconnect d (upd_peer a stopDispatch m)"

text \<open>What a peer's own goroutines (\<open>Peer_Auth\<close>) may change: anything but its identity, its
  attempt, its secret and the candidate buffer.\<close>

definition peer_moves :: "peer \<Rightarrow> peer \<Rightarrow> bool" where
  "peer_moves p q \<longleftrightarrow> DeviceID q = DeviceID p \<and> attemptID q = attemptID p \<and>
     sharedSecret q = sharedSecret p \<and> iceCandidates q = iceCandidates p"

inductive mstep :: "mgr \<Rightarrow> mgr \<Rightarrow> bool" where
  set_allowed: "mstep m (SetAllowedDeviceID d m)"
| connect: "mstep m (connect_admit d att sec m)"
| build: "JBuild d att s \<in> set (jobs m) \<Longrightarrow>
    mstep m (connect_build now resp ok d att s (drop_job (JBuild d att s) m))"
| insert_peer: "JInsert d a \<in> set (jobs m) \<Longrightarrow> mstep m (connect_insert d a (drop_job (JInsert d a) m))"
| set_up: "JSetup d a \<in> set (jobs m) \<Longrightarrow> mstep m (connect_setup out d a (drop_job (JSetup d a) m))"
| offer_watchdog: "mstep m (answer_watchdog d a answered m)"
| answer: "mstep m (handleSDPAnswer d att sdp noOffer ok m)"
| answer_fails: "JAnswer d a \<in> set (jobs m) \<Longrightarrow> mstep m (answer_failed d a (drop_job (JAnswer d a) m))"
| remote_candidate: "mstep m (handleICECandidate d att cand mid idx m)"
| local_candidate: "mstep m (sendICECandidate a cand m)"
| unavailable: "mstep m (handlePeerUnavailable d att dcOpen st m)"
| state_change: "mstep m (handlePeerStateChange now a st m)"
| disconnect_timer: "mstep m (onDisconnectTimerFired now st d m)"
| resched: "JResched d t \<in> set (jobs m) \<Longrightarrow> mstep m (reschedule_timer d t (drop_job (JResched d t) m))"
| restart: "JRestart d \<in> set (jobs m) \<Longrightarrow> mstep m (attemptICERestart rout d (drop_job (JRestart d) m))"
| watch: "JWatch d a \<in> set (jobs m) \<Longrightarrow> mstep m (start_watchdog d a (drop_job (JWatch d a) m))"
| restart_watchdog: "mstep m (restart_watchdog_fired t d a st m)"
| auth_failed: "mstep m (closeViaManager a m)"
| sweep: "mstep m (snd (DisconnectPeer d m))"
| teardown: "JTeardown a \<in> set (jobs m) \<Longrightarrow> mstep m (teardown_check a (drop_job (JTeardown a) m))"
| disconnect: "JDisconnect a \<in> set (jobs m) \<Longrightarrow> mstep m (teardown_notify a (drop_job (JDisconnect a) m))"
| finish: "JFinish a \<in> set (jobs m) \<Longrightarrow> mstep m (teardown_close a (drop_job (JFinish a) m))"
| replaced: "JReplaced d a \<in> set (jobs m) \<Longrightarrow> mstep m (replaced_job d a (drop_job (JReplaced d a) m))"
| close_old: "JClose a \<in> set (jobs m) \<Longrightarrow> mstep m (upd_peer a ClosePeerConn (drop_job (JClose a) m))"
| close_current: "JCloseIfCurrent d a \<in> set (jobs m) \<Longrightarrow>
    mstep m (ClosePeerIfCurrent d a (drop_job (JCloseIfCurrent d a) m))"
| notify: "JNotify d a \<in> set (jobs m) \<Longrightarrow> mstep m (notify_job d a (drop_job (JNotify d a) m))"
| shutdown: "mstep m (begin_shutdown m)"
| close_all: "set devs = dom (peers m) \<Longrightarrow> distinct devs \<Longrightarrow> mstep m (closeAll_locked devs m)"
| reopens: "\<not> (\<exists>j \<in> set (jobs m). is_teardown_job j) \<Longrightarrow> mstep m (reopen m)"
| peer_step: "pheap m a = Some p \<Longrightarrow> peer_moves p q \<Longrightarrow> mstep m (m\<lparr>pheap := (pheap m)(a \<mapsto> q)\<rparr>)"

definition minit :: "nat \<Rightarrow> mgr \<Rightarrow> bool" where
  "minit k m \<longleftrightarrow> m = NewPeerManager\<lparr>MaxPeers := k\<rparr>"

text \<open>The entry points called from other components are steps of the machine.\<close>

lemma HandleSignalingMessage_step:
  "mstep m (HandleSignalingMessage e g m) \<or> HandleSignalingMessage e g m = m"
  unfolding HandleSignalingMessage_def Let_def
  by (simp add: mstep.connect mstep.answer mstep.remote_candidate mstep.unavailable)

lemma SendTo_step:
  assumes "SendTo mp e d msg m = (r, m')"
  shows "m' = m \<or> mstep m m'"
proof -
  have "SendMessageContext mp e msg p = (r, q) \<Longrightarrow> peer_moves p q" for p q r
    by (auto simp: SendMessageContext_def send_finish_def peer_moves_def
        split: option.splits sum.splits if_splits)
  then show ?thesis
    using assms by (auto simp: SendTo_def split: option.splits prod.splits intro: mstep.peer_step)
qed

section \<open>Invariants\<close>

lemmas mgr_defs [op_defs] = SetAllowedDeviceID_def connect_admit_def connect_remove_def
  connect_build_def fetchTurnCredentials_def connect_insert_def connect_setup_def
  answer_watchdog_def handleSDPAnswer_def answer_failed_def handleICECandidate_def
  sendICECandidate_def handlePeerUnavailable_def handlePeerStateChange_def
  onDisconnectTimerFired_def reschedule_timer_def attemptICERestart_def start_watchdog_def
  restart_watchdog_fired_def closeViaManager_def DisconnectPeer_def teardown_check_def
  teardown_notify_def teardown_close_def replaced_job_def ClosePeerIfCurrent_def ClosePeer_def
  notify_job_def begin_shutdown_def closeAll_locked_def reopen_def scheduleCleanup_def
  goCleanup_def goTeardownLocked_def stopTimersLocked_def OnPeerDisconnect_def
  recordReplacedAttemptLocked_def Let_def

lemmas mgr_splits = if_splits option.splits setup_outcome.splits restart_outcome.splits
  pc_state.splits prod.splits

text \<open>The table is empty while the manager is closed.\<close>

definition inv_closed :: "mgr \<Rightarrow> bool" where
  "inv_closed m \<longleftrightarrow> (mclosed m \<longrightarrow> peers m = Map.empty)"

lemma inv_closed_step: "mstep m m' \<Longrightarrow> inv_closed m \<Longrightarrow> inv_closed m'"
  by (induction rule: mstep.induct) (auto simp: inv_closed_def mgr_defs split: mgr_splits)

text \<open>Every address in the table, and every connection about to enter it, is a peer of that
  device with a secret; the table respects its bound.\<close>

definition peer_for :: "mgr \<Rightarrow> peer_id \<Rightarrow> nat \<Rightarrow> bool" where
  "peer_for m d a \<longleftrightarrow> (\<exists>p. pheap m a = Some p \<and> DeviceID p = d \<and> sharedSecret p \<noteq> [])"

definition inv_table :: "mgr \<Rightarrow> bool" where
  "inv_table m \<longleftrightarrow>
     finite (dom (peers m)) \<and> card (dom (peers m)) \<le> MaxPeers m \<and>
     (\<forall>a. pheap m a \<noteq> None \<longrightarrow> a < pnext m) \<and>
     (\<forall>d a. peers m d = Some a \<longrightarrow> peer_for m d a) \<and>
     (\<forall>d a. JInsert d a \<in> set (jobs m) \<longrightarrow> peer_for m d a \<and> d \<noteq> '''') \<and>
     (\<forall>d att s. JBuild d att s \<in> set (jobs m) \<longrightarrow> s \<noteq> [] \<and> d \<noteq> '''')"

lemma peer_frame [simp]:
  "DeviceID (stopDispatch p) = DeviceID p" "sharedSecret (stopDispatch p) = sharedSecret p"
  "iceCandidates (stopDispatch p) = iceCandidates p" "attemptID (stopDispatch p) = attemptID p"
  "DeviceID (silence p) = DeviceID p" "sharedSecret (silence p) = sharedSecret p"
  "iceCandidates (silence p) = iceCandidates p" "attemptID (silence p) = attemptID p"
  "DeviceID (ClosePeerConn p) = DeviceID p" "sharedSecret (ClosePeerConn p) = sharedSecret p"
  "iceCandidates (ClosePeerConn p) = iceCandidates p" "attemptID (ClosePeerConn p) = attemptID p"
  by (simp_all add: stopDispatch_def mark_stopped_def stop_senders_def silence_def ClosePeerConn_def)

lemma peer_for_upd:
  "(\<And>p. DeviceID (f p) = DeviceID p) \<Longrightarrow> (\<And>p. sharedSecret (f p) = sharedSecret p) \<Longrightarrow>
   pheap m' = (pheap m)(b := map_option f (pheap m b)) \<Longrightarrow> peer_for m' d a = peer_for m d a"
  by (auto simp: peer_for_def)

text \<open>Operations that leave the store's identities, the counter and the pending inserts alone
  keep the invariant as long as the table only shrinks.\<close>

definition table_shrinks :: "mgr \<Rightarrow> mgr \<Rightarrow> bool" where
  "table_shrinks m m' \<longleftrightarrow> MaxPeers m' = MaxPeers m \<and> pnext m' = pnext m \<and>
     (\<forall>d a. peers m' d = Some a \<longrightarrow> peers m d = Some a) \<and>
     (\<forall>a. map_option (\<lambda>p. (DeviceID p, sharedSecret p)) (pheap m' a) =
          map_option (\<lambda>p. (DeviceID p, sharedSecret p)) (pheap m a)) \<and>
     (\<forall>d a. JInsert d a \<in> set (jobs m') \<longrightarrow> JInsert d a \<in> set (jobs m)) \<and>
     (\<forall>d att s. JBuild d att s \<in> set (jobs m') \<longrightarrow> JBuild d att s \<in> set (jobs m))"

lemma peer_for_shrinks: "table_shrinks m m' \<Longrightarrow> peer_for m' d a = peer_for m d a"
proof -
  assume t: "table_shrinks m m'"
  have pf: "peer_for n d a \<longleftrightarrow>
      (\<exists>s. map_option (\<lambda>p. (DeviceID p, sharedSecret p)) (pheap n a) = Some (d, s) \<and> s \<noteq> [])" for n
    by (auto simp: peer_for_def)
  show ?thesis using t unfolding pf table_shrinks_def by simp
qed

lemma dom_shrinks: "table_shrinks m m' \<Longrightarrow> dom (peers m') \<subseteq> dom (peers m)"
  by (auto simp: table_shrinks_def)

lemma heap_shrinks:
  assumes "table_shrinks m m'"
  shows "pheap m' a = None \<longleftrightarrow> pheap m a = None"
proof -
  have "map_option (\<lambda>p. (DeviceID p, sharedSecret p)) (pheap m' a) =
      map_option (\<lambda>p. (DeviceID p, sharedSecret p)) (pheap m a)"
    using assms unfolding table_shrinks_def by blast
  then show ?thesis by (cases "pheap m' a"; cases "pheap m a") simp_all
qed

lemma inv_table_shrinks:
  assumes t: "table_shrinks m m'" and i: "inv_table m"
  shows "inv_table m'"
  unfolding inv_table_def
proof (intro conjI)
  have fin: "finite (dom (peers m))" "card (dom (peers m)) \<le> MaxPeers m"
    using i by (simp_all add: inv_table_def)
  show "finite (dom (peers m'))" using fin(1) dom_shrinks [OF t] by (rule rev_finite_subset)
  have "card (dom (peers m')) \<le> card (dom (peers m))" using fin(1) dom_shrinks [OF t] by (rule card_mono)
  with fin(2) t show "card (dom (peers m')) \<le> MaxPeers m'" by (simp add: table_shrinks_def)
  show "\<forall>a. pheap m' a \<noteq> None \<longrightarrow> a < pnext m'"
    using t i heap_shrinks [OF t] by (simp add: table_shrinks_def inv_table_def)
  show "\<forall>d a. peers m' d = Some a \<longrightarrow> peer_for m' d a"
    using t i by (simp add: peer_for_shrinks [OF t]) (simp add: table_shrinks_def inv_table_def)
  show "\<forall>d a. JInsert d a \<in> set (jobs m') \<longrightarrow> peer_for m' d a \<and> d \<noteq> ''''"
    using t i unfolding peer_for_shrinks [OF t] unfolding table_shrinks_def inv_table_def by blast
  show "\<forall>d att s. JBuild d att s \<in> set (jobs m') \<longrightarrow> s \<noteq> [] \<and> d \<noteq> ''''"
    using t i unfolding table_shrinks_def inv_table_def by blast
qed

lemma set_remove1D: "x \<in> set (remove1 y xs) \<Longrightarrow> x \<in> set xs"
  by (meson notin_set_remove1)

lemmas shrink_simps = table_shrinks_def mgr_defs option.map_comp comp_def

text \<open>All steps but those of a connect request only shrink the table.\<close>

lemma shrink_steps:
  "table_shrinks m (SetAllowedDeviceID d m)"
  "table_shrinks m (connect_setup out d a (drop_job (JSetup d a) m))"
  "table_shrinks m (answer_watchdog d a answered m)"
  "table_shrinks m (handleSDPAnswer d att sdp noOffer ok m)"
  "table_shrinks m (answer_failed d a (drop_job (JAnswer d a) m))"
  "table_shrinks m (handleICECandidate d att cand mid idx m)"
  "table_shrinks m (sendICECandidate a cand m)"
  "table_shrinks m (handlePeerUnavailable d att dcOpen st m)"
  "table_shrinks m (handlePeerStateChange now a st m)"
  "table_shrinks m (onDisconnectTimerFired now st d m)"
  "table_shrinks m (reschedule_timer d t (drop_job (JResched d t) m))"
  "table_shrinks m (attemptICERestart rout d (drop_job (JRestart d) m))"
  "table_shrinks m (start_watchdog d a (drop_job (JWatch d a) m))"
  "table_shrinks m (restart_watchdog_fired tid d a st m)"
  "table_shrinks m (closeViaManager a m)"
  "table_shrinks m (snd (DisconnectPeer d m))"
  "table_shrinks m (teardown_check a (drop_job (JTeardown a) m))"
  "table_shrinks m (teardown_notify a (drop_job (JDisconnect a) m))"
  "table_shrinks m (teardown_close a (drop_job (JFinish a) m))"
  "table_shrinks m (replaced_job d a (drop_job (JReplaced d a) m))"
  "table_shrinks m (upd_peer a ClosePeerConn (drop_job (JClose a) m))"
  "table_shrinks m (ClosePeerIfCurrent d a (drop_job (JCloseIfCurrent d a) m))"
  "table_shrinks m (notify_job d a (drop_job (JNotify d a) m))"
  "table_shrinks m (begin_shutdown m)"
  "table_shrinks m (closeAll_locked devs m)"
  "table_shrinks m (reopen m)"
  "pheap m a = Some p \<Longrightarrow> peer_moves p q \<Longrightarrow> table_shrinks m (m\<lparr>pheap := (pheap m)(a \<mapsto> q)\<rparr>)"
  by (auto simp: shrink_simps peer_moves_def split: mgr_splits dest!: set_remove1D)

lemma remove_shrinks: "table_shrinks m (connect_remove d m)"
  by (auto simp: shrink_simps split: mgr_splits)

lemma inv_table_spawn_build:
  "inv_table m \<Longrightarrow> s \<noteq> [] \<Longrightarrow> d \<noteq> '''' \<Longrightarrow> inv_table (spawn (JBuild d att s) m)"
  by (auto simp: inv_table_def peer_for_def)

lemma inv_table_connect: "inv_table m \<Longrightarrow> inv_table (connect_admit d att sec m)"
proof -
  assume i: "inv_table m"
  have "inv_table (connect_remove d m)" using remove_shrinks i by (rule inv_table_shrinks)
  moreover have "inv_table (m\<lparr>signaled := x\<rparr>)" for x using i by (simp add: inv_table_def peer_for_def)
  ultimately show ?thesis
    using i by (auto simp: connect_admit_def getSharedSecret_def intro!: inv_table_spawn_build
        split: option.splits if_splits)
qed

lemma drop_shrinks: "table_shrinks m (drop_job j m)"
  by (auto simp: table_shrinks_def dest: set_remove1D)

lemma inv_table_build:
  assumes "inv_table m" and "JBuild d att s \<in> set (jobs m)"
  shows "inv_table (connect_build now resp ok d att s (drop_job (JBuild d att s) m))"
proof -
  have s: "s \<noteq> []" "d \<noteq> ''''" using assms by (auto simp: inv_table_def)
  let ?m = "drop_job (JBuild d att s) m"
  obtain turn m1 where f: "fetchTurnCredentials now resp ?m = (turn, m1)" by fastforce
  have "table_shrinks m m1"
    using f by (auto simp: fetchTurnCredentials_def table_shrinks_def split: if_splits option.splits
        dest: set_remove1D)
  then have i1: "inv_table m1" using assms(1) by (rule inv_table_shrinks)
  then have fresh: "pheap m1 (pnext m1) = None" by (auto simp: inv_table_def)
  have "inv_table (spawn (JInsert d (pnext m1)) (m1\<lparr>pheap := (pheap m1)(pnext m1 \<mapsto> new_peer d att s),
      pnext := Suc (pnext m1)\<rparr>))"
    using i1 fresh s
    by (fastforce simp: inv_table_def peer_for_def new_peer_def less_Suc_eq)
  with i1 f show ?thesis by (simp add: connect_build_def)
qed

lemma inv_table_insert:
  assumes "inv_table m" and "JInsert d a \<in> set (jobs m)"
  shows "inv_table (connect_insert d a (drop_job (JInsert d a) m))"
proof -
  let ?m = "drop_job (JInsert d a) m"
  have i: "inv_table ?m" using drop_shrinks assms(1) by (rule inv_table_shrinks)
  have p: "peer_for ?m d a" using assms by (auto simp: inv_table_def peer_for_def)
  have "inv_table (spawn (JSetup d a) (?m\<lparr>peers := (peers ?m)(d \<mapsto> a)\<rparr>))"
    if "peers m d = None \<Longrightarrow> PeerCount m < MaxPeers m"
  proof -
    have "card (dom ((peers m)(d \<mapsto> a))) \<le> MaxPeers m"
    proof (cases "peers m d")
      case None
      with that i card_dom_upd_absent [of "peers m" d a] show ?thesis
        by (simp add: inv_table_def PeerCount_def)
    next
      case (Some b)
      with i card_dom_upd_present [of "peers m" d a] show ?thesis by (simp add: inv_table_def)
    qed
    with i p show ?thesis by (auto simp: inv_table_def peer_for_def)
  qed
  with i show ?thesis by (auto simp: connect_insert_def PeerCount_def)
qed

lemma inv_table_step: "mstep m m' \<Longrightarrow> inv_table m \<Longrightarrow> inv_table m'"
  by (induction rule: mstep.induct)
    (blast intro: inv_table_shrinks [OF shrink_steps(1)] inv_table_connect inv_table_build inv_table_insert
      shrink_steps inv_table_shrinks)+

text \<open>Buffers filled by the signaling server.\<close>

definition inv_bounds :: "mgr \<Rightarrow> bool" where
  "inv_bounds m \<longleftrightarrow> length (replacedAttempts m) \<le> 8 \<and>
     (\<forall>a p. pheap m a = Some p \<longrightarrow> length (iceCandidates p) \<le> 64)"

lemma inv_bounds_step: "mstep m m' \<Longrightarrow> inv_bounds m \<Longrightarrow> inv_bounds m'"
  by (induction rule: mstep.induct)
    (auto simp: inv_bounds_def mgr_defs peer_moves_def new_peer_def maxReplacedAttempts_def
      maxBufferedICECandidates_def split: mgr_splits)

lemma MaxPeers_step: "mstep m m' \<Longrightarrow> MaxPeers m' = MaxPeers m"
  by (induction rule: mstep.induct) (auto simp: mgr_defs split: mgr_splits)

definition minv :: "nat \<Rightarrow> mgr \<Rightarrow> bool" where
  "minv k m \<longleftrightarrow> MaxPeers m = k \<and> inv_table m \<and> inv_closed m \<and> inv_bounds m"

lemma minv_init: "minit k m \<Longrightarrow> minv k m"
  by (simp add: minit_def minv_def inv_table_def inv_closed_def inv_bounds_def NewPeerManager_def)

lemma minv_step: "minv k m \<Longrightarrow> mstep m m' \<Longrightarrow> minv k m'"
  by (simp add: minv_def MaxPeers_step inv_table_step inv_closed_step inv_bounds_step)

interpretation manager: machine "minit k" "mstep" "minv k" for k
  by unfold_locales (auto intro: minv_init minv_step)

text \<open>Shut down: closed for good.\<close>

lemma shutdown_step:
  "mstep m m' \<Longrightarrow> shutDown m \<and> mclosed m \<Longrightarrow> shutDown m' \<and> mclosed m'"
  by (induction rule: mstep.induct) (auto simp: mgr_defs split: mgr_splits)

lemma shutdown_steps:
  "mstep\<^sup>*\<^sup>* m m' \<Longrightarrow> shutDown m \<and> mclosed m \<Longrightarrow> shutDown m' \<and> mclosed m'"
  by (induction rule: rtranclp_induct) (blast dest: shutdown_step)+

lemma table_shrinksD: "table_shrinks m m' \<Longrightarrow> peers m' d = Some a \<Longrightarrow> peers m d = Some a"
  by (simp add: table_shrinks_def)

lemmas shrinksD = shrink_steps [THEN table_shrinksD]

text \<open>An entry of the table that was not there before comes from \<open>connect_insert\<close>.\<close>

lemma new_entry:
  assumes "mstep m m'" and "inv_table m" and "peers m' d = Some a" and "peers m d \<noteq> Some a"
  shows "JInsert d a \<in> set (jobs m) \<and> allowedDeviceID m = d \<and> \<not> mclosed m \<and>
    (peers m d = None \<longrightarrow> PeerCount m < MaxPeers m)"
  using assms
proof (induction rule: mstep.induct)
  case (connect m e att sec)
  have "peers (connect_admit e att sec m) d = Some a \<Longrightarrow> peers m d = Some a"
    using remove_shrinks [of m e]
    by (auto simp: connect_admit_def table_shrinks_def split: if_splits option.splits)
  with connect show ?case by simp
next
  case (build e att s m now resp ok)
  then show ?case
    by (auto simp: connect_build_def fetchTurnCredentials_def split: if_splits option.splits)
next
  case (insert_peer e b m)
  then show ?case by (auto simp: connect_insert_def PeerCount_def split: if_splits)
next
  case (peer_step m b p q)
  then show ?case by simp
qed (blast dest: shrinksD)+

definition same_sessions :: "nat \<Rightarrow> mgr \<Rightarrow> mgr \<Rightarrow> bool" where
  "same_sessions a m m' \<longleftrightarrow> peers m' = peers m \<and> disconnectTimers m' = disconnectTimers m \<and>
     iceRestartTimers m' = iceRestartTimers m \<and> disconnectTimes m' = disconnectTimes m \<and>
     notified m' = notified m \<and> (\<forall>b. b \<noteq> a \<longrightarrow> pheap m' b = pheap m b)"

section \<open>Properties\<close>

text \<open>Property C12. Only the paired device gets a connection: whenever a step of any interleaving
  puts a connection into the table, the device is at that moment the allowed one, is not
  empty, the manager is open, and the connection carries the device's identity and a
  non-empty pairing secret.\<close>

theorem only_paired_device_enters:
  assumes "reach (minit k) mstep m" and "mstep m m'"
    and "peers m' d = Some a" and "peers m d \<noteq> Some a"
  shows "allowedDeviceID m = d \<and> d \<noteq> '''' \<and> \<not> mclosed m \<and>
    (\<exists>p. pheap m' a = Some p \<and> DeviceID p = d \<and> sharedSecret p \<noteq> [])"
proof -
  have i: "inv_table m" "inv_table m'"
    using manager.inv_next [OF assms(1,2)] by (simp_all add: minv_def)
  note e = new_entry [OF assms(2) i(1) assms(3,4)]
  moreover have "d \<noteq> ''''" using e i(1) by (auto simp: inv_table_def)
  moreover have "peer_for m' d a" using i(2) assms(3) by (auto simp: inv_table_def)
  ultimately show ?thesis by (auto simp: peer_for_def)
qed

text \<open>Property C39. Bounds: the table never holds more connections than \<open>MaxPeers\<close>, it is empty
  whenever the manager is closed, at most 8 replaced attempts are remembered, and no
  connection buffers more than 64 candidates, whatever the signaling server sends.\<close>

theorem peer_table_bounded:
  assumes "reach (minit k) mstep m"
  shows "PeerCount m \<le> k \<and> (mclosed m \<longrightarrow> peers m = Map.empty) \<and>
    length (replacedAttempts m) \<le> 8 \<and>
    (\<forall>a p. pheap m a = Some p \<longrightarrow> length (iceCandidates p) \<le> 64)"
  using manager.inv_reach [OF assms]
  by (auto simp: minv_def inv_table_def inv_closed_def inv_bounds_def PeerCount_def)

text \<open>A connection that was replaced cannot hurt its replacement: its state
  callbacks, its tear-down, its close and its watchdogs change neither the table nor a timer,
  do not call the disconnect handler, and touch no other connection.\<close>

theorem stale_peer_harmless:
  assumes "pheap m a = Some p" and "peers m (DeviceID p) \<noteq> Some a"
  shows "same_sessions a m (handlePeerStateChange now a st m) \<and>
    same_sessions a m (teardownIfCurrent a m) \<and>
    same_sessions a m (ClosePeerIfCurrent (DeviceID p) a m) \<and>
    same_sessions a m (answer_watchdog (DeviceID p) a answered m) \<and>
    same_sessions a m (answer_failed (DeviceID p) a m) \<and>
    same_sessions a m (start_watchdog (DeviceID p) a m) \<and>
    same_sessions a m (closeViaManager a m)"
  using assms
  by (auto simp: same_sessions_def handlePeerStateChange_def teardownIfCurrent_def
      ClosePeerIfCurrent_def answer_watchdog_def answer_failed_def start_watchdog_def
      closeViaManager_def scheduleCleanup_def)

text \<open>Property C40. Shutdown is final: once \<open>CloseAll\<close> has marked the manager, no later step, the
  end of an overlapping reload included, reopens it or lets a connection into the table.\<close>

theorem shutdown_is_final:
  assumes "reach (minit k) mstep m" and "shutDown m" and "mclosed m" and "mstep\<^sup>*\<^sup>* m m'"
  shows "mclosed m' \<and> peers m' = Map.empty"
proof -
  have "mclosed m'" using shutdown_steps [OF assms(4)] assms(2,3) by simp
  moreover have "minv k m'" using reach_steps [OF assms(1,4)] by (rule manager.inv_reach)
  ultimately show ?thesis by (simp add: minv_def inv_closed_def)
qed

section \<open>A race in the tear-down\<close>

text \<open>The states of one run: a device connects (address 0), its connection fails, and the
  clean-up goroutine passes the identity test; before it calls the disconnect handler the
  device reconnects (address 1).\<close>

definition dev0 :: string where "dev0 = ''phone''"

definition connect_all :: "string \<Rightarrow> nat \<Rightarrow> mgr \<Rightarrow> mgr" where
  "connect_all att a m =
     connect_insert dev0 a (drop_job (JInsert dev0 a)
       (connect_build 0 None True dev0 att ''key'' (drop_job (JBuild dev0 att ''key'')
         (connect_admit dev0 att (Some ''key'') m))))"

definition race1 :: mgr where
  "race1 = connect_all ''a0'' 0 (SetAllowedDeviceID dev0 (NewPeerManager\<lparr>MaxPeers := 1\<rparr>))"

definition race2 :: mgr where
  "race2 = teardown_check 0 (drop_job (JTeardown 0) (handlePeerStateChange 0 0 PCFailed race1))"

definition race3 :: mgr where "race3 = connect_all ''a1'' 1 race2"

lemmas race_defs = connect_all_def dev0_def NewPeerManager_def new_peer_def getSharedSecret_def
  PeerCount_def stopDispatch_def mark_stopped_def stop_senders_def silence_def mgr_defs

lemma mstep_then: "mstep a b \<Longrightarrow> mstep\<^sup>*\<^sup>* b c \<Longrightarrow> mstep\<^sup>*\<^sup>* a c"
  by (rule converse_rtranclp_into_rtranclp)

lemma mreach_start: "reach (minit k) mstep (NewPeerManager\<lparr>MaxPeers := k\<rparr>)"
  by (rule reach.start) (simp add: minit_def)

lemma mreach_move: "reach (minit k) mstep m \<Longrightarrow> mstep m m' \<Longrightarrow> reach (minit k) mstep m'"
  by (rule reach.move)

lemma connect_all_steps:
  assumes "JBuild dev0 att ''key'' \<in> set (jobs (connect_admit dev0 att (Some ''key'') m))"
    and "JInsert dev0 a \<in> set (jobs (connect_build 0 None True dev0 att ''key''
           (drop_job (JBuild dev0 att ''key'') (connect_admit dev0 att (Some ''key'') m))))"
  shows "mstep\<^sup>*\<^sup>* m (connect_all att a m)"
  unfolding connect_all_def
  by (rule mstep_then [OF mstep.connect], rule mstep_then [OF mstep.build [OF assms(1)]],
      rule r_into_rtranclp, rule mstep.insert_peer [OF assms(2)])

lemma race1_reach: "reach (minit 1) mstep race1"
proof -
  let ?m = "NewPeerManager\<lparr>MaxPeers := 1\<rparr>"
  have "reach (minit 1) mstep (SetAllowedDeviceID dev0 ?m)"
    by (rule mreach_move [OF mreach_start mstep.set_allowed])
  then show ?thesis
    unfolding race1_def by (rule reach_steps) (rule connect_all_steps; simp add: race_defs)
qed

lemma race1_state:
  "race1 = NewPeerManager\<lparr>MaxPeers := 1, allowedDeviceID := dev0, pheap := [0 \<mapsto> new_peer dev0 ''a0'' ''key''],
     pnext := 1, peers := [dev0 \<mapsto> 0], jobs := [JSetup dev0 0]\<rparr>"
  by (simp add: race1_def race_defs)

lemma race2_reach: "reach (minit 1) mstep race2"
  unfolding race2_def
  by (rule mreach_move [OF mreach_move [OF race1_reach mstep.state_change] mstep.teardown])
    (simp add: race1_state race_defs)

lemma race2_state:
  "race2 = race1\<lparr>pheap := [0 \<mapsto> stopDispatch (new_peer dev0 ''a0'' ''key'')],
     jobs := [JSetup dev0 0, JDisconnect 0]\<rparr>"
  by (simp add: race2_def race1_state race_defs)

lemma race3_reach: "reach (minit 1) mstep race3"
  unfolding race3_def
  by (rule reach_steps [OF race2_reach], rule connect_all_steps)
    (simp_all add: race2_state race1_state race_defs)

lemma race3_state:
  "JDisconnect 0 \<in> set (jobs race3)" "peers race3 dev0 = Some 1" "notified race3 = []"
  "\<exists>p. pheap race3 0 = Some p \<and> DeviceID p = dev0"
  by (simp_all add: race3_def race2_state race1_state race_defs)

text \<open>The identity test of \<open>teardownIfCurrent\<close> and the call of the disconnect
  handler are not one step: in a reachable state the clean-up of an old connection that
  passed the test is pending while a newer connection of the same device is already in the
  table, and its next step calls the device-keyed disconnect handler on the newer session.\<close>

theorem teardown_race:
  "\<exists>m m' d a b. reach (minit 1) mstep m \<and> JDisconnect a \<in> set (jobs m) \<and>
     m' = teardown_notify a (drop_job (JDisconnect a) m) \<and> mstep m m' \<and>
     peers m d = Some b \<and> a \<noteq> b \<and> notified m = [] \<and> notified m' = [(d, Some b)]"
proof (intro exI conjI)
  show "reach (minit 1) mstep race3" by (rule race3_reach)
  show "JDisconnect 0 \<in> set (jobs race3)" by (rule race3_state)
  then show "mstep race3 (teardown_notify 0 (drop_job (JDisconnect 0) race3))" by (rule mstep.disconnect)
  show "peers race3 dev0 = Some 1" by (rule race3_state)
  show "notified race3 = []" by (rule race3_state)
  show "notified (teardown_notify 0 (drop_job (JDisconnect 0) race3)) = [(dev0, Some 1)]"
    using race3_state by (auto simp: teardown_notify_def OnPeerDisconnect_def)
qed simp_all

section \<open>Witnesses\<close>

theorem only_paired_device_enters_witness:
  "\<exists>m m'. mstep m m' \<and> peers m' dev0 = Some 0 \<and> allowedDeviceID m = dev0 \<and> \<not> mclosed m"
proof -
  let ?m = "connect_build 0 None True dev0 ''a0'' ''key'' (drop_job (JBuild dev0 ''a0'' ''key'')
     (connect_admit dev0 ''a0'' (Some ''key'') (SetAllowedDeviceID dev0 (NewPeerManager\<lparr>MaxPeers := 1\<rparr>))))"
  let ?n = "connect_insert dev0 0 (drop_job (JInsert dev0 0) ?m)"
  have "reach (minit 1) mstep ?m"
    by (rule mreach_move [OF mreach_move [OF mreach_move [OF mreach_start mstep.set_allowed] mstep.connect]
          mstep.build]) (simp add: race_defs)
  moreover have "mstep ?m ?n" by (rule mstep.insert_peer) (simp add: race_defs)
  moreover have "peers ?n dev0 = Some 0" "peers ?m dev0 \<noteq> Some 0" by (simp_all add: race_defs)
  ultimately show ?thesis using only_paired_device_enters [of 1 ?m ?n dev0 0] by blast
qed

theorem peer_table_bounded_witness: "PeerCount race3 \<le> 1"
  using peer_table_bounded [OF race3_reach] by simp

theorem stale_peer_harmless_witness: "peers (ClosePeerIfCurrent dev0 0 race3) dev0 = Some 1"
proof -
  obtain p where p: "pheap race3 0 = Some p" "DeviceID p = dev0" using race3_state(4) by blast
  then have "peers race3 (DeviceID p) \<noteq> Some 0" using race3_state(2) by simp
  from stale_peer_harmless [OF p(1) this] show ?thesis
    using race3_state(2) p(2) by (simp add: same_sessions_def)
qed

theorem shutdown_is_final_witness:
  "mclosed (reopen (closeAll_locked [dev0] (begin_shutdown race3)))"
proof -
  let ?m = "closeAll_locked [dev0] (begin_shutdown race3)"
  have d: "dom (peers (begin_shutdown race3)) = {dev0}"
    by (simp add: race3_def race2_state race1_state race_defs)
  have "mstep (begin_shutdown race3) ?m" by (rule mstep.close_all) (simp_all add: d)
  then have "reach (minit 1) mstep ?m"
    using race3_reach by (blast intro: reach.move mstep.shutdown)
  moreover have "shutDown ?m" "mclosed ?m" by (simp_all add: closeAll_locked_def begin_shutdown_def)
  ultimately have "mclosed m' \<and> peers m' = Map.empty" if "mstep\<^sup>*\<^sup>* ?m m'" for m'
    using shutdown_is_final that by blast
  from this [of ?m] show ?thesis by (simp add: reopen_def closeAll_locked_def begin_shutdown_def)
qed

end
