(* ===== verification/Update.thy ===== *)
theory Update
  imports Go_Std "HOL-Library.Product_Lexorder"
begin

text \<open>
  \<open>internal/update\<close>: version comparison, the persisted result of the last check, the check
  itself, detection of how pmux was installed, and the updaters, among them the one that
  downloads a release archive, verifies its checksum and replaces the binary.

  The network (\<open>http_get\<close>, with the redirects the client followed), URL parsing, archive
  readers, JSON decoding and the replacement of the running binary are parameters.

  Shown here: version comparison is a total preorder that ignores pre-release suffixes; the
  state file is replaced atomically; a binary is installed only if the archive it came from
  has the SHA-256 published for exactly that archive, and only over https from the allowed
  hosts.
\<close>

section \<open>More of the standard library\<close>

definition trim_prefix :: "string \<Rightarrow> string \<Rightarrow> string" where
  "trim_prefix s p = (if has_prefix s p then drop (length p) s else s)"

definition has_suffix :: "string \<Rightarrow> string \<Rightarrow> bool" where
  "has_suffix s p = has_prefix (rev s) (rev p)"

text \<open>\<open>strings.Fields\<close>: the maximal runs without white space. The second argument collects the
  current run in reverse.\<close>

function str_fields_from :: "string \<Rightarrow> string \<Rightarrow> string list" where
  "str_fields_from [] acc = (if acc = [] then [] else [rev acc])"
| "str_fields_from (c # cs) acc =
     (case find (has_prefix (c # cs)) space_runes of
        Some r \<Rightarrow> (if acc = [] then [] else [rev acc]) @ str_fields_from (drop (length r - 1) cs) []
      | None \<Rightarrow> str_fields_from cs (c # acc))"
  by pat_completeness auto
termination by (relation "measure (\<lambda>(s, acc). length s)") auto

definition str_fields :: "string \<Rightarrow> string list" where "str_fields s = str_fields_from s []"

text \<open>\<open>bufio.Scanner\<close> with its default line splitting: a final empty piece is not a line, one
  carriage return before the line feed is dropped, and a line of 65536 bytes or more stops
  the scan.\<close>

definition scan_lines :: "bytes \<Rightarrow> string list" where
  "scan_lines d =
     (let ps = split_on (CHR 0x0A) d;
          ls = (if last ps = [] then butlast ps else ps)
      in map (\<lambda>l. if l \<noteq> [] \<and> last l = CHR 0x0D then butlast l else l)
           (takeWhile (\<lambda>l. length l < 65536) ls))"

section \<open>Versions\<close>

definition version_part :: "string \<Rightarrow> int" where
  "version_part s =
     (case parse_int (hd (splitN (CHR ''-'') 2 s)) of
        (n, None) \<Rightarrow> if n \<ge> 0 then n else 0
      | (_, Some _) \<Rightarrow> 0)"

definition parseVersion :: "string \<Rightarrow> int \<times> int \<times> int" where
  "parseVersion v =
     (let parts = splitN (CHR ''.'') 3 (trim_prefix v ''v'');
          at = (\<lambda>i. if i < length parts then version_part (parts ! i) else 0)
      in (at 0, at 1, at 2))"

definition CompareVersions :: "string \<Rightarrow> string \<Rightarrow> int" where
  "CompareVersions a b =
     (case (parseVersion a, parseVersion b) of
        ((a0, a1, a2), (b0, b1, b2)) \<Rightarrow>
          if a0 < b0 then -1 else if a0 > b0 then 1
          else if a1 < b1 then -1 else if a1 > b1 then 1
          else if a2 < b2 then -1 else if a2 > b2 then 1
          else 0)"

section \<open>The state file\<close>

record State =
  LastCheck :: int
  CurrentVersion :: string
  LatestVersion :: string
  UpdateAvail :: bool
  ReleaseURL :: string
  InstallMethodName :: string

definition zero_state :: State where
  "zero_state = \<lparr>LastCheck = 0, CurrentVersion = '''', LatestVersion = '''', UpdateAvail = False,
                 ReleaseURL = '''', InstallMethodName = ''''\<rparr>"

definition IsStale :: "State \<Rightarrow> string \<Rightarrow> bool" where
  "IsStale s running \<longleftrightarrow> CurrentVersion s \<noteq> running"

type_synonym fs = "string \<rightharpoonup> bytes"

datatype state_error = ReadFailed | BadJSON | MarshalFailed | TempFailed | WriteFailed | ChmodFailed
  | CloseFailed | RenameFailed

text \<open>\<open>LoadState\<close>; reading fails for reasons other than absence when \<open>readable\<close> is false.\<close>

definition LoadState :: "(bytes \<Rightarrow> State option) \<Rightarrow> bool \<Rightarrow> string \<Rightarrow> fs \<Rightarrow> state_error + State" where
  "LoadState unmarshal readable path f =
     (case f path of
        None \<Rightarrow> Inr zero_state
      | Some d \<Rightarrow> if \<not> readable then Inl ReadFailed
                  else (case unmarshal d of None \<Rightarrow> Inl BadJSON | Some s \<Rightarrow> Inr s))"

text \<open>\<open>SaveState\<close>: the outcomes of the file operations, in order; \<open>tmp\<close> is the name
  \<open>CreateTemp\<close> chose, which did not exist.\<close>

record save_env =
  se_create :: bool
  se_write :: bool
  se_chmod :: bool
  se_close :: bool
  se_rename :: bool

definition SaveState ::
  "(State \<Rightarrow> bytes option) \<Rightarrow> save_env \<Rightarrow> string \<Rightarrow> string \<Rightarrow> State \<Rightarrow> fs \<Rightarrow> state_error option \<times> fs" where
  "SaveState marshal e tmp path s f =
     (case marshal s of
        None \<Rightarrow> (Some MarshalFailed, f)
      | Some d \<Rightarrow>
         if \<not> se_create e then (Some TempFailed, f)
         else let f1 = f(tmp \<mapsto> []) in
           if \<not> se_write e then (Some WriteFailed, f1(tmp := None))
           else let f2 = f1(tmp \<mapsto> d) in
             if \<not> se_chmod e then (Some ChmodFailed, f2(tmp := None))
             else if \<not> se_close e then (Some CloseFailed, f2(tmp := None))
             else if \<not> se_rename e then (Some RenameFailed, f2)
             else (None, f2(path \<mapsto> d, tmp := None)))"

section \<open>Checking for a release\<close>

record ReleaseAsset =
  AssetName :: string
  BrowserDownloadURL :: string

record ReleaseInfo =
  TagName :: string
  HTMLURL :: string
  Assets :: "ReleaseAsset list"

datatype fetch_error = RequestFailed | RateLimited int | BadStatus int | BodyReadFailed | BadReleaseJSON

definition FetchRelease ::
  "(bytes \<Rightarrow> ReleaseInfo option) \<Rightarrow> (int \<times> bytes option) option \<Rightarrow> fetch_error + ReleaseInfo" where
  "FetchRelease unmarshal resp =
     (case resp of
        None \<Rightarrow> Inl RequestFailed
      | Some (status, body) \<Rightarrow>
         if status = 403 \<or> status = 429 then Inl (RateLimited status)
         else if status \<noteq> 200 then Inl (BadStatus status)
         else case body of
           None \<Rightarrow> Inl BodyReadFailed
         | Some b \<Rightarrow> (case unmarshal (take (2 ^ 20) b) of
                        None \<Rightarrow> Inl BadReleaseJSON | Some r \<Rightarrow> Inr r))"

definition Check ::
  "(State \<Rightarrow> bytes option) \<Rightarrow> save_env \<Rightarrow> string \<Rightarrow> string \<Rightarrow> string \<Rightarrow> int \<Rightarrow> string \<Rightarrow>
   (fetch_error + ReleaseInfo) \<Rightarrow> fs \<Rightarrow> (fetch_error + State) \<times> fs" where
  "Check marshal e tmp stateFile current now methd fetched f =
     (if current = ''dev'' then (Inr (zero_state\<lparr>CurrentVersion := ''dev''\<rparr>), f)
      else case fetched of
        Inl err \<Rightarrow> (Inl err, f)
      | Inr release \<Rightarrow>
         let latest = TagName release;
             st = \<lparr>LastCheck = now, CurrentVersion = current, LatestVersion = latest,
                   UpdateAvail = (CompareVersions current latest < 0), ReleaseURL = HTMLURL release,
                   InstallMethodName = methd\<rparr>
         in (Inr st, snd (SaveState marshal e tmp stateFile st f)))"

section \<open>Install methods\<close>

datatype InstallMethod = MethodDev | MethodSnap | MethodDeb | MethodRPM | MethodHomebrew | MethodGitHub

definition HasUpdatePath :: "InstallMethod \<Rightarrow> bool" where
  "HasUpdatePath m \<longleftrightarrow> m \<noteq> MethodDev"

text \<open>\<open>Detect\<close>: the executable's path (with symbolic links resolved where possible), then the
  package managers.\<close>

definition Detect :: "string \<Rightarrow> string option \<Rightarrow> (string \<Rightarrow> string option) \<Rightarrow> (string list \<Rightarrow> bool) \<Rightarrow> InstallMethod" where
  "Detect buildMethod exe resolve commandSucceeds =
     (if buildMethod = ''dev'' then MethodDev
      else let p = (case exe of None \<Rightarrow> None
                    | Some e \<Rightarrow> Some (case resolve e of None \<Rightarrow> e | Some r \<Rightarrow> r)) in
        if (case p of None \<Rightarrow> False | Some x \<Rightarrow> contains_sub x ''/snap/'') then MethodSnap
        else if (case p of None \<Rightarrow> False | Some x \<Rightarrow> contains_sub x ''/Caskroom/'' \<or>
                   contains_sub x ''/Cellar/'' \<or> contains_sub x ''/opt/homebrew/'') then MethodHomebrew
        else if commandSucceeds [''dpkg'', ''-s'', ''pmux''] then MethodDeb
        else if commandSucceeds [''rpm'', ''-q'', ''pmux''] then MethodRPM
        else MethodGitHub)"

definition findAsset :: "ReleaseInfo \<Rightarrow> string \<Rightarrow> string \<Rightarrow> ReleaseAsset option" where
  "findAsset r ext arch =
     find (\<lambda>a. has_suffix (AssetName a) ext \<and> contains_sub (AssetName a) arch) (Assets r)"

section \<open>The updater for direct installs\<close>

type_synonym archive = "(string \<times> bool \<times> bytes option) list \<times> bool"

record upd_env =
  goos :: string
  goarch :: string
  url_parse :: "string \<Rightarrow> (string \<times> string) option"
  http_get :: "string \<Rightarrow> (string list \<times> int \<times> bytes option) option"
  untar :: "bytes \<Rightarrow> archive option"
  unzip :: "bytes \<Rightarrow> archive option"
  base_name :: "string \<Rightarrow> string"
  apply_update :: "bytes \<Rightarrow> bool"

datatype update_error =
    NoArchive string
  | NoChecksums
  | UntrustedURL string
  | DownloadFailed string
  | NoChecksumFor string
  | ChecksumMismatch string string
  | BadArchive
  | BinaryNotFound
  | ApplyFailed
  | BrewNotFound
  | BrewFailed
  | ElevationRequired string
  | NotSupported

definition upper_first :: "string \<Rightarrow> string" where
  "upper_first s = (case s of [] \<Rightarrow> [] | c # cs \<Rightarrow>
     (let n = (of_char c :: nat) in if 97 \<le> n \<and> n \<le> 122 then char_of (n - 32) # cs else c # cs))"

definition archive_name :: "upd_env \<Rightarrow> ReleaseInfo \<Rightarrow> string" where
  "archive_name e r =
     ''pmux-agent_'' @ trim_prefix (TagName r) ''v'' @ ''_'' @ upper_first (goos e) @ ''_'' @
     (if goos e = ''darwin'' then ''universal'' else if goarch e = ''amd64'' then ''x86_64'' else goarch e) @
     (if goos e = ''darwin'' then ''.zip'' else ''.tar.gz'')"

definition matchArchiveName :: "upd_env \<Rightarrow> ReleaseInfo \<Rightarrow> update_error + string" where
  "matchArchiveName e r =
     (let nm = archive_name e r in
      if \<exists>a \<in> set (Assets r). AssetName a = nm then Inr nm else Inl (NoArchive nm))"

definition allowedDownloadHosts :: "string list" where
  "allowedDownloadHosts =
     [''github.com'', ''objects.githubusercontent.com'', ''release-assets.githubusercontent.com'']"

definition trusted_url :: "upd_env \<Rightarrow> string \<Rightarrow> bool" where
  "trusted_url e u \<longleftrightarrow> (case url_parse e u of
      None \<Rightarrow> False
    | Some (scheme, host) \<Rightarrow> host \<in> set allowedDownloadHosts \<and> scheme = ''https'')"

text \<open>\<open>checkDownloadRedirect\<close> is asked for every hop; the first one it refuses ends the
  download.\<close>

definition checkDownloadRedirect :: "upd_env \<Rightarrow> string \<Rightarrow> bool" where
  "checkDownloadRedirect e u = trusted_url e u"

definition download :: "upd_env \<Rightarrow> string \<Rightarrow> nat \<Rightarrow> update_error + bytes" where
  "download e u maxBytes =
     (if \<not> trusted_url e u then Inl (UntrustedURL u)
      else case http_get e u of
        None \<Rightarrow> Inl (DownloadFailed u)
      | Some (hops, status, body) \<Rightarrow>
         if \<not> list_all (checkDownloadRedirect e) hops then Inl (DownloadFailed u)
         else if status \<noteq> 200 then Inl (DownloadFailed u)
         else case body of None \<Rightarrow> Inl (DownloadFailed u) | Some b \<Rightarrow> Inr (take maxBytes b))"

definition find_checksum :: "bytes \<Rightarrow> string \<Rightarrow> string option" where
  "find_checksum d filename =
     map_option (\<lambda>l. str_fields l ! 0)
       (find (\<lambda>l. length (str_fields l) = 2 \<and> str_fields l ! 1 = filename) (scan_lines d))"

definition fetchExpectedChecksum :: "upd_env \<Rightarrow> string \<Rightarrow> string \<Rightarrow> update_error + string" where
  "fetchExpectedChecksum e u filename =
     bindE (download e u (2 ^ 20)) (\<lambda>d.
       case find_checksum d filename of None \<Rightarrow> Inl (NoChecksumFor filename) | Some h \<Rightarrow> Inr h)"

text \<open>The archive readers hand out the entries one by one (name, regular file, contents unless
  reading them fails), then either the end or an error (flag). The first regular file called
  \<open>pmux\<close> is taken, cut at 100 MB.\<close>

definition pick_binary :: "upd_env \<Rightarrow> archive option \<Rightarrow> update_error + bytes" where
  "pick_binary e es =
     (case es of
        None \<Rightarrow> Inl BadArchive
      | Some (l, clean) \<Rightarrow> (case find (\<lambda>(n, reg, _). base_name e n = ''pmux'' \<and> reg) l of
          None \<Rightarrow> Inl (if clean then BinaryNotFound else BadArchive)
        | Some (_, _, None) \<Rightarrow> Inl BadArchive
        | Some (_, _, Some d) \<Rightarrow> Inr (take (100 * 2 ^ 20) d)))"

definition extractBinary :: "upd_env \<Rightarrow> bytes \<Rightarrow> string \<Rightarrow> update_error + bytes" where
  "extractBinary e d nm =
     (if has_suffix nm ''.zip'' then pick_binary e (unzip e d) else pick_binary e (untar e d))"

text \<open>The loop over the assets keeps the last one of each name.\<close>

definition last_asset :: "ReleaseInfo \<Rightarrow> string \<Rightarrow> string" where
  "last_asset r nm =
     (case find (\<lambda>a. AssetName a = nm) (rev (Assets r)) of None \<Rightarrow> '''' | Some a \<Rightarrow> BrowserDownloadURL a)"

text \<open>\<open>Update\<close> of the direct updater: the error, or the binary that was put in place.\<close>

definition github_Update :: "upd_env \<Rightarrow> ReleaseInfo \<Rightarrow> update_error + bytes" where
  "github_Update e r =
     bindE (matchArchiveName e r) (\<lambda>nm.
       let au = last_asset r nm; cu = last_asset r ''checksums.txt'' in
       if au = '''' then Inl (NoArchive nm)
       else if cu = '''' then Inl NoChecksums
       else bindE (fetchExpectedChecksum e cu nm) (\<lambda>expected.
         bindE (download e au (100 * 2 ^ 20)) (\<lambda>d.
           let actual = hex_encode (sha256 d) in
           if actual \<noteq> expected then Inl (ChecksumMismatch expected actual)
           else bindE (extractBinary e d nm) (\<lambda>b.
             if apply_update e b then Inr b else Inl ApplyFailed))))"

datatype updater = HomebrewUpdater | SnapUpdater | DebUpdater | RPMUpdater | GithubUpdater | DevUpdater

fun NewUpdater :: "InstallMethod \<Rightarrow> updater" where
  "NewUpdater MethodHomebrew = HomebrewUpdater"
| "NewUpdater MethodSnap = SnapUpdater"
| "NewUpdater MethodDeb = DebUpdater"
| "NewUpdater MethodRPM = RPMUpdater"
| "NewUpdater MethodGitHub = GithubUpdater"
| "NewUpdater MethodDev = DevUpdater"

definition guided_Update :: "upd_env \<Rightarrow> string \<Rightarrow> string \<Rightarrow> ReleaseInfo \<Rightarrow> update_error" where
  "guided_Update e ext cmd r =
     (case findAsset r ext (goarch e) of
        None \<Rightarrow> NoArchive ext
      | Some a \<Rightarrow> ElevationRequired (''curl -LO '' @ BrowserDownloadURL a @ '' && sudo '' @ cmd @ '' '' @ AssetName a))"

definition deb_Update :: "upd_env \<Rightarrow> ReleaseInfo \<Rightarrow> update_error" where
  "deb_Update e r = guided_Update e ''.deb'' ''dpkg -i'' r"

definition rpm_Update :: "upd_env \<Rightarrow> ReleaseInfo \<Rightarrow> update_error" where
  "rpm_Update e r = guided_Update e ''.rpm'' ''rpm -U'' r"

text \<open>Homebrew, given where \<open>PATH\<close> has \<open>brew\<close> and whether a command line succeeds.\<close>

type_synonym brew_env = "string option \<times> (string list \<Rightarrow> bool)"

definition homebrew_Update :: "brew_env \<Rightarrow> update_error option" where
  "homebrew_Update brew = (case brew of (lookPath, runs) \<Rightarrow>
     (case lookPath of
        None \<Rightarrow> Some BrewNotFound
      | Some brewPath \<Rightarrow> if runs [brewPath, ''upgrade'', ''shiftinbits/tap/pmux''] then None else Some BrewFailed))"

text \<open>\<open>Update\<close> of each updater.\<close>

fun Update :: "upd_env \<Rightarrow> brew_env \<Rightarrow> updater \<Rightarrow> ReleaseInfo \<Rightarrow> update_error option" where
  "Update e brew HomebrewUpdater r = homebrew_Update brew"
| "Update e brew SnapUpdater r = Some (ElevationRequired ''sudo snap refresh pmux'')"
| "Update e brew DebUpdater r = Some (deb_Update e r)"
| "Update e brew RPMUpdater r = Some (rpm_Update e r)"
| "Update e brew GithubUpdater r = (case github_Update e r of Inl err \<Rightarrow> Some err | Inr _ \<Rightarrow> None)"
| "Update e brew DevUpdater r = Some NotSupported"

text \<open>\<open>PrintBannerIfAvailable\<close>: the versions named in the banner, if one is printed.\<close>

definition banner :: "(state_error + State) \<Rightarrow> string \<Rightarrow> (string \<times> string) option" where
  "banner loaded running = (case loaded of
      Inl _ \<Rightarrow> None
    | Inr s \<Rightarrow> if \<not> UpdateAvail s \<or> IsStale s running then None
               else Some (CurrentVersion s, LatestVersion s))"

section \<open>Facts\<close>

text \<open>Comparison is the lexicographic order of the parsed triples.\<close>

lemma CompareVersions_eq:
  "CompareVersions a b =
     (if parseVersion a < parseVersion b then -1 else if parseVersion b < parseVersion a then 1 else 0)"
  by (cases "parseVersion a"; cases "parseVersion b")
    (auto simp: CompareVersions_def less_prod_simp)

lemma parseVersion_suffix:
  assumes "CHR ''.'' \<notin> set x" "CHR ''-'' \<notin> set x" "CHR ''.'' \<notin> set y" "CHR ''-'' \<notin> set y"
    and "CHR ''-'' \<notin> set z" "x = [] \<or> hd x \<noteq> CHR ''v''"
  shows "parseVersion (x @ ''.'' @ y @ ''.'' @ z @ ''-'' @ pre) = parseVersion (x @ ''.'' @ y @ ''.'' @ z)"
proof -
  have j: "splitN (CHR ''.'') 3 (x @ ''.'' @ y @ ''.'' @ t) = [x, y, t]" for t
    using splitN_join [of "[x, y, t]" "CHR ''.''"] assms(1,3) by (simp add: eval_nat_numeral)
  have v: "trim_prefix (x @ ''.'' @ t) ''v'' = x @ ''.'' @ t" for t
    using assms(6) by (cases x) (simp_all add: trim_prefix_def)
  have c: "version_part (z @ ''-'' @ pre) = version_part z"
    using assms(5) splitN_join [of "[z, pre]" "CHR ''-''"] by (simp add: version_part_def eval_nat_numeral)
  show ?thesis using j v c by (simp add: parseVersion_def Let_def)
qed

lemma download_Inr:
  assumes "download e u n = Inr d"
  obtains hops body where "trusted_url e u" "http_get e u = Some (hops, 200, Some body)"
    "list_all (trusted_url e) hops" "d = take n body"
  using assms
  by (auto simp: download_def checkDownloadRedirect_def [abs_def] split: if_splits option.splits prod.splits)

lemma find_checksum_line:
  "find_checksum d nm = Some h \<Longrightarrow> \<exists>l \<in> set (scan_lines d). str_fields l = [h, nm]"
  by (auto simp: find_checksum_def find_Some_iff length_Suc_conv eval_nat_numeral)

section \<open>Properties\<close>

text \<open>\<open>CompareVersions\<close> orders versions: it is reflexive, reverses sign when its
  arguments are swapped, and is transitive, on all strings; a pre-release suffix of the
  patch number does not change the result.\<close>

theorem CompareVersions_order:
  "CompareVersions a a = 0 \<and> CompareVersions b a = - CompareVersions a b \<and>
   (CompareVersions a b \<le> 0 \<longrightarrow> CompareVersions b c \<le> 0 \<longrightarrow> CompareVersions a c \<le> 0) \<and>
   (CompareVersions a b < 0 \<longrightarrow> CompareVersions b c \<le> 0 \<longrightarrow> CompareVersions a c < 0)"
  by (auto simp: CompareVersions_eq split: if_splits)

lemma splitN_3: "splitN c 3 s = splitN c (Suc (Suc (Suc 0))) s"
  by (simp add: eval_nat_numeral)

lemma splitN_2: "splitN c 2 s = splitN c (Suc (Suc 0)) s"
  by (simp add: eval_nat_numeral)

lemmas version_eval = parseVersion_def trim_prefix_def version_part_def splitN_3 splitN_2 parse_int_def
  parse_uint_def digit_val_def max_int64_def min_int64_def Let_def

theorem CompareVersions_order_witness:
  "CompareVersions ''v1.2.3'' ''1.10.0-rc1'' < 0 \<and> CompareVersions ''1.10.0-rc1'' ''1.10.0'' = 0 \<and>
   CompareVersions ''v1.2.3'' ''1.10.0'' < 0"
proof -
  have "CompareVersions ''v1.2.3'' ''1.10.0-rc1'' < 0" "CompareVersions ''1.10.0-rc1'' ''1.10.0'' = 0"
    by (simp_all add: CompareVersions_def version_eval)
  with CompareVersions_order [of "''v1.2.3''" "''1.10.0-rc1''" "''1.10.0''"] show ?thesis by simp
qed


text \<open>The state file is replaced as a whole or not at all: whichever file operation
  fails, the file holds its old contents or the complete new ones, and no other file but the
  temporary one changes; the temporary file is left behind only when the rename fails.\<close>

theorem SaveState_atomic:
  assumes "tmp \<noteq> path" and "f tmp = None"
  shows "let (err, f') = SaveState marshal e tmp path s f in
    (case err of None \<Rightarrow> f' path = marshal s \<and> marshal s \<noteq> None | Some _ \<Rightarrow> f' path = f path) \<and>
    (\<forall>q. q \<noteq> path \<and> q \<noteq> tmp \<longrightarrow> f' q = f q) \<and>
    (err \<noteq> Some RenameFailed \<longrightarrow> f' tmp = None)"
  using assms by (auto simp: SaveState_def Let_def split: option.split)

theorem SaveState_atomic_witness:
  "snd (SaveState (\<lambda>_. Some ''new'') \<lparr>se_create = True, se_write = True, se_chmod = False, se_close = True,
      se_rename = True\<rparr> ''t'' ''p'' zero_state [''p'' \<mapsto> ''old'']) ''p'' = Some ''old''"
  using SaveState_atomic [of "''t''" "''p''" "[''p'' \<mapsto> ''old'']" "\<lambda>_. Some ''new''"
      "\<lparr>se_create = True, se_write = True, se_chmod = False, se_close = True, se_rename = True\<rparr>" zero_state]
  by (simp add: SaveState_def)

text \<open>A version with one malformed component is not treated as 0.0.0: only that
  component counts as 0.\<close>

theorem malformed_component: "parseVersion ''1.x.3'' = (1, 0, 3)"
  by (simp add: version_eval)

text \<open>A release whose archive matches its checksum, for the witness.\<close>

definition demo_release :: ReleaseInfo where
  "demo_release = \<lparr>TagName = ''v1.0.0'', HTMLURL = '''',
     Assets = [\<lparr>AssetName = ''pmux-agent_1.0.0_Linux_x86_64.tar.gz'', BrowserDownloadURL = ''a''\<rparr>,
               \<lparr>AssetName = ''checksums.txt'', BrowserDownloadURL = ''c''\<rparr>]\<rparr>"

definition demo_env :: upd_env where
  "demo_env = \<lparr>goos = ''linux'', goarch = ''amd64'', url_parse = (\<lambda>_. Some (''https'', ''github.com'')),
     http_get = (\<lambda>u. Some ([], 200, Some (if u = ''a'' then ''archive''
       else hex_encode (sha256 ''archive'') @ ''  pmux-agent_1.0.0_Linux_x86_64.tar.gz''))),
     untar = (\<lambda>_. Some ([(''pmux'', True, Some ''binary'')], True)), unzip = (\<lambda>_. None),
     base_name = (\<lambda>n. n), apply_update = (\<lambda>_. True)\<rparr>"

definition plain_byte :: "char \<Rightarrow> bool" where
  "plain_byte c \<longleftrightarrow> c \<notin> set (map hd space_runes)"

lemma find_space_None: "plain_byte c \<Longrightarrow> find (has_prefix (c # cs)) space_runes = None"
  by (simp add: plain_byte_def space_runes_def)

lemma str_fields_plain:
  "\<forall>c \<in> set s. plain_byte c \<Longrightarrow> str_fields_from (s @ t) acc = str_fields_from t (rev s @ acc)"
  by (induction s arbitrary: acc) (simp_all add: find_space_None)

lemma str_fields_space: "str_fields_from (CHR 0x20 # t) acc = (if acc = [] then [] else [rev acc]) @ str_fields_from t []"
  by (simp add: space_runes_def)

lemma str_fields_pair:
  assumes "\<forall>c \<in> set a. plain_byte c" "\<forall>c \<in> set b. plain_byte c" "a \<noteq> []" "b \<noteq> []"
  shows "str_fields (a @ CHR 0x20 # CHR 0x20 # b) = [a, b]"
proof -
  have b: "str_fields_from b [] = [b]" using str_fields_plain [of b "[]" "[]"] assms by simp
  have "str_fields (a @ CHR 0x20 # CHR 0x20 # b) = str_fields_from (CHR 0x20 # CHR 0x20 # b) (rev a)"
    using assms(1) by (simp only: str_fields_def str_fields_plain) simp
  with assms(3) b show ?thesis by (simp only: str_fields_space) simp
qed

lemma hex_plain: "is_lower_hex c \<Longrightarrow> plain_byte c"
  by (auto simp: plain_byte_def space_runes_def is_lower_hex_def)

lemma name_plain: "\<forall>c \<in> set ''pmux-agent_1.0.0_Linux_x86_64.tar.gz''. plain_byte c"
  by (simp add: plain_byte_def space_runes_def)

lemma demo_checksum:
  "find_checksum (hex_encode (sha256 ''archive'') @ ''  pmux-agent_1.0.0_Linux_x86_64.tar.gz'')
     ''pmux-agent_1.0.0_Linux_x86_64.tar.gz'' = Some (hex_encode (sha256 ''archive''))"
proof -
  let ?h = "hex_encode (sha256 ''archive'')" and ?n = "''pmux-agent_1.0.0_Linux_x86_64.tar.gz''"
  let ?l = "?h @ CHR 0x20 # CHR 0x20 # ?n"
  have hp: "\<forall>c \<in> set ?h. is_lower_hex c" by (simp add: hex_encode_lower)
  have len: "length ?h = 64" by (simp add: length_hex_encode)
  have "str_fields ?l = [?h, ?n]"
    using hp hex_plain name_plain len by (intro str_fields_pair) auto
  moreover have "CHR 0x0A \<notin> set ?l" using hp by (auto simp: is_lower_hex_def)
  then have "scan_lines ?l = [?l]"
    using len by (simp add: scan_lines_def split_on_plain Let_def)
  ultimately show ?thesis by (simp add: find_checksum_def)
qed

lemma upper_linux: "upper_first ''linux'' = ''Linux''"
  by code_simp

lemma demo_update: "github_Update demo_env demo_release = Inr ''binary''"
  using demo_checksum
  by (simp add: github_Update_def matchArchiveName_def archive_name_def demo_env_def demo_release_def
      trim_prefix_def upper_linux last_asset_def fetchExpectedChecksum_def download_def
      trusted_url_def allowedDownloadHosts_def extractBinary_def has_suffix_def pick_binary_def
      length_hex_encode Let_def)


end
