(* ===== verification/Handler.thy ===== *)
theory Handler
  imports Pane_Bridge Title_Filter Update
begin

text \<open>
  \<open>internal/agent/handler.go\<close> and \<open>cleanup.go\<close>: the handler turns a peer's requests into tmux
  operations and streams pane output back. Its maps are keyed by peer; a stream (goroutine
  \<open>streamOutput\<close>, its context and its done channel) is named by a number, since the code
  compares done channels by identity.

  Each request is one operation, and one round of a stream's loop is one operation. A detach
  that waits for a stream lets that stream do what a cancelled stream does, namely return.
  Sends are logged with their success; whether a send succeeds, the compressor, the update
  state and the clock come from the environment.

  Shown here: in every sequence of requests, stream rounds, disconnects and sweeps, the
  attached peers are exactly those with one live stream over an open bridge to their pane;
  a window stays forced to the mobile's size only while a peer is attached to it; input
  reaches only the sender's own pane; after a detach nothing of the old session is left.
\<close>

section \<open>State and environment\<close>

record stream =
  st_peer :: peer_id
  st_bridge :: nat
  st_filter :: TitleFilter
  st_deflate :: "bytes list option"

record 'w handler =
  hb :: "'w bsys"
  trk :: tracker
  bridges :: "peer_id \<rightharpoonup> nat"
  cancels :: "peer_id \<rightharpoonup> nat"
  streamDone :: "peer_id \<rightharpoonup> nat"
  superseded :: "nat set"
  paneForPeer :: "peer_id \<rightharpoonup> pane_id"
  lastPingTime :: "peer_id \<rightharpoonup> int"
  lastDims :: "peer_id \<rightharpoonup> int \<times> int"
  exitNotified :: "peer_id set"
  canceled :: "nat set"
  streams :: "nat \<rightharpoonup> stream"
  nextsid :: nat
  outs :: "(peer_id \<times> message \<times> bool) list"

record 'w henv =
  ex :: "'w exec"
  sendOK :: "peer_id \<Rightarrow> message \<Rightarrow> bool"
  osys :: os_setup
  quote :: "string \<Rightarrow> string"
  deflate :: "bytes list \<Rightarrow> bytes \<Rightarrow> bytes option"
  clock :: int
  updState :: "state_error + State"
  agentVersion :: string

definition NewHandler :: "'w bsys \<Rightarrow> 'w handler" where
  "NewHandler s = \<lparr>hb = s, trk = NewPaneSizeTracker, bridges = Map.empty, cancels = Map.empty,
     streamDone = Map.empty, superseded = {}, paneForPeer = Map.empty, lastPingTime = Map.empty,
     lastDims = Map.empty, exitNotified = {}, canceled = {}, streams = Map.empty, nextsid = 0,
     outs = []\<rparr>"

section \<open>Sending\<close>

definition sendMsg :: "'w henv \<Rightarrow> peer_id \<Rightarrow> message \<Rightarrow> 'w handler \<Rightarrow> bool \<times> 'w handler" where
  "sendMsg e p m h = (sendOK e p m, h\<lparr>outs := outs h @ [(p, m, sendOK e p m)]\<rparr>)"

definition sendError :: "'w henv \<Rightarrow> peer_id \<Rightarrow> string \<Rightarrow> string \<Rightarrow> 'w handler \<Rightarrow> 'w handler" where
  "sendError e p code txt h = snd (sendMsg e p (ErrorEvent ''error'' code txt) h)"

definition sendOutput :: "'w henv \<Rightarrow> peer_id \<Rightarrow> bytes \<Rightarrow> 'w handler \<Rightarrow> bool \<times> 'w handler" where
  "sendOutput e p d h = sendMsg e p (OutputEvent ''output'' d) h"

definition newSessionsEvent :: "'w henv \<Rightarrow> TmuxSession list \<Rightarrow> message" where
  "newSessionsEvent e ss = SessionsEvent ''sessions'' ss (agentVersion e)
     (case updState e of
        Inl _ \<Rightarrow> ''''
      | Inr s \<Rightarrow> if UpdateAvail s \<and> \<not> IsStale s (agentVersion e) then LatestVersion s else '''')"

text \<open>Calls into the tmux client and the size tracker.\<close>

definition on_client ::
  "('w client \<Rightarrow> 'r \<times> 'w client) \<Rightarrow> 'w handler \<Rightarrow> 'r \<times> 'w handler" where
  "on_client f h = (case f (cl (hb h)) of (r, c1) \<Rightarrow> (r, h\<lparr>hb := (hb h)\<lparr>cl := c1\<rparr>\<rparr>))"

definition on_tracker ::
  "(tracker \<times> 'w client \<Rightarrow> 'r \<times> tracker \<times> 'w client) \<Rightarrow> 'w handler \<Rightarrow> 'r \<times> 'w handler" where
  "on_tracker f h =
     (case f (trk h, cl (hb h)) of (r, t1, c1) \<Rightarrow> (r, h\<lparr>trk := t1, hb := (hb h)\<lparr>cl := c1\<rparr>\<rparr>))"

section \<open>Detaching\<close>

definition endStream :: "peer_id \<Rightarrow> nat \<Rightarrow> 'w handler \<Rightarrow> 'w handler" where
  "endStream p sid h =
     h\<lparr>streamDone := (if streamDone h p = Some sid then (streamDone h)(p := None) else streamDone h),
       superseded := superseded h - {sid}, streams := (streams h)(sid := None)\<rparr>"

text \<open>The locked part, the cancellation, the closing of the bridge, the wait, the release.\<close>

definition detach_locked :: "peer_id \<Rightarrow> bool \<Rightarrow> 'w handler \<Rightarrow> 'w handler" where
  "detach_locked p wait h =
     (let h1 = (case streamDone h p of
                  Some sid \<Rightarrow> if wait then h\<lparr>superseded := insert sid (superseded h)\<rparr> else h
                | None \<Rightarrow> h)
      in if bridges h p \<noteq> None
         then h1\<lparr>bridges := (bridges h1)(p := None), cancels := (cancels h1)(p := None),
                 paneForPeer := (paneForPeer h1)(p := None), lastDims := (lastDims h1)(p := None),
                 exitNotified := exitNotified h1 - {p}\<rparr>
         else h1)"

definition await_stream :: "peer_id \<Rightarrow> nat option \<Rightarrow> 'w handler \<Rightarrow> 'w handler" where
  "await_stream p sid h = (case sid of
      None \<Rightarrow> h
    | Some s \<Rightarrow> if streams h s \<noteq> None \<and> s \<in> canceled h then endStream p s h else h)"

definition detachPeerWait :: "'w henv \<Rightarrow> peer_id \<Rightarrow> bool \<Rightarrow> 'w handler \<Rightarrow> 'w handler" where
  "detachPeerWait e p wait h =
     (let b = bridges h p; c = cancels h p; pane = paneForPeer h p; dn = streamDone h p;
          h1 = detach_locked p wait h;
          h2 = (case c of None \<Rightarrow> h1 | Some sid \<Rightarrow> h1\<lparr>canceled := insert sid (canceled h1)\<rparr>);
          h3 = (case b of None \<Rightarrow> h2 | Some a \<Rightarrow> h2\<lparr>hb := Close (ex e) a (hb h2)\<rparr>);
          h4 = (if wait then await_stream p dn h3 else h3)
      in case pane of
           None \<Rightarrow> h4
         | Some q \<Rightarrow> snd (on_tracker (ReleaseIfForced (ex e) q) h4))"

definition detachPeer :: "'w henv \<Rightarrow> peer_id \<Rightarrow> 'w handler \<Rightarrow> 'w handler" where
  "detachPeer e p h = detachPeerWait e p True h"

definition PeerDisconnected :: "'w henv \<Rightarrow> peer_id \<Rightarrow> 'w handler \<Rightarrow> 'w handler" where
  "PeerDisconnected e p h = detachPeer e p (h\<lparr>lastPingTime := (lastPingTime h)(p := None)\<rparr>)"

definition resetStream :: "'w henv \<Rightarrow> peer_id \<Rightarrow> nat \<Rightarrow> string \<Rightarrow> 'w handler \<Rightarrow> 'w handler" where
  "resetStream e p sid reason h =
     (let h1 = detachPeerWait e p False h in
      if sid \<in> superseded h1 then h1 else sendError e p ''stream_reset'' reason h1)"

definition handlePaneExit :: "'w henv \<Rightarrow> peer_id \<Rightarrow> bool \<Rightarrow> 'w handler \<Rightarrow> 'w handler" where
  "handlePaneExit e p wait h =
     (case paneForPeer h p of
        None \<Rightarrow> h
      | Some pane \<Rightarrow>
         if pane = '''' \<or> p \<in> exitNotified h then h
         else
           let h1 = h\<lparr>exitNotified := insert p (exitNotified h)\<rparr>;
               h2 = snd (sendMsg e p (PaneClosedEvent ''pane_closed'' pane) h1);
               (r, h3) = on_client (ListAll (ex e)) h2;
               h4 = (case r of Inl _ \<Rightarrow> h3
                     | Inr ss \<Rightarrow> snd (sendMsg e p (newSessionsEvent e (toProtocolSessions ss)) h3))
           in detachPeerWait e p wait h4)"

section \<open>Requests\<close>

definition all_panes :: "Session list \<Rightarrow> string list" where
  "all_panes ss = concat (map (\<lambda>s. concat (map (\<lambda>w. map pane_ID (win_Panes w)) (ses_Windows s))) ss)"

definition handleListSessions :: "'w henv \<Rightarrow> peer_id \<Rightarrow> 'w handler \<Rightarrow> 'w handler" where
  "handleListSessions e p h =
     (case on_client (ListAll (ex e)) h of
        (Inl _, h1) \<Rightarrow> sendError e p ''list_sessions_failed'' ''failed to list sessions'' h1
      | (Inr ss, h1) \<Rightarrow>
         let h2 = (case paneForPeer h1 p of
                     None \<Rightarrow> h1
                   | Some pane \<Rightarrow>
                      if pane \<noteq> '''' \<and> pane \<notin> set (all_panes ss)
                      then detachPeer e p (snd (sendMsg e p (PaneClosedEvent ''pane_closed'' pane) h1))
                      else h1)
         in snd (sendMsg e p (newSessionsEvent e (toProtocolSessions ss)) h2))"

definition handleDetach :: "'w henv \<Rightarrow> peer_id \<Rightarrow> 'w handler \<Rightarrow> 'w handler" where
  "handleDetach e p h = snd (sendMsg e p (DetachedEvent ''detached'') (detachPeer e p h))"

definition handleInput :: "'w henv \<Rightarrow> peer_id \<Rightarrow> bytes \<Rightarrow> 'w handler \<Rightarrow> 'w handler" where
  "handleInput e p d h =
     (if length d > MaxInputSize then sendError e p ''input_too_large''
        (''input size '' @ itoa (int (length d)) @ '' exceeds '' @ itoa (int MaxInputSize) @ '' byte limit'') h
      else case bridges h p of
        None \<Rightarrow> sendError e p ''not_attached'' ''no pane attached'' h
      | Some b \<Rightarrow>
         (case Write (ex e) b d (hb h) of
            (Inr _, s1) \<Rightarrow> h\<lparr>hb := s1\<rparr>
          | (Inl _, s1) \<Rightarrow> sendError e p ''input_failed'' ''failed to send input'' (h\<lparr>hb := s1\<rparr>)))"

definition dims_ok :: "int \<Rightarrow> int \<Rightarrow> bool" where
  "dims_ok cols rows \<longleftrightarrow> MinDimension \<le> cols \<and> cols \<le> MaxDimension \<and> MinDimension \<le> rows \<and> rows \<le> MaxDimension"

definition dims_message :: "int \<Rightarrow> int \<Rightarrow> string" where
  "dims_message cols rows = ''dimensions out of range: cols='' @ itoa cols @ '' rows='' @ itoa rows @
     '' (must be '' @ itoa MinDimension @ ''-'' @ itoa MaxDimension @ '')''"

definition handleResize :: "'w henv \<Rightarrow> peer_id \<Rightarrow> int \<Rightarrow> int \<Rightarrow> 'w handler \<Rightarrow> 'w handler" where
  "handleResize e p cols rows h =
     (if \<not> dims_ok cols rows then sendError e p ''resize_failed'' (dims_message cols rows) h
      else case bridges h p of
        None \<Rightarrow> sendError e p ''not_attached'' ''no pane attached'' h
      | Some b \<Rightarrow>
         if lastDims h p = Some (cols, rows) then h
         else (case Resize (ex e) b cols rows (hb h) of
                 (Inl _, s1) \<Rightarrow> sendError e p ''resize_failed'' ''failed to resize pane'' (h\<lparr>hb := s1\<rparr>)
               | (Inr _, s1) \<Rightarrow> h\<lparr>hb := s1, lastDims := (lastDims h)(p \<mapsto> (cols, rows))\<rparr>))"

definition handlePing :: "'w henv \<Rightarrow> peer_id \<Rightarrow> 'w handler \<Rightarrow> 'w handler" where
  "handlePing e p h =
     snd (sendMsg e p (PongEvent ''pong'' 0) (h\<lparr>lastPingTime := (lastPingTime h)(p \<mapsto> clock e)\<rparr>))"

definition handleKillSession :: "'w henv \<Rightarrow> peer_id \<Rightarrow> string \<Rightarrow> 'w handler \<Rightarrow> 'w handler" where
  "handleKillSession e p s h =
     (if \<not> ValidTmuxTarget s
      then sendError e p ''kill_session_failed'' (''invalid session ID: '' @ quote e s) h
      else case on_client (KillSession (ex e) s) h of
        (Inl _, h1) \<Rightarrow> sendError e p ''kill_session_failed'' ''failed to kill session'' h1
      | (Inr _, h1) \<Rightarrow> snd (sendMsg e p (SessionEndedEvent ''session_ended'' s) h1))"

definition handleCreateSession :: "'w henv \<Rightarrow> peer_id \<Rightarrow> 'w handler \<Rightarrow> 'w handler" where
  "handleCreateSession e p h =
     (case on_client (CreateSession (ex e) '''' '''') h of
        (Inl _, h1) \<Rightarrow> sendError e p ''create_session_failed'' ''failed to create session'' h1
      | (Inr sid, h1) \<Rightarrow>
         (case on_client (ListAll (ex e)) h1 of
            (Inl _, h2) \<Rightarrow> sendError e p ''create_session_failed'' ''session created but failed to fetch details'' h2
          | (Inr ss, h2) \<Rightarrow>
             (case find (\<lambda>s. ts_ID s = sid) (toProtocolSessions ss) of
                None \<Rightarrow> sendError e p ''create_session_failed'' ''session created but not found in session list'' h2
              | Some s \<Rightarrow> snd (sendMsg e p (SessionCreatedEvent ''session_created'' s) h2))))"

section \<open>Attaching\<close>

definition csi :: "string \<Rightarrow> string" where "csi s = CHR 0x1B # CHR ''['' # s"

text \<open>The bytes sent before the stream starts: mode, and on a re-attach the captured screen and
  the cursor. \<open>None\<close> when nothing is sent.\<close>

definition pre_stream :: "bool \<Rightarrow> string \<Rightarrow> (tmux_error + PaneCursorState) \<Rightarrow> bytes option" where
  "pre_stream reattach initial cs =
     (let alt = (case cs of Inl _ \<Rightarrow> [] | Inr c \<Rightarrow> if AlternateOn c then csi ''?1049h'' else []);
          hide = (\<lambda>c. if \<not> CursorVisible c then csi ''?25l'' else [])
      in if reattach then
           (if initial = '''' then None
            else Some (alt @ initial @ (case cs of Inl _ \<Rightarrow> []
              | Inr c \<Rightarrow> csi (itoa (CursorY c + 1) @ '';'' @ itoa (CursorX c + 1) @ ''H'') @ hide c)))
         else (case cs of
             Inl _ \<Rightarrow> None
           | Inr c \<Rightarrow> if AlternateOn c \<or> \<not> CursorVisible c then Some (alt @ hide c) else None))"

text \<open>A failed pre-stream send ends the attachment and releases the stream's done channel.\<close>

definition sendPreStream ::
  "'w henv \<Rightarrow> peer_id \<Rightarrow> nat \<Rightarrow> bytes list option \<Rightarrow> bytes \<Rightarrow> 'w handler \<Rightarrow> bool \<times> 'w handler" where
  "sendPreStream e p sid z d h =
     (case (case z of None \<Rightarrow> Some d | Some hist \<Rightarrow> deflate e hist d) of
        None \<Rightarrow> (False, resetStream e p sid ''output compression failed; re-attach'' h)
      | Some d1 \<Rightarrow>
         (case sendOutput e p d1 h of
            (True, h1) \<Rightarrow> (True, h1)
          | (False, h1) \<Rightarrow> (False, resetStream e p sid ''output stream stalled; re-attach'' h1)))"

definition register_stream ::
  "peer_id \<Rightarrow> pane_id \<Rightarrow> int \<Rightarrow> int \<Rightarrow> nat \<Rightarrow> bool \<Rightarrow> 'w handler \<Rightarrow> 'w handler" where
  "register_stream p pane cols rows b z h =
     h\<lparr>bridges := (bridges h)(p \<mapsto> b), cancels := (cancels h)(p \<mapsto> nextsid h),
       streamDone := (streamDone h)(p \<mapsto> nextsid h), paneForPeer := (paneForPeer h)(p \<mapsto> pane),
       lastDims := (lastDims h)(p \<mapsto> (cols, rows)),
       streams := (streams h)(nextsid h \<mapsto> \<lparr>st_peer = p, st_bridge = b, st_filter = NewTitleFilter,
                                            st_deflate = (if z then Some [] else None)\<rparr>),
       nextsid := Suc (nextsid h)\<rparr>"

text \<open>After the bridge is open: register, announce, synchronise the mode, and leave the stream
  running; or give it up.\<close>

definition start_stream ::
  "'w henv \<Rightarrow> peer_id \<Rightarrow> pane_id \<Rightarrow> int \<Rightarrow> int \<Rightarrow> bool \<Rightarrow> bool \<Rightarrow> nat \<Rightarrow> 'w handler \<Rightarrow> 'w handler" where
  "start_stream e p pane cols rows reattach z b h =
     (let sid = nextsid h;
          h1 = register_stream p pane cols rows b z h;
          h2 = snd (sendMsg e p (AttachedEvent ''attached'' pane (if z then ''deflate'' else '''')) h1);
          (cs, h3) = on_client (CursorState (ex e) pane) h2;
          initial = (case heap (hb h3) b of None \<Rightarrow> '''' | Some pb \<Rightarrow> initialContent pb)
      in case pre_stream reattach initial cs of
           None \<Rightarrow> h3
         | Some d \<Rightarrow>
            (case sendPreStream e p sid (if z then Some [] else None) d h3 of
               (False, h4) \<Rightarrow> endStream p sid h4
             | (True, h4) \<Rightarrow>
                (if z then h4\<lparr>streams := (streams h4)(sid := map_option (\<lambda>s. s\<lparr>st_deflate := Some [d]\<rparr>) (streams h4 sid))\<rparr>
                 else h4)))"

definition attach_failed :: "'w henv \<Rightarrow> peer_id \<Rightarrow> pane_id \<Rightarrow> bool \<Rightarrow> 'w handler \<Rightarrow> 'w handler" where
  "attach_failed e p pane sizeTracked h =
     (let h1 = (if sizeTracked then snd (on_tracker (ReleaseIfForced (ex e) pane) h) else h);
          (exists', h2) = on_client (PaneExists (ex e) pane) h1
      in if \<not> exists' then
           (let h3 = snd (sendMsg e p (PaneClosedEvent ''pane_closed'' pane) h2)
            in case on_client (ListAll (ex e)) h3 of
                 (Inl _, h4) \<Rightarrow> h4
               | (Inr ss, h4) \<Rightarrow> snd (sendMsg e p (newSessionsEvent e (toProtocolSessions ss)) h4))
         else sendError e p ''attach_failed'' ''failed to attach pane'' h2)"

definition handleAttach ::
  "'w henv \<Rightarrow> peer_id \<Rightarrow> pane_id \<Rightarrow> int \<Rightarrow> int \<Rightarrow> bool \<Rightarrow> string \<Rightarrow> 'w handler \<Rightarrow> 'w handler" where
  "handleAttach e p pane cols rows reattach compression h =
     (if \<not> ValidTmuxTarget pane
      then sendError e p ''attach_failed'' (''invalid pane ID: '' @ quote e pane) h
      else if \<not> dims_ok cols rows then sendError e p ''attach_failed'' (dims_message cols rows) h
      else
        let h1 = detachPeer e p h;
            (rz, h2) = on_tracker (TrackAndResize (ex e) pane cols rows) h1
        in case AttachPane (ex e) (osys e) pane 0 0 (hb h2) of
             (Inl _, s1) \<Rightarrow> attach_failed e p pane (isOK rz) (h2\<lparr>hb := s1\<rparr>)
           | (Inr b, s1) \<Rightarrow>
              start_stream e p pane cols rows reattach (compression = ''deflate'') b (h2\<lparr>hb := s1\<rparr>))"

text \<open>The dispatch on the message's type; other messages are only logged.\<close>

fun HandleMessage :: "'w henv \<Rightarrow> peer_id \<Rightarrow> message \<Rightarrow> 'w handler \<Rightarrow> 'w handler" where
  "HandleMessage e p (ListSessionsRequest _) h = handleListSessions e p h"
| "HandleMessage e p (AttachRequest _ pane cols rows re z) h = handleAttach e p pane cols rows re z h"
| "HandleMessage e p (DetachRequest _) h = handleDetach e p h"
| "HandleMessage e p (InputRequest _ d) h = handleInput e p d h"
| "HandleMessage e p (ResizeRequest _ cols rows) h = handleResize e p cols rows h"
| "HandleMessage e p (PingRequest _) h = handlePing e p h"
| "HandleMessage e p (KillSessionRequest _ s) h = handleKillSession e p s h"
| "HandleMessage e p (CreateSessionRequest _) h = handleCreateSession e p h"
| "HandleMessage e p _ h = h"

section \<open>Streaming\<close>

text \<open>One round of \<open>streamOutput\<close>'s loop; when the loop ends the deferred \<open>endStream\<close> runs. A read
  that would block leaves everything as it is.\<close>

definition stream_round :: "'w henv \<Rightarrow> nat \<Rightarrow> 'w handler \<Rightarrow> 'w handler" where
  "stream_round e sid h = (case streams h sid of
      None \<Rightarrow> h
    | Some st \<Rightarrow>
       let p = st_peer st in
       if sid \<in> canceled h then endStream p sid h
       else case Read 4096 (st_bridge st) (hb h) of
         (None, _) \<Rightarrow> h
       | (Some (Inl err), s1) \<Rightarrow>
           (let h1 = h\<lparr>hb := s1\<rparr> in
            if err = ErrBridgeDisplaced
            then endStream p sid (resetStream e p sid ''pane attached elsewhere; re-attach'' h1)
            else endStream p sid (handlePaneExit e p False h1))
       | (Some (Inr raw), s1) \<Rightarrow>
           (let (data, f1) = Filter (st_filter st) raw;
                h1 = h\<lparr>hb := s1, streams := (streams h)(sid \<mapsto> st\<lparr>st_filter := f1\<rparr>)\<rparr>
            in if data = [] then h1
               else case (case st_deflate st of None \<Rightarrow> Some data | Some hist \<Rightarrow> deflate e hist data) of
                 None \<Rightarrow> endStream p sid (resetStream e p sid ''output compression failed; re-attach'' h1)
               | Some d1 \<Rightarrow>
                  (case sendOutput e p d1 h1 of
                     (True, h2) \<Rightarrow>
                       h2\<lparr>streams := (streams h2)(sid := map_option
                            (\<lambda>x. x\<lparr>st_deflate := map_option (\<lambda>hist. hist @ [data]) (st_deflate x)\<rparr>) (streams h2 sid))\<rparr>
                   | (False, h2) \<Rightarrow>
                       endStream p sid (resetStream e p sid ''output stream stalled; re-attach'' h2))))"

text \<open>One tick of \<open>watchPane\<close>.\<close>

definition watch_tick :: "'w henv \<Rightarrow> peer_id \<Rightarrow> pane_id \<Rightarrow> nat \<Rightarrow> 'w handler \<Rightarrow> 'w handler" where
  "watch_tick e p pane sid h =
     (if sid \<in> canceled h then h
      else case on_client (PaneExists (ex e) pane) h of
        (True, h1) \<Rightarrow> h1
      | (False, h1) \<Rightarrow> handlePaneExit e p True h1)"

section \<open>The cleaner\<close>

definition is_stale_peer :: "int \<Rightarrow> int \<Rightarrow> 'w handler \<Rightarrow> peer_id \<Rightarrow> bool" where
  "is_stale_peer now timeout h p \<longleftrightarrow>
     (case lastPingTime h p of None \<Rightarrow> False | Some t \<Rightarrow> now - t > timeout)"

text \<open>\<open>GetStalePeers\<close> over the known peers \<open>ps\<close> (Go iterates over the map in any order).\<close>

definition GetStalePeers :: "int \<Rightarrow> int \<Rightarrow> peer_id list \<Rightarrow> 'w handler \<Rightarrow> peer_id list" where
  "GetStalePeers now timeout ps h = filter (is_stale_peer now timeout h) ps"

text \<open>\<open>sweep\<close>: the peers handed to \<open>disconnect\<close>; \<open>disconnect\<close> cleans up here only those the peer
  manager does not track.\<close>

definition sweep_targets :: "int \<Rightarrow> int \<Rightarrow> peer_id list \<Rightarrow> (peer_id \<times> string) list \<Rightarrow> 'w handler \<Rightarrow> peer_id list" where
  "sweep_targets now timeout ps states h =
     (let stale = GetStalePeers now timeout ps h
      in stale @ map fst (filter (\<lambda>(p, s). p \<notin> set stale \<and> (s = ''failed'' \<or> s = ''closed'')) states))"

definition disconnect :: "'w henv \<Rightarrow> (peer_id \<Rightarrow> bool) \<Rightarrow> peer_id \<Rightarrow> 'w handler \<Rightarrow> 'w handler" where
  "disconnect e tracked p h = (if tracked p then h else PeerDisconnected e p h)"

definition sweep ::
  "'w henv \<Rightarrow> (peer_id \<Rightarrow> bool) \<Rightarrow> int \<Rightarrow> peer_id list \<Rightarrow> (peer_id \<times> string) list \<Rightarrow> 'w handler \<Rightarrow> 'w handler" where
  "sweep e tracked timeout ps states h =
     fold (disconnect e tracked) (sweep_targets (clock e) timeout ps states h) h"

section \<open>The invariant\<close>

text \<open>What the handler relies on of a bridge: its pane and whether it was closed.\<close>

definition bview :: "'w bsys \<Rightarrow> nat \<Rightarrow> (pane_id \<times> bool) option" where
  "bview s a = map_option (\<lambda>pb. (paneID pb, closed pb)) (heap s a)"

definition wf_heap :: "'w bsys \<Rightarrow> bool" where
  "wf_heap s \<longleftrightarrow> (\<forall>b\<ge>nextb s. heap s b = None)"

definition attached :: "'w handler \<Rightarrow> peer_id \<Rightarrow> nat \<Rightarrow> nat \<Rightarrow> pane_id \<Rightarrow> bool" where
  "attached h p b sid pane \<longleftrightarrow>
     bridges h p = Some b \<and> cancels h p = Some sid \<and> streamDone h p = Some sid \<and>
     paneForPeer h p = Some pane \<and> lastDims h p \<noteq> None \<and> pane \<noteq> '''' \<and>
     (\<exists>st. streams h sid = Some st \<and> st_peer st = p \<and> st_bridge st = b) \<and>
     sid \<notin> canceled h \<and> bview (hb h) b = Some (pane, False)"

definition detached :: "'w handler \<Rightarrow> peer_id \<Rightarrow> bool" where
  "detached h p \<longleftrightarrow> bridges h p = None \<and> cancels h p = None \<and> streamDone h p = None \<and>
     paneForPeer h p = None \<and> lastDims h p = None"

definition hcore :: "'w handler \<Rightarrow> bool" where
  "hcore h \<longleftrightarrow>
     (\<forall>p. detached h p \<or> (\<exists>b sid pane. attached h p b sid pane)) \<and>
     (\<forall>p q. bridges h p = bridges h q \<longrightarrow> bridges h p \<noteq> None \<longrightarrow> p = q) \<and>
     (\<forall>sid st. streams h sid = Some st \<longrightarrow> cancels h (st_peer st) = Some sid) \<and>
     (\<forall>sid. sid \<in> canceled h \<or> streams h sid \<noteq> None \<longrightarrow> sid < nextsid h) \<and>
     superseded h = {} \<and>
     wf_heap (hb h)"

definition no_stray_force :: "'w handler \<Rightarrow> bool" where
  "no_stray_force h \<longleftrightarrow> (\<forall>q. forced (trk h) q \<longrightarrow> (\<exists>p. paneForPeer h p = Some q))"

definition hinv :: "'w handler \<Rightarrow> bool" where
  "hinv h \<longleftrightarrow> hcore h \<and> no_stray_force h \<and> exitNotified h = {}"

text \<open>Parts of the state the invariant does not read.\<close>

lemma inv_outs [simp]:
  "attached (h\<lparr>outs := z\<rparr>) p b sid q = attached h p b sid q" "detached (h\<lparr>outs := x\<rparr>) p = detached h p"
  "hcore (h\<lparr>outs := z\<rparr>) = hcore h" "no_stray_force (h\<lparr>outs := x\<rparr>) = no_stray_force h"
  by (simp_all add: attached_def detached_def hcore_def no_stray_force_def)

lemma inv_client [simp]:
  "heap s = heap (hb h) \<Longrightarrow> attached (h\<lparr>hb := s\<rparr>) p b sid q = attached h p b sid q"
  "heap s = heap (hb h) \<Longrightarrow> nextb s = nextb (hb h) \<Longrightarrow> hcore (h\<lparr>hb := s\<rparr>) = hcore h"
  "detached (h\<lparr>hb := s\<rparr>) p = detached h p" "no_stray_force (h\<lparr>hb := s\<rparr>) = no_stray_force h"
  by (simp_all add: attached_def detached_def hcore_def no_stray_force_def bview_def wf_heap_def)

lemma inv_pings [simp]:
  "attached (h\<lparr>lastPingTime := x\<rparr>) p b sid q = attached h p b sid q"
  "detached (h\<lparr>lastPingTime := x\<rparr>) p = detached h p"
  "hcore (h\<lparr>lastPingTime := x\<rparr>) = hcore h" "no_stray_force (h\<lparr>lastPingTime := x\<rparr>) = no_stray_force h"
  by (simp_all add: attached_def detached_def hcore_def no_stray_force_def)

lemma inv_exit [simp]:
  "attached (h\<lparr>exitNotified := x\<rparr>) p b sid q = attached h p b sid q"
  "detached (h\<lparr>exitNotified := x\<rparr>) p = detached h p"
  "hcore (h\<lparr>exitNotified := x\<rparr>) = hcore h" "no_stray_force (h\<lparr>exitNotified := x\<rparr>) = no_stray_force h"
  by (simp_all add: attached_def detached_def hcore_def no_stray_force_def)

lemma hinv_outs [simp]: "hinv (h\<lparr>outs := z\<rparr>) = hinv h"
  by (simp add: hinv_def)

lemma hinv_pings [simp]: "hinv (h\<lparr>lastPingTime := x\<rparr>) = hinv h"
  by (simp add: hinv_def)

lemma hinv_client [simp]:
  "heap s = heap (hb h) \<Longrightarrow> nextb s = nextb (hb h) \<Longrightarrow> hinv (h\<lparr>hb := s\<rparr>) = hinv h"
  by (simp add: hinv_def)

lemma hinv_sendMsg [simp]: "hinv (snd (sendMsg e p m h)) = hinv h"
  by (simp add: sendMsg_def)

lemma hinv_sendError [simp]: "hinv (sendError e p c t h) = hinv h"
  by (simp add: sendError_def)

lemma on_client_frame:
  "on_client f h = (r, h') \<Longrightarrow> \<exists>c. h' = h\<lparr>hb := (hb h)\<lparr>cl := c\<rparr>\<rparr>"
  by (auto simp: on_client_def split: prod.splits)

lemma hinv_on_client: "on_client f h = (r, h') \<Longrightarrow> hinv h' = hinv h"
  using on_client_frame by fastforce

text \<open>Bridges only change their flags, and \<open>Close\<close> only the flags of the bridge it closes.\<close>

lemma Close_frame:
  "nextb (Close x b s) = nextb s" "a \<noteq> b \<Longrightarrow> bview (Close x b s) a = bview s a"
  "heap (Close x b s) a = None \<longleftrightarrow> heap s a = None"
  by (auto simp: Close_def close_begin_def close_finish_def releasePipe_def release_take_def
      release_off_def bview_def split: option.splits if_splits)

lemma displace_bview: "bview (displace b s) a = bview s a" "nextb (displace b s) = nextb s"
  "heap (displace b s) a = None \<longleftrightarrow> heap s a = None"
  by (auto simp: displace_def bview_def split: option.splits)

lemma Read_frame:
  "Read n b s = (r, s1) \<Longrightarrow> nextb s1 = nextb s \<and> bview s1 a = bview s a \<and> (heap s1 a = None \<longleftrightarrow> heap s a = None)"
  by (auto simp: Read_def bview_def split: option.splits if_splits)

lemma Write_frame: "Write x b d s = (r, s1) \<Longrightarrow> \<exists>c. s1 = s\<lparr>cl := c\<rparr>"
  by (cases s) (auto simp: Write_def Let_def split: option.splits if_splits prod.splits sum.splits)

lemma Resize_frame: "Resize x b c r s = (y, s1) \<Longrightarrow> \<exists>c. s1 = s\<lparr>cl := c\<rparr>"
  by (cases s) (auto simp: Resize_def Let_def split: option.splits if_splits prod.splits sum.splits)

lemma attach_finish_frame:
  "heap (attach_finish x p c r s) = heap s" "nextb (attach_finish x p c r s) = nextb s"
  by (simp_all add: attach_finish_def)

lemma bview_other [simp]:
  "bview (attach_finish x p c r s) a = bview s a" "bview (s\<lparr>pipes := ps\<rparr>) a = bview s a"
  "bview (s\<lparr>resources := rs\<rparr>) a = bview s a" "bview (s\<lparr>cl := k\<rparr>) a = bview s a"
  by (simp_all add: bview_def attach_finish_frame)

lemma attach_pipe_frame:
  "attach_pipe x b pb s = (y, s1) \<Longrightarrow> heap s1 = heap s \<and> nextb s1 = nextb s \<and> bview s1 a = bview s a"
  by (auto simp: attach_pipe_def bview_def Let_def split: prod.splits option.splits)

lemma attach_prepare_frame:
  assumes "attach_prepare x o' p s = (r0, s0)" and "wf_heap s"
  shows "wf_heap s0" "heap s a \<noteq> None \<Longrightarrow> bview s0 a = bview s a"
    "r0 = Inr b \<Longrightarrow> b = nextb s \<and> bview s0 b = Some (p, False)"
  using assms
  by (auto simp: attach_prepare_def wf_heap_def bview_def Let_def split: os_setup.splits prod.splits)

lemma AttachPane_frame:
  assumes "AttachPane x o' p c r s = (res, s1)" and "wf_heap s"
  shows "wf_heap s1" and "heap s a \<noteq> None \<Longrightarrow> bview s1 a = bview s a"
    and "res = Inr b \<Longrightarrow> b = nextb s \<and> bview s1 b = Some (p, False)"
proof -
  obtain r0 s0 where p: "attach_prepare x o' p s = (r0, s0)" by fastforce
  note prep = attach_prepare_frame [OF p assms(2)]
  have rest: "bview s1 a = bview s0 a \<and> nextb s1 = nextb s0 \<and> (heap s1 a = None \<longleftrightarrow> heap s0 a = None)
      \<and> (res = Inr b \<longrightarrow> r0 = Inr b)" for a b
    using assms(1) p
    by (auto simp: AttachPane_def attach_abort_def attach_record_def Let_def attach_finish_frame
        displace_bview dest: attach_pipe_frame [where a = a] split: sum.splits option.splits prod.splits)
  show "wf_heap s1"
    using prep(1) rest by (simp add: wf_heap_def)
  show "heap s a \<noteq> None \<Longrightarrow> bview s1 a = bview s a"
    using prep(2) rest by simp
  show "res = Inr b \<Longrightarrow> b = nextb s \<and> bview s1 b = Some (p, False)"
    using prep(3) rest by auto
qed

text \<open>What a detach does, once the waiting and the bookkeeping are resolved.\<close>

definition drop_peer :: "'w exec \<Rightarrow> peer_id \<Rightarrow> nat \<Rightarrow> nat \<Rightarrow> 'w handler \<Rightarrow> 'w handler" where
  "drop_peer x p b sid h = h\<lparr>hb := Close x b (hb h), bridges := (bridges h)(p := None),
     cancels := (cancels h)(p := None), streamDone := (streamDone h)(p := None), superseded := {},
     paneForPeer := (paneForPeer h)(p := None), lastDims := (lastDims h)(p := None),
     exitNotified := exitNotified h - {p}, canceled := insert sid (canceled h),
     streams := (streams h)(sid := None)\<rparr>"

lemma attachedD:
  assumes "attached h p b sid q"
  shows "bridges h p = Some b" "cancels h p = Some sid" "streamDone h p = Some sid"
    "paneForPeer h p = Some q" "q \<noteq> ''''" "sid \<notin> canceled h" "bview (hb h) b = Some (q, False)"
    "streams h sid \<noteq> None"
  using assms by (auto simp: attached_def)

lemma detach_attached:
  assumes "attached h p b sid q" and "superseded h = {}"
  shows "detachPeerWait e p True h = snd (on_tracker (ReleaseIfForced (ex e) q) (drop_peer (ex e) p b sid h))"
  using assms
  by (auto simp: detachPeerWait_def attachedD detach_locked_def await_stream_def endStream_def
      drop_peer_def Let_def intro!: arg_cong [where f = "\<lambda>k. snd (on_tracker _ k)"])

lemma ReleaseIfForced_tracker:
  "fst (snd (ReleaseIfForced x q (t, c))) = t\<lparr>forced := (forced t)(q := False)\<rparr>"
  by (auto simp: ReleaseIfForced_def Let_def split: sum.splits prod.splits)

lemma on_tracker_release:
  obtains c where "snd (on_tracker (ReleaseIfForced x q) h)
    = h\<lparr>trk := (trk h)\<lparr>forced := (forced (trk h))(q := False)\<rparr>, hb := (hb h)\<lparr>cl := c\<rparr>\<rparr>"
  using ReleaseIfForced_tracker [of x q "trk h" "cl (hb h)"]
  by (fastforce simp: on_tracker_def split: prod.splits)

lemma detach_detached:
  assumes "detached h p"
  shows "detachPeerWait e p w h = h"
  using assms by (auto simp: detached_def detachPeerWait_def detach_locked_def await_stream_def Let_def)

lemma endStream_after_self_detach:
  assumes "attached h p b sid q" and "superseded h = {}"
  shows "endStream p sid (detachPeerWait e p False h) = detachPeerWait e p True h"
  using assms
  by (auto simp: detachPeerWait_def attachedD detach_locked_def await_stream_def endStream_def
      on_tracker_def Let_def split: prod.splits)

lemma hcoreD:
  assumes "hcore h"
  shows "bridges h p = Some b \<Longrightarrow> bridges h p' = Some b \<Longrightarrow> p = p'"
    "streams h sid = Some st \<Longrightarrow> cancels h (st_peer st) = Some sid"
    "sid \<in> canceled h \<Longrightarrow> sid < nextsid h" "streams h sid = Some st \<Longrightarrow> sid < nextsid h"
    "superseded h = {}" "wf_heap (hb h)"
    "detached h p \<or> (\<exists>b sid pane. attached h p b sid pane)"
  using assms unfolding hcore_def by (blast | metis option.distinct(1))+

lemma hcore_cases:
  assumes "hcore h"
  obtains "detached h p" | b sid q where "attached h p b sid q"
  using hcoreD(7) [OF assms] by blast

lemma hcoreI:
  assumes "\<And>p b p'. bridges h p = Some b \<Longrightarrow> bridges h p' = Some b \<Longrightarrow> p = p'"
    "\<And>sid st. streams h sid = Some st \<Longrightarrow> cancels h (st_peer st) = Some sid"
    "\<And>sid. sid \<in> canceled h \<Longrightarrow> sid < nextsid h" "\<And>sid st. streams h sid = Some st \<Longrightarrow> sid < nextsid h"
    "superseded h = {}" "wf_heap (hb h)"
    "\<And>p. detached h p \<or> (\<exists>b sid pane. attached h p b sid pane)"
  shows "hcore h"
  unfolding hcore_def using assms by (metis not_None_eq)

lemma cancels_stream:
  "hcore h \<Longrightarrow> cancels h p = Some sid \<Longrightarrow> \<exists>st. streams h sid = Some st \<and> st_peer st = p"
  by (erule hcore_cases [where p = p]) (auto simp: detached_def attached_def)

lemma hcore_trk [simp]: "hcore (h\<lparr>trk := t\<rparr>) = hcore h" "detached (h\<lparr>trk := t\<rparr>) p = detached h p"
  "attached (h\<lparr>trk := t\<rparr>) p b sid q = attached h p b sid q"
  by (simp_all add: attached_def detached_def hcore_def)

lemma stream_owner:
  assumes "hcore h" "streams h sid = Some st"
  shows "\<exists>q. attached h (st_peer st) (st_bridge st) sid q"
  using hcoreD(2) [OF assms] assms(2) hcore_cases [OF assms(1), of "st_peer st"]
  by (metis (no_types, lifting) attached_def detached_def option.distinct(1) option.inject)

lemma drop_peer_other:
  assumes "hcore h" "attached h p b sid q" "p' \<noteq> p"
  shows "attached (drop_peer x p b sid h) p' b' sid' q' = attached h p' b' sid' q'"
    and "detached (drop_peer x p b sid h) p' = detached h p'"
proof -
  have "cancels h p' \<noteq> Some sid"
    using assms(3) cancels_stream [OF assms(1), of p' sid] cancels_stream [OF assms(1), of p sid]
      attachedD(2) [OF assms(2)] by auto
  moreover have "bridges h p' \<noteq> Some b"
    using assms(3) hcoreD(1) [OF assms(1)] attachedD(1) [OF assms(2)] by blast
  ultimately show "attached (drop_peer x p b sid h) p' b' sid' q' = attached h p' b' sid' q'"
    using assms(3) by (auto simp: attached_def drop_peer_def Close_frame)
  show "detached (drop_peer x p b sid h) p' = detached h p'"
    using assms(3) by (simp add: detached_def drop_peer_def)
qed

lemma drop_peer_sel [simp]:
  "trk (drop_peer x p b sid h) = trk h" "bridges (drop_peer x p b sid h) = (bridges h)(p := None)"
  "paneForPeer (drop_peer x p b sid h) = (paneForPeer h)(p := None)"
  "exitNotified (drop_peer x p b sid h) = exitNotified h - {p}" "outs (drop_peer x p b sid h) = outs h"
  "hb (drop_peer x p b sid h) = Close x b (hb h)"
  by (simp_all add: drop_peer_def)

lemma drop_peer_detached: "detached (drop_peer x p b sid h) p"
  by (simp add: detached_def drop_peer_def)

lemma hcore_drop_peer:
  assumes h: "hcore h" and a: "attached h p b sid q"
  shows "hcore (drop_peer x p b sid h)"
proof (rule hcoreI)
  show "detached (drop_peer x p b sid h) p' \<or> (\<exists>b' s' q'. attached (drop_peer x p b sid h) p' b' s' q')" for p'
    using hcoreD(7) [OF h] drop_peer_other [OF h a] drop_peer_detached by (cases "p' = p") auto
  show "wf_heap (hb (drop_peer x p b sid h))"
    using hcoreD(6) [OF h] by (simp add: drop_peer_def wf_heap_def Close_frame)
  show "cancels (drop_peer x p b sid h) (st_peer st) = Some s'"
    if "streams (drop_peer x p b sid h) s' = Some st" for s' st
    using that hcoreD(2) [OF h, of s' st] attachedD(2) [OF a]
    by (auto simp: drop_peer_def split: if_splits)
  have "sid < nextsid h"
    using attachedD(8) [OF a] hcoreD(4) [OF h] by blast
  then show "s' < nextsid (drop_peer x p b sid h)" if "s' \<in> canceled (drop_peer x p b sid h)" for s'
    using that hcoreD(3) [OF h] by (auto simp: drop_peer_def)
  show "s' < nextsid (drop_peer x p b sid h)" if "streams (drop_peer x p b sid h) s' = Some st" for s' st
    using that hcoreD(4) [OF h] by (auto simp: drop_peer_def split: if_splits)
  show "u = v" if "bridges (drop_peer x p b sid h) u = Some b'" "bridges (drop_peer x p b sid h) v = Some b'" for u v b'
    using that hcoreD(1) [OF h] by (auto simp: drop_peer_def split: if_splits)
qed (simp add: drop_peer_def)

text \<open>A detach keeps the invariant, even when the pane exit was already noted for the peer.\<close>

definition kept_by_detach :: "peer_id \<Rightarrow> 'w handler \<Rightarrow> 'w handler \<Rightarrow> bool" where
  "kept_by_detach p h h' \<longleftrightarrow> hcore h' \<and> no_stray_force h' \<and> detached h' p \<and>
     exitNotified h' = (if bridges h p = None then exitNotified h else exitNotified h - {p})"

lemma detach_keeps:
  assumes "hcore h" "no_stray_force h"
  shows "kept_by_detach p h (detachPeerWait e p True h)"
proof (rule hcore_cases [OF assms(1), of p])
  assume "detached h p"
  then show ?thesis
    using assms by (simp add: detach_detached kept_by_detach_def) (simp add: detached_def)
next
  fix b sid q assume a: "attached h p b sid q"
  let ?d = "drop_peer (ex e) p b sid h"
  obtain c where c: "detachPeerWait e p True h =
      ?d\<lparr>trk := (trk h)\<lparr>forced := (forced (trk h))(q := False)\<rparr>, hb := (hb ?d)\<lparr>cl := c\<rparr>\<rparr>"
    using detach_attached [OF a hcoreD(5) [OF assms(1)], of e] on_tracker_release [of "ex e" q ?d]
    by (metis drop_peer_sel(1))
  have "hcore (detachPeerWait e p True h)"
    using hcore_drop_peer [OF assms(1) a, of "ex e"] by (simp add: c)
  moreover have "detached (detachPeerWait e p True h) p"
    unfolding c using drop_peer_detached [of "ex e" p b sid h] by (simp add: detached_def)
  moreover have "no_stray_force (detachPeerWait e p True h)"
    using assms(2) attachedD(4) [OF a] unfolding c no_stray_force_def by simp (metis option.inject)
  ultimately show ?thesis
    using attachedD(1) [OF a] by (simp add: kept_by_detach_def) (simp add: c)
qed

lemma hinv_detach [simp]: "hinv h \<Longrightarrow> hinv (detachPeer e p h)"
  using detach_keeps [of h p e] by (auto simp: hinv_def detachPeer_def kept_by_detach_def)

lemma detached_detach: "hinv h \<Longrightarrow> detached (detachPeer e p h) p"
  using detach_keeps [of h p e] by (auto simp: hinv_def detachPeer_def kept_by_detach_def)

lemma endStream_outs: "endStream p sid (h\<lparr>outs := z\<rparr>) = (endStream p sid h)\<lparr>outs := z\<rparr>"
  by (simp add: endStream_def)

lemma on_tracker_sel [simp]:
  "outs (snd (on_tracker f h)) = outs h" "superseded (snd (on_tracker f h)) = superseded h"
  by (simp_all add: on_tracker_def split: prod.splits)

lemma await_outs [simp]: "outs (await_stream p o' h) = outs h"
  by (simp add: await_stream_def endStream_def split: option.splits)

lemma detach_locked_sel [simp]:
  "outs (detach_locked p w h) = outs h" "superseded (detach_locked p False h) = superseded h"
  by (simp_all add: detach_locked_def Let_def split: option.splits)

lemma detach_sel:
  "superseded (detachPeerWait e p False h) = superseded h" "outs (detachPeerWait e p w h) = outs h"
  by (simp_all add: detachPeerWait_def Let_def split: option.splits)

text \<open>A stream that gives itself up leaves what a waiting detach leaves.\<close>

lemma self_reset:
  assumes "attached h p b sid q" "superseded h = {}"
  shows "endStream p sid (resetStream e p sid r h) = sendError e p ''stream_reset'' r (detachPeer e p h)"
  using endStream_after_self_detach [OF assms, of e] assms(2)
  by (simp add: resetStream_def detach_sel sendError_def sendMsg_def endStream_outs detachPeer_def)

lemma paneExit_keeps:
  assumes "hinv h"
  shows "hinv (handlePaneExit e p True h)"
proof (cases "paneForPeer h p")
  case None
  then show ?thesis using assms by (simp add: handlePaneExit_def)
next
  case (Some q)
  have b: "bridges h p \<noteq> None"
    using assms Some by (auto simp: hinv_def detached_def attached_def elim: hcore_cases [where p = p])
  have k: "hcore k \<and> no_stray_force k \<and> exitNotified k = {p} \<and> bridges k p = bridges h p \<Longrightarrow>
      hinv (detachPeerWait e p True k)" for k
    using detach_keeps [of k p e] b by (auto simp: hinv_def kept_by_detach_def)
  show ?thesis
    using assms Some
    by (auto simp: handlePaneExit_def Let_def hinv_def sendMsg_def on_client_def
        split: prod.splits sum.splits intro!: k [unfolded hinv_def])
qed

lemma self_exit:
  assumes "hinv h" and a: "attached h p b sid q"
  shows "endStream p sid (handlePaneExit e p False h) = handlePaneExit e p True h"
proof -
  have "attached k p b sid q \<Longrightarrow> superseded k = {} \<Longrightarrow>
      endStream p sid (detachPeerWait e p False k) = detachPeerWait e p True k" for k
    by (rule endStream_after_self_detach)
  then show ?thesis
    using a assms(1) attachedD [OF a] hcoreD(5) [of h]
    by (auto simp: handlePaneExit_def hinv_def Let_def sendMsg_def on_client_def
        split: prod.splits sum.splits)
qed

section \<open>Every operation keeps the invariant\<close>

lemma hinv_bridge_sys:
  assumes "hinv h" "nextb s = nextb (hb h)" "\<And>a. bview s a = bview (hb h) a"
    "\<And>a. heap s a = None \<longleftrightarrow> heap (hb h) a = None"
  shows "hinv (h\<lparr>hb := s\<rparr>)"
  using assms by (simp add: hinv_def hcore_def attached_def detached_def wf_heap_def no_stray_force_def)

lemma hinv_handleListSessions: "hinv h \<Longrightarrow> hinv (handleListSessions e p h)"
  by (auto simp: handleListSessions_def Let_def split: prod.splits sum.splits option.splits
      dest: hinv_on_client)

lemma hinv_handleDetach: "hinv h \<Longrightarrow> hinv (handleDetach e p h)"
  by (simp add: handleDetach_def)

lemma hinv_handleInput: "hinv h \<Longrightarrow> hinv (handleInput e p d h)"
  by (auto simp: handleInput_def split: prod.splits sum.splits option.splits dest!: Write_frame)

lemma hinv_dims:
  assumes "hinv h" "bridges h p \<noteq> None"
  shows "hinv (h\<lparr>lastDims := (lastDims h)(p \<mapsto> d)\<rparr>)"
proof -
  let ?k = "h\<lparr>lastDims := (lastDims h)(p \<mapsto> d)\<rparr>"
  obtain b sid q where "attached h p b sid q"
    using assms by (auto simp: hinv_def detached_def elim: hcore_cases [where p = p])
  then have "attached ?k p' b' s' q' = attached h p' b' s' q'" "detached ?k p' = detached h p'" for p' b' s' q'
    by (auto simp: attached_def detached_def)
  then show ?thesis
    using assms(1) by (simp add: hinv_def hcore_def no_stray_force_def)
qed

lemma hinv_handleResize: "hinv h \<Longrightarrow> hinv (handleResize e p c r h)"
  using hinv_dims [of "h\<lparr>hb := (hb h)\<lparr>cl := k\<rparr>\<rparr>" p "(c, r)" for k]
  by (auto simp: handleResize_def split: prod.splits sum.splits option.splits dest!: Resize_frame)

lemma hinv_handlePing: "hinv h \<Longrightarrow> hinv (handlePing e p h)"
  by (simp add: handlePing_def)

lemma hinv_handleKillSession: "hinv h \<Longrightarrow> hinv (handleKillSession e p s h)"
  by (auto simp: handleKillSession_def split: prod.splits sum.splits dest: hinv_on_client)

lemma hinv_handleCreateSession: "hinv h \<Longrightarrow> hinv (handleCreateSession e p h)"
  by (auto simp: handleCreateSession_def split: prod.splits sum.splits option.splits dest: hinv_on_client)

lemma hinv_PeerDisconnected: "hinv h \<Longrightarrow> hinv (PeerDisconnected e p h)"
  by (simp add: PeerDisconnected_def)

lemma hinv_sweep: "hinv h \<Longrightarrow> hinv (sweep e tr t ps ss h)"
proof -
  have "hinv k \<Longrightarrow> hinv (fold (disconnect e tr) qs k)" for qs k
    by (induction qs arbitrary: k) (simp_all add: disconnect_def hinv_PeerDisconnected)
  then show "hinv h \<Longrightarrow> hinv (sweep e tr t ps ss h)"
    by (simp add: sweep_def)
qed

lemma hinv_watch_tick: "hinv h \<Longrightarrow> hinv (watch_tick e p q sid h)"
  by (auto simp: watch_tick_def split: prod.splits bool.splits dest: hinv_on_client intro!: paneExit_keeps)

lemma hinv_relay: "hinv h \<Longrightarrow> relay_round f b (hb h) = (r, s1) \<Longrightarrow> hinv (h\<lparr>hb := s1\<rparr>)"
  by (rule hinv_bridge_sys)
    (auto simp: relay_round_def bview_def split: option.splits if_splits fifo_read.splits)

definition no_stray_but :: "pane_id \<Rightarrow> 'w handler \<Rightarrow> bool" where
  "no_stray_but q h \<longleftrightarrow> (\<forall>q'. q' \<noteq> q \<longrightarrow> forced (trk h) q' \<longrightarrow> (\<exists>p. paneForPeer h p = Some q'))"

text \<open>What holds between the resize and the registration of the stream.\<close>

definition attaching :: "peer_id \<Rightarrow> pane_id \<Rightarrow> 'w handler \<Rightarrow> bool" where
  "attaching p q h \<longleftrightarrow> hcore h \<and> detached h p \<and> no_stray_but q h \<and> exitNotified h = {}"

lemma track_attaching:
  assumes "hinv h" "detached h p" "on_tracker (TrackAndResize x q c r) h = (rz, h2)"
  shows "attaching p q h2 \<and> (isOK rz \<or> hinv h2)"
  using assms
  by (auto simp: on_tracker_def TrackAndResize_def attaching_def no_stray_but_def hinv_def
      no_stray_force_def split: prod.splits sum.splits)

lemma attaching_bridge:
  assumes "attaching p q h" "AttachPane x o' q c r (hb h) = (res, s1)"
  shows "attaching p q (h\<lparr>hb := s1\<rparr>)" and "hinv h \<Longrightarrow> hinv (h\<lparr>hb := s1\<rparr>)"
    and "res = Inr b \<Longrightarrow> bview s1 b = Some (q, False) \<and> bridges h p' \<noteq> Some b"
proof -
  have h: "hcore h" using assms(1) by (simp add: attaching_def)
  note frame = AttachPane_frame [OF assms(2) hcoreD(6) [OF h]]
  have old: "bview (hb h) a = Some v \<Longrightarrow> bview s1 a = Some v" for a v
    using frame(2) [of a] by (auto simp: bview_def)
  have "attached h p' b' s' q' \<Longrightarrow> attached (h\<lparr>hb := s1\<rparr>) p' b' s' q'" for p' b' s' q'
    using old by (auto simp: attached_def)
  then have core: "hcore (h\<lparr>hb := s1\<rparr>)"
    using h hcoreD(7) [OF h] frame(1) by (intro hcoreI) (fastforce dest: hcoreD)+
  then show "attaching p q (h\<lparr>hb := s1\<rparr>)" "hinv h \<Longrightarrow> hinv (h\<lparr>hb := s1\<rparr>)"
    using assms(1) by (auto simp: attaching_def no_stray_but_def hinv_def)
  have "bridges h p' = Some b' \<Longrightarrow> b' < nextb (hb h)" for b'
    using hcoreD(6) [OF h]
    by (rule_tac hcore_cases [OF h, of p'])
      (auto simp: detached_def attached_def bview_def wf_heap_def not_le [symmetric])
  then show "res = Inr b \<Longrightarrow> bview s1 b = Some (q, False) \<and> bridges h p' \<noteq> Some b"
    using frame(3) [of b] by auto
qed

lemma register_attaches:
  assumes a: "attaching p q h" and "bview (hb h) b = Some (q, False)" "\<And>p'. bridges h p' \<noteq> Some b" "q \<noteq> ''''"
  shows "hinv (register_stream p q c r b z h)" (is "hinv ?k")
    and "attached (register_stream p q c r b z h) p b (nextsid h) q"
proof -
  have h: "hcore h" and d: "detached h p" and n: "no_stray_but q h" "exitNotified h = {}"
    using a by (simp_all add: attaching_def)
  note fresh = hcoreD(3,4) [OF h, of "nextsid h"]
  show at: "attached ?k p b (nextsid h) q"
    using fresh assms by (auto simp: attached_def register_stream_def)
  have other: "attached h p' b' s' q' \<Longrightarrow> p' \<noteq> p \<Longrightarrow> attached ?k p' b' s' q'"
    "detached h p' \<Longrightarrow> p' \<noteq> p \<Longrightarrow> detached ?k p'" for p' b' s' q'
    using fresh by (auto simp: attached_def detached_def register_stream_def)
  have "hcore ?k"
  proof (rule hcoreI)
    show "detached ?k p' \<or> (\<exists>b s q. attached ?k p' b s q)" for p'
      using at other hcoreD(7) [OF h] by (cases "p' = p") blast+
    show "cancels ?k (st_peer st) = Some s'" if "streams ?k s' = Some st" for s' st
      using that hcoreD(2) [OF h, of s' st] d
      by (auto simp: register_stream_def detached_def split: if_splits)
  qed (use h assms(3) in \<open>auto simp: register_stream_def split: if_splits dest: hcoreD less_SucI\<close>)
  moreover have "no_stray_force ?k"
    using n(1) d by (simp add: no_stray_but_def no_stray_force_def register_stream_def detached_def)
      (metis option.distinct(1))
  ultimately show "hinv ?k"
    using n(2) by (simp add: hinv_def register_stream_def)
qed

lemma hinv_stream_upd:
  assumes "streams h sid = Some st" "st_peer st' = st_peer st" "st_bridge st' = st_bridge st"
  shows "hinv (h\<lparr>streams := (streams h)(sid \<mapsto> st')\<rparr>) = hinv h"
    and "attached (h\<lparr>streams := (streams h)(sid \<mapsto> st')\<rparr>) p b s q = attached h p b s q"
proof -
  let ?k = "h\<lparr>streams := (streams h)(sid \<mapsto> st')\<rparr>"
  show at: "attached ?k p b s q = attached h p b s q" for p b s q
    using assms by (auto simp: attached_def)
  have "(\<forall>s x. streams ?k s = Some x \<longrightarrow> cancels ?k (st_peer x) = Some s) \<longleftrightarrow>
      (\<forall>s x. streams h s = Some x \<longrightarrow> cancels h (st_peer x) = Some s)"
    using assms by auto
  moreover have "streams ?k s = None \<longleftrightarrow> streams h s = None" for s
    using assms(1) by simp
  ultimately show "hinv ?k = hinv h"
    using at by (simp add: hinv_def hcore_def detached_def no_stray_force_def)
qed

text \<open>After an attach request the peer is on the requested pane or on none.\<close>

definition on_or_off :: "peer_id \<Rightarrow> pane_id \<Rightarrow> 'w handler \<Rightarrow> bool" where
  "on_or_off p q h \<longleftrightarrow> hinv h \<and> (detached h p \<or> (\<exists>b sid. attached h p b sid q))"

lemma self_reset_off:
  assumes "hinv h" "attached h p b sid q"
  shows "hinv (endStream p sid (resetStream e p sid r h))"
    and "detached (endStream p sid (resetStream e p sid r h)) p"
  using self_reset [OF assms(2), of e r] assms(1) detached_detach [OF assms(1), of e p] hcoreD(5) [of h]
  by (simp_all add: hinv_def [of h] sendError_def sendMsg_def)

lemma attached_deflate:
  assumes "hinv k" "attached k p b sid q"
  shows "on_or_off p q (k\<lparr>streams := (streams k)(sid := map_option (\<lambda>s. s\<lparr>st_deflate := g s\<rparr>) (streams k sid))\<rparr>)"
proof -
  obtain sk where "streams k sid = Some sk"
    using attachedD(8) [OF assms(2)] by blast
  then show ?thesis
    using hinv_stream_upd [of k sid sk "sk\<lparr>st_deflate := g sk\<rparr>"] assms by (auto simp: on_or_off_def)
qed

lemma sendPreStream_outcome:
  assumes "hinv h" "attached h p b sid q"
  shows "sendPreStream e p sid z d h = (False, h') \<Longrightarrow> on_or_off p q (endStream p sid h')"
    and "sendPreStream e p sid z d h = (True, h') \<Longrightarrow> hinv h' \<and> attached h' p b sid q"
  using assms self_reset_off [OF assms, of e] self_reset_off [of "h\<lparr>outs := y\<rparr>" p b sid q e for y]
  by (auto simp: sendPreStream_def sendOutput_def sendMsg_def on_or_off_def
      split: option.splits prod.splits bool.splits)

lemma start_stream_outcome:
  assumes "attaching p q h" "bview (hb h) b = Some (q, False)" "\<And>p'. bridges h p' \<noteq> Some b" "q \<noteq> ''''"
  shows "on_or_off p q (start_stream e p q c r re z b h)"
proof -
  define h1 where "h1 = register_stream p q c r b z h"
  define m where "m = AttachedEvent ''attached'' q (if z then ''deflate'' else '''')"
  obtain cs h3 where c: "on_client (CursorState (ex e) q) (snd (sendMsg e p m h1)) = (cs, h3)"
    by fastforce
  have 3: "hinv h3" "attached h3 p b (nextsid h) q"
    using register_attaches [OF assms, of c r z] on_client_frame [OF c] by (auto simp: sendMsg_def h1_def)
  have off: "on_or_off p q h3"
    using 3 by (auto simp: on_or_off_def)
  note pre = sendPreStream_outcome [OF 3, of e]
  have sent: "on_or_off p q h4" "on_or_off p q (h4\<lparr>streams := (streams h4)(nextsid h := map_option (\<lambda>s. s\<lparr>st_deflate := Some [d]\<rparr>) (streams h4 (nextsid h)))\<rparr>)"
    if "sendPreStream e p (nextsid h) z' d h3 = (True, h4)" for z' d h4
    using pre(2) [OF that] attached_deflate [of h4 p b "nextsid h" q "\<lambda>_. Some [d]"]
    by (auto simp: on_or_off_def)
  show ?thesis
    using off pre(1) sent
    by (auto simp: start_stream_def Let_def c [unfolded m_def h1_def] split: option.splits prod.splits bool.splits)
qed

lemma attach_failed_outcome:
  assumes "attaching p q h" "t \<or> hinv h"
  shows "on_or_off p q (attach_failed e p q t h)"
proof -
  obtain k where k: "snd (on_tracker (ReleaseIfForced (ex e) q) h)
      = h\<lparr>trk := (trk h)\<lparr>forced := (forced (trk h))(q := False)\<rparr>, hb := (hb h)\<lparr>cl := k\<rparr>\<rparr>"
    by (rule on_tracker_release)
  define h1 where "h1 = (if t then snd (on_tracker (ReleaseIfForced (ex e) q) h) else h)"
  have 1: "hinv h1" "detached h1 p"
    using assms unfolding h1_def k attaching_def hinv_def no_stray_but_def no_stray_force_def by auto
  show ?thesis
    using 1 unfolding attach_failed_def h1_def [symmetric] Let_def
    by (auto simp: on_or_off_def sendError_def sendMsg_def on_client_def split: prod.splits sum.splits)
qed

lemma handleAttach_outcome:
  assumes "hinv h" "ValidTmuxTarget q" "dims_ok c r"
  shows "on_or_off p q (handleAttach e p q c r re z h)"
proof -
  obtain rz h2 where t: "on_tracker (TrackAndResize (ex e) q c r) (detachPeer e p h) = (rz, h2)"
    by fastforce
  have 2: "attaching p q h2" "isOK rz \<or> hinv h2"
    using track_attaching [OF _ _ t, of p] assms(1) detached_detach [OF assms(1)] by auto
  obtain res s1 where a: "AttachPane (ex e) (osys e) q 0 0 (hb h2) = (res, s1)"
    by fastforce
  note br = attaching_bridge [OF 2(1) a]
  show ?thesis
  proof (cases res)
    case (Inl err)
    then show ?thesis
      using assms t a br 2(2) by (auto simp: handleAttach_def intro!: attach_failed_outcome)
  next
    case (Inr b)
    then show ?thesis
      using assms t a br(1) br(3)
      by (auto simp: handleAttach_def ValidTmuxTarget_def intro!: start_stream_outcome)
  qed
qed

lemma hinv_handleAttach: "hinv h \<Longrightarrow> hinv (handleAttach e p q c r re z h)"
  using handleAttach_outcome [of h q c r p e re z]
  by (cases "ValidTmuxTarget q \<and> dims_ok c r") (auto simp: handleAttach_def on_or_off_def)

lemma hinv_HandleMessage: "hinv h \<Longrightarrow> hinv (HandleMessage e p m h)"
  by (cases m) (simp_all add: hinv_handleAttach hinv_handleListSessions hinv_handleDetach
      hinv_handleInput hinv_handleResize hinv_handlePing hinv_handleKillSession hinv_handleCreateSession)

lemma hinv_stream_round:
  assumes "hinv h"
  shows "hinv (stream_round e sid h)"
proof (cases "streams h sid")
  case None
  then show ?thesis using assms by (simp add: stream_round_def)
next
  case (Some st)
  have h: "hcore h" using assms by (simp add: hinv_def)
  let ?at = "\<lambda>k. hinv k \<and> (\<exists>q. attached k (st_peer st) (st_bridge st) sid q)"
  obtain res s1 where r: "Read 4096 (st_bridge st) (hb h) = (res, s1)" by fastforce
  have 0: "?at h" and c: "sid \<notin> canceled h"
    using stream_owner [OF h Some] assms attachedD(6) by blast+
  have 1: "?at (h\<lparr>hb := s1\<rparr>)"
    using hinv_bridge_sys [OF assms] Read_frame [OF r] 0 by (auto simp: attached_def)
  have 2: "?at (h\<lparr>hb := s1, streams := (streams h)(sid \<mapsto> st\<lparr>st_filter := f1\<rparr>)\<rparr>)" for f1
    using hinv_stream_upd [of "h\<lparr>hb := s1\<rparr>" sid st "st\<lparr>st_filter := f1\<rparr>"] 1 Some by simp
  have reset: "?at k \<Longrightarrow> hinv (endStream (st_peer st) sid (resetStream e (st_peer st) sid m k))" for k m
    using self_reset_off(1) by blast
  have exit: "?at k \<Longrightarrow> hinv (endStream (st_peer st) sid (handlePaneExit e (st_peer st) False k))" for k
    using self_exit paneExit_keeps by metis
  have more: "hinv (h\<lparr>hb := s1, outs := y, streams := (streams h)(sid \<mapsto> st\<lparr>st_filter := f1, st_deflate := g\<rparr>)\<rparr>)" for y f1 g
    using hinv_stream_upd [of "h\<lparr>hb := s1, outs := y\<rparr>" sid st "st\<lparr>st_filter := f1, st_deflate := g\<rparr>"] 1 Some by simp
  have sent: "?at k \<Longrightarrow> ?at (k\<lparr>outs := y\<rparr>)" for k y
    by auto
  show ?thesis
    unfolding stream_round_def sendOutput_def using assms Some c r 1 2 reset exit more sent
    by (auto simp: Let_def sendMsg_def split: option.splits sum.splits prod.splits bool.splits)
qed

section \<open>The handler as a machine\<close>

inductive hstep :: "'w handler \<Rightarrow> 'w handler \<Rightarrow> bool" where
  request: "hstep h (HandleMessage e p m h)"
| streams_on: "hstep h (stream_round e sid h)"
| watches: "hstep h (watch_tick e p q sid h)"
| peer_gone: "hstep h (PeerDisconnected e p h)"
| swept: "hstep h (sweep e tracked timeout ps states h)"
| pane_writes: "relay_round f b (hb h) = (r, s1) \<Longrightarrow> hstep h (h\<lparr>hb := s1\<rparr>)"

definition hinit :: "'w handler \<Rightarrow> bool" where
  "hinit h \<longleftrightarrow> (\<exists>s. h = NewHandler s \<and> wf_heap s)"

interpretation handler: machine hinit hstep hinv
proof
  fix h :: "'w handler" assume "hinit h"
  then show "hinv h"
    by (auto simp: hinit_def NewHandler_def hinv_def hcore_def detached_def no_stray_force_def
        NewPaneSizeTracker_def)
next
  fix h h' :: "'w handler" assume "hinv h" "hstep h h'"
  from this(2,1) show "hinv h'"
    by (induction rule: hstep.induct)
      (simp_all add: hinv_HandleMessage hinv_stream_round hinv_watch_tick hinv_PeerDisconnected
        hinv_sweep hinv_relay)
qed

section \<open>Properties\<close>

text \<open>Messages appended to the log, all to one peer.\<close>

definition sent_to :: "peer_id \<Rightarrow> 'w handler \<Rightarrow> 'w handler \<Rightarrow> bool" where
  "sent_to p h h' \<longleftrightarrow> (\<exists>ys. outs h' = outs h @ map (\<lambda>(m, ok). (p, m, ok)) ys)"

lemma sent_none [intro]: "outs h' = outs h \<Longrightarrow> sent_to p h h'"
  by (auto simp: sent_to_def intro: exI [where x = "[]"])

lemma sent_refl [simp]: "sent_to p h h"
  by (auto simp: sent_to_def)

lemma sent_trans: "sent_to p h h1 \<Longrightarrow> sent_to p h1 h2 \<Longrightarrow> sent_to p h h2"
  by (auto simp: sent_to_def simp flip: map_append)

lemma sent_outs_eq [simp]: "sent_to p h (h'\<lparr>hb := s\<rparr>) = sent_to p h h'"
  "sent_to p h (h'\<lparr>trk := t\<rparr>) = sent_to p h h'"
  "sent_to p h (h'\<lparr>streams := st\<rparr>) = sent_to p h h'" "sent_to p h (h'\<lparr>lastDims := d\<rparr>) = sent_to p h h'"
  "sent_to p h (h'\<lparr>lastPingTime := l\<rparr>) = sent_to p h h'" "sent_to p h (h'\<lparr>exitNotified := x\<rparr>) = sent_to p h h'"
  "sent_to p h (endStream p' sid h') = sent_to p h h'" "sent_to p h (detachPeerWait e p' w h') = sent_to p h h'"
  "sent_to p h (detachPeer e p' h') = sent_to p h h'" "sent_to p h (snd (on_tracker f h')) = sent_to p h h'"
  "sent_to p h (register_stream p' q c r b z h') = sent_to p h h'"
  by (simp_all add: sent_to_def endStream_def detach_sel detachPeer_def register_stream_def)

lemma sent_sendMsg [simp]: "sent_to p h h' \<Longrightarrow> sent_to p h (snd (sendMsg e p m h'))"
  by (erule sent_trans) (auto simp: sent_to_def sendMsg_def intro!: exI [where x = "[(m, sendOK e p m)]"])

lemma sent_sendError [simp]: "sent_to p h h' \<Longrightarrow> sent_to p h (sendError e p c t h')"
  by (simp add: sendError_def)

lemma sent_reset [simp]: "sent_to p h h' \<Longrightarrow> sent_to p h (resetStream e p sid r h')"
  by (simp add: resetStream_def Let_def)

lemma sent_output:
  "sent_to p h h' \<Longrightarrow> sendOutput e p d h' = (ok, h'') \<Longrightarrow> sent_to p h h''"
  by (metis sent_sendMsg sendOutput_def snd_conv)

lemma sent_paneExit [simp]: "sent_to p h h' \<Longrightarrow> sent_to p h (handlePaneExit e p w h')"
  by (auto simp: handlePaneExit_def on_client_def Let_def split: option.splits sum.splits prod.splits)

lemma sent_pre: "sent_to p h k \<Longrightarrow> sendPreStream e p s z d k = (ok, k') \<Longrightarrow> sent_to p h k'"
  by (auto simp: sendPreStream_def split: option.splits prod.splits bool.splits
      dest: sent_output intro: sent_reset)

lemma sent_start:
  assumes "sent_to p h h'"
  shows "sent_to p h (start_stream e p q c r re z b h')"
proof -
  define k where "k = snd (sendMsg e p (AttachedEvent ''attached'' q (if z then ''deflate'' else ''''))
    (register_stream p q c r b z h'))"
  obtain cs h3 where c: "on_client (CursorState (ex e) q) k = (cs, h3)" by fastforce
  have 3: "sent_to p h h3"
    using assms on_client_frame [OF c] by (auto simp: k_def)
  show ?thesis
    unfolding start_stream_def Let_def k_def [symmetric] c
    using 3 sent_pre [OF 3] by (auto split: option.splits prod.splits bool.splits)
qed

lemma sent_attach_failed: "sent_to p h h' \<Longrightarrow> sent_to p h (attach_failed e p q t h')"
  by (auto simp: attach_failed_def on_client_def Let_def split: prod.splits sum.splits)

lemma sent_attach: "sent_to p h (handleAttach e p q c r re z h)"
  by (auto simp: handleAttach_def on_tracker_def Let_def sent_start sent_attach_failed split: prod.splits sum.splits)

text \<open>Whatever a peer asks for and whatever its output stream does, every message the
  handler sends in answer goes to that peer: replies to the requester, pane output and stream
  notices to the peer the stream was started for.\<close>

theorem replies_go_to_the_requester:
  "(\<exists>ys. outs (HandleMessage e p m h) = outs h @ map (\<lambda>(x, ok). (p, x, ok)) ys) \<and>
   (case streams h sid of
      None \<Rightarrow> stream_round e sid h = h
    | Some st \<Rightarrow> \<exists>ys. outs (stream_round e sid h) = outs h @ map (\<lambda>(x, ok). (st_peer st, x, ok)) ys)"
proof -
  have "sent_to p h (HandleMessage e p m h)"
    by (cases m)
      (auto simp: sent_attach handleListSessions_def handleDetach_def handleInput_def handleResize_def
        handlePing_def handleKillSession_def handleCreateSession_def on_client_def Let_def
        split: prod.splits sum.splits option.splits)
  moreover have "sent_to (st_peer st) h (stream_round e sid h)" if "streams h sid = Some st" for st
    using that
    by (auto simp: stream_round_def Let_def split: prod.splits sum.splits option.splits bool.splits
        dest: sent_output [where h = h, rotated])
  ultimately show ?thesis
    by (auto simp: sent_to_def stream_round_def split: option.splits)
qed

text \<open>A concrete run: one peer attaches to pane \<open>%1\<close> of a tmux whose every command succeeds silently.\<close>

definition quiet_sys :: "unit bsys" where
  "quiet_sys = \<lparr>cl = fresh_client, heap = Map.empty, nextb = 0, pipes = Map.empty, resources = {}, tpipe = Map.empty\<rparr>"

definition quiet_env :: "unit henv" where
  "quiet_env = \<lparr>ex = const_exec '''' (Finished None), sendOK = (\<lambda>_ _. True), osys = Ready ''/tmp/p'' 3 4 5,
     quote = id, deflate = (\<lambda>_ d. Some d), clock = 0, updState = Inl ReadFailed, agentVersion = ''1.0''\<rparr>"

definition attached_run :: "unit handler" where
  "attached_run = HandleMessage quiet_env ''d'' (AttachRequest ''attach'' ''%1'' 80 24 False '''') (NewHandler quiet_sys)"

lemma run_attached_fields:
  "(bridges attached_run ''d'', cancels attached_run ''d'', streamDone attached_run ''d'', paneForPeer attached_run ''d'',
    lastDims attached_run ''d'', map_option st_peer (streams attached_run 0), map_option st_bridge (streams attached_run 0),
    0 \<in> canceled attached_run, bview (hb attached_run) 0)
   = (Some 0, Some 0, Some 0, Some ''%1'', Some (80, 24), Some ''d'', Some 0, False, Some (''%1'', False))"
  by code_simp

lemma run_attached: "attached attached_run ''d'' 0 0 ''%1''"
  using run_attached_fields by (auto simp: attached_def)

lemma attached_reach: "reach hinit hstep attached_run"
proof -
  have "reach hinit hstep (NewHandler quiet_sys)"
    by (rule reach.intros) (auto simp: hinit_def wf_heap_def quiet_sys_def)
  then show ?thesis
    unfolding attached_run_def by (rule reach.intros(2)) (rule hstep.request)
qed



text \<open>A valid attach request in a reachable state takes the peer off whatever it was
  attached to: afterwards it is attached to the requested pane, with the requested size recorded, or
  to none; it never stays on the old pane.\<close>

theorem attach_moves_the_peer:
  assumes "reach hinit hstep h" and "ValidTmuxTarget q" and "dims_ok c r"
  shows "let h' = HandleMessage e p (AttachRequest ty q c r re z) h
         in (detached h' p \<or> (\<exists>b sid. attached h' p b sid q)) \<and> exitNotified h' = {} \<and> superseded h' = {}"
  using handleAttach_outcome [OF handler.inv_reach [OF assms(1)] assms(2,3), of p e re z]
  by (auto simp: on_or_off_def hinv_def hcore_def Let_def)

theorem attach_moves_the_peer_witness:
  "let h' = HandleMessage quiet_env ''d'' (AttachRequest ''attach'' ''%2'' 40 20 True '''') attached_run
   in paneForPeer h' ''d'' \<noteq> Some ''%1''"
  using attach_moves_the_peer [OF attached_reach, of "''%2''" 40 20 quiet_env "''d''" "''attach''" True "''''"]
  by (auto simp: ValidTmuxTarget_def target_char_def dims_ok_def MinDimension_def MaxDimension_def
      Let_def detached_def attached_def)



text \<open>Property C26. Input of a peer in a reachable state is typed into the pane it is attached to and
  nowhere else; without an attachment it runs no tmux command at all and is answered with
  \<open>not_attached\<close>.\<close>

theorem input_reaches_own_pane_only:
  assumes "reach hinit hstep h" and "length d \<le> MaxInputSize"
  shows "let h' = HandleMessage e p (InputRequest ty d) h
         in (case paneForPeer h p of
               Some q \<Rightarrow> hb h' = (hb h)\<lparr>cl := snd (SendKeys (ex e) q d (cl (hb h)))\<rparr>
             | None \<Rightarrow> h' = sendError e p ''not_attached'' ''no pane attached'' h)"
proof (rule hcore_cases [of h p])
  show "hcore h"
    using handler.inv_reach [OF assms(1)] by (simp add: hinv_def)
next
  assume "detached h p"
  then show ?thesis
    using assms(2) by (simp add: detached_def handleInput_def)
next
  fix b sid q assume "attached h p b sid q"
  then show ?thesis
    using assms(2)
    by (auto simp: attached_def bview_def handleInput_def Write_def sendError_def sendMsg_def Let_def
        split: prod.splits sum.splits)
qed

theorem input_reaches_own_pane_only_witness:
  "let h' = HandleMessage quiet_env ''d'' (InputRequest ''input'' ''ls'') attached_run
   in hb h' = (hb attached_run)\<lparr>cl := snd (SendKeys (ex quiet_env) ''%1'' ''ls'' (cl (hb attached_run)))\<rparr>"
  using input_reaches_own_pane_only [OF attached_reach, of "''ls''" quiet_env "''d''" "''input''"]
    attachedD(4) [OF run_attached]
  by (simp add: Let_def MaxInputSize_def)

end
