(* ===== verification/Utf8.thy ===== *)
theory Utf8
  imports Go_Std
begin

text \<open>
  Go's view of a string as UTF-8: how \<open>range\<close>, \<open>[]rune(s)\<close>, \<open>string(rs)\<close> and \<open>strings.Map\<close>
  split bytes into runes. A rune is represented by its encoding; a byte that starts no
  well-formed encoding is one rune, U+FFFD. The two users in the agent are
  \<open>TruncateMobileName\<close> and \<open>SanitizeDisplayString\<close> (\<open>internal/auth/pairing.go\<close>).
\<close>

section \<open>Runes\<close>

definition between :: "nat \<Rightarrow> nat \<Rightarrow> char \<Rightarrow> bool" where
  "between lo hi c \<longleftrightarrow> lo \<le> (of_char c :: nat) \<and> of_char c \<le> hi"

text \<open>The length an encoding that starts with this byte must have (0: none does), and the second
  bytes it accepts: no overlong forms, no surrogates, nothing above U+10FFFF.\<close>

definition lead_size :: "char \<Rightarrow> nat" where
  "lead_size a =
     (if between 0x00 0x7F a then 1
      else if between 0xC2 0xDF a then 2
      else if between 0xE0 0xEF a then 3
      else if between 0xF0 0xF4 a then 4
      else 0)"

definition second_ok :: "char \<Rightarrow> char \<Rightarrow> bool" where
  "second_ok a b =
     (if a = CHR 0xE0 then between 0xA0 0xBF b
      else if a = CHR 0xED then between 0x80 0x9F b
      else if a = CHR 0xF0 then between 0x90 0xBF b
      else if a = CHR 0xF4 then between 0x80 0x8F b
      else between 0x80 0xBF b)"

fun rune_size :: "bytes \<Rightarrow> nat" where
  "rune_size [] = 0"
| "rune_size [a] = (if lead_size a = 1 then 1 else 0)"
| "rune_size (a # b # s) =
     (let n = lead_size a in
      if n \<le> 1 then n
      else if second_ok a b \<and> n - 2 \<le> length s \<and> list_all (between 0x80 0xBF) (take (n - 2) s) then n
      else 0)"

definition RuneError :: bytes where "RuneError = [CHR 0xEF, CHR 0xBF, CHR 0xBD]"

function runes :: "bytes \<Rightarrow> bytes list" where
  "runes [] = []"
| "runes (a # s) =
     (let n = rune_size (a # s) in
      if n = 0 then RuneError # runes s else take n (a # s) # runes (drop n (a # s)))"
  by pat_completeness auto

termination
  by (relation "measure length") auto

definition utf8_valid :: "bytes \<Rightarrow> bool" where "utf8_valid s \<longleftrightarrow> concat (runes s) = s"

definition is_rune :: "bytes \<Rightarrow> bool" where "is_rune r \<longleftrightarrow> r \<noteq> [] \<and> rune_size r = length r"

lemma lead_size_le: "lead_size a \<le> 4"
  by (simp add: lead_size_def)

lemma rune_size_le: "rune_size s \<le> length s"
  by (cases s rule: rune_size.cases) (auto simp: Let_def)

lemma rune_size_prefix: "rune_size s = n \<Longrightarrow> n > 0 \<Longrightarrow> rune_size (take n s @ r) = n"
proof (cases s rule: rune_size.cases)
  case (3 a b s')
  assume n: "rune_size s = n" "n > 0"
  show ?thesis
  proof (cases "lead_size a \<le> 1")
    case True
    with n 3 have "lead_size a = 1" "n = 1" by (auto simp: Let_def)
    then show ?thesis using 3 by (cases r) (auto simp: Let_def)
  next
    case False
    with n 3 obtain m where m: "lead_size a = n" "n = Suc (Suc m)" "second_ok a b" "m \<le> length s'"
      "list_all (between 0x80 0xBF) (take m s')"
      by (cases n rule: nat.exhaust; cases "n - 1") (auto simp: Let_def split: if_splits)
    then show ?thesis using 3 by simp
  qed
qed (cases r; auto split: if_splits)+

lemma rune_error_rune [simp]: "is_rune RuneError"
  by (simp add: is_rune_def RuneError_def lead_size_def between_def second_ok_def)

lemma runes_are_runes: "r \<in> set (runes s) \<Longrightarrow> is_rune r"
proof (induction s rule: runes.induct)
  case (2 a s)
  let ?n = "rune_size (a # s)"
  have "is_rune (take ?n (a # s))" if "?n \<noteq> 0"
    using rune_size_prefix [of "a # s" ?n "[]"] that rune_size_le [of "a # s"] by (auto simp: is_rune_def)
  with 2 show ?case by (auto simp: Let_def split: if_splits)
qed simp

lemma runes_cons:
  assumes "is_rune r" shows "runes (r @ s) = r # runes s"
proof -
  have n: "rune_size (r @ s) = length r"
    using assms rune_size_prefix [of r "length r" s] by (auto simp: is_rune_def)
  obtain a r' where r: "r = a # r'" using assms by (cases r) (auto simp: is_rune_def)
  show ?thesis using n unfolding r by (simp add: Let_def)
qed

lemma runes_concat: "list_all is_rune rs \<Longrightarrow> runes (concat rs) = rs"
  by (induction rs) (auto simp: runes_cons)

lemma all_runes: "list_all is_rune (runes s)"
  by (simp add: list_all_iff runes_are_runes)

lemma utf8_valid_concat: "list_all is_rune rs \<Longrightarrow> utf8_valid (concat rs)"
  by (simp add: utf8_valid_def runes_concat)

lemma list_all_take: "list_all P xs \<Longrightarrow> list_all P (take n xs)"
  by (auto simp: list_all_iff dest: in_set_takeD)

lemma list_all_filter: "list_all P xs \<Longrightarrow> list_all P (filter Q xs)"
  by (auto simp: list_all_iff)

lemma runes_ascii: "between 0x00 0x7F a \<Longrightarrow> runes (a # s) = [a] # runes s"
  using runes_cons [of "[a]" s] by (simp add: is_rune_def lead_size_def)

text \<open>An ASCII byte occurs in an encoding only as the whole rune.\<close>

lemma cont_not_ascii: "between 0x80 0xBF c \<Longrightarrow> \<not> between 0x00 0x7F c"
  by (simp add: between_def)

lemma rune_ascii: "is_rune r \<Longrightarrow> c \<in> set r \<Longrightarrow> between 0x00 0x7F c \<Longrightarrow> r = [c]"
proof (cases r rule: rune_size.cases)
  case (3 a b s)
  assume r: "is_rune r" and c: "c \<in> set r" "between 0x00 0x7F c"
  from r 3 have n: "lead_size a = Suc (Suc (length s))" and "second_ok a b" "list_all (between 0x80 0xBF) s"
    by (auto simp: is_rune_def Let_def split: if_splits)
  then have "\<not> between 0x00 0x7F a" "\<not> between 0x00 0x7F b" "\<forall>x\<in>set s. \<not> between 0x00 0x7F x"
    by (auto simp: lead_size_def second_ok_def between_def list_all_iff split: if_splits)
  with c 3 show ?thesis by auto
qed (auto simp: is_rune_def)

section \<open>Names and text shown on the terminal\<close>

text \<open>\<open>unicode.IsPrint\<close>: exact for Latin-1, where the control characters are; above it the
  table of printable characters is the parameter \<open>prn\<close>.\<close>

definition IsPrint :: "(bytes \<Rightarrow> bool) \<Rightarrow> bytes \<Rightarrow> bool" where
  "IsPrint prn r = (case r of
      [c] \<Rightarrow> between 0x20 0x7E c
    | [a, b] \<Rightarrow> if a = CHR 0xC2 then between 0xA1 0xBF b \<and> b \<noteq> CHR 0xAD
                else if a = CHR 0xC3 then True else prn r
    | _ \<Rightarrow> prn r)"

definition SanitizeDisplayString :: "(bytes \<Rightarrow> bool) \<Rightarrow> string \<Rightarrow> string" where
  "SanitizeDisplayString prn s = concat (filter (IsPrint prn) (runes s))"

definition MaxMobileNameLen :: nat where "MaxMobileNameLen = 64"

definition TruncateMobileName :: "string \<Rightarrow> string" where
  "TruncateMobileName name =
     (let rs = runes name in
      if length rs > MaxMobileNameLen then concat (take MaxMobileNameLen rs) else concat rs)"

lemma runes_sanitized: "runes (SanitizeDisplayString prn s) = filter (IsPrint prn) (runes s)"
  by (simp add: SanitizeDisplayString_def runes_concat list_all_filter all_runes)

lemma runes_truncated: "runes (TruncateMobileName s) = take MaxMobileNameLen (runes s)"
  by (simp add: TruncateMobileName_def runes_concat list_all_take all_runes Let_def)

lemma utf8_runes: "utf8_valid s \<longleftrightarrow> concat (runes s) = s"
  by (simp add: utf8_valid_def)

lemma utf8_truncated [simp]: "utf8_valid (TruncateMobileName s)"
  by (simp add: utf8_valid_def runes_truncated) (simp add: TruncateMobileName_def Let_def)

text \<open>Property C34. Text that comes from the server and is printed cannot drive the terminal: what
  \<open>SanitizeDisplayString\<close> returns is valid UTF-8 made of printable characters of the input in
  their order, with no byte below 0x20, no DEL and no C1 control character, and sanitizing it
  again changes nothing.\<close>

theorem sanitized_is_printable:
  "let out = SanitizeDisplayString prn s in
     utf8_valid out \<and> runes out = filter (IsPrint prn) (runes s) \<and>
     SanitizeDisplayString prn out = out \<and>
     (\<forall>c. c \<in> set out \<longrightarrow> (0x20 \<le> (of_char c :: nat) \<and> c \<noteq> CHR 0x7F)) \<and>
     (\<forall>b. between 0x80 0x9F b \<longrightarrow> [CHR 0xC2, b] \<notin> set (runes out))"
proof -
  let ?out = "SanitizeDisplayString prn s"
  have ascii: "0x20 \<le> (of_char c :: nat) \<and> c \<noteq> CHR 0x7F" if "c \<in> set ?out" for c
  proof (cases "between 0x00 0x7F c")
    case True
    from that obtain r where r: "r \<in> set (runes s)" "IsPrint prn r" "c \<in> set r"
      by (auto simp: SanitizeDisplayString_def)
    have "r = [c]" using rune_ascii [OF runes_are_runes [OF r(1)] r(3) True] .
    with r show ?thesis by (auto simp: IsPrint_def between_def)
  qed (auto simp: between_def)
  have c1: "\<not> IsPrint prn [CHR 0xC2, b]" if "between 0x80 0x9F b" for b
    using that by (simp add: IsPrint_def between_def)
  have valid: "utf8_valid ?out"
    by (simp add: utf8_valid_def runes_sanitized) (simp add: SanitizeDisplayString_def)
  have "SanitizeDisplayString prn ?out = concat (filter (IsPrint prn) (runes ?out))"
    by (simp add: SanitizeDisplayString_def)
  then have idem: "SanitizeDisplayString prn ?out = ?out"
    by (simp add: runes_sanitized) (simp add: SanitizeDisplayString_def)
  show ?thesis
    using ascii c1 valid idem by (auto simp: runes_sanitized Let_def)
qed

text \<open>A stored mobile name has at most \<open>MaxMobileNameLen\<close> characters and is valid UTF-8
  whatever was sent; the cut never splits a character: the characters kept are the first ones
  of the name, and a valid name that is short enough is stored unchanged.\<close>

theorem TruncateMobileName_bounds:
  "length (runes (TruncateMobileName s)) \<le> MaxMobileNameLen \<and> utf8_valid (TruncateMobileName s) \<and>
   runes (TruncateMobileName s) = take MaxMobileNameLen (runes s) \<and>
   (utf8_valid s \<and> length (runes s) \<le> MaxMobileNameLen \<longrightarrow> TruncateMobileName s = s)"
  by (auto simp: runes_truncated) (simp add: TruncateMobileName_def utf8_valid_def Let_def)

section \<open>Witnesses\<close>

theorem sanitized_is_printable_witness:
  "SanitizeDisplayString (\<lambda>_. True) (CHR 0x1B # ''[2'') = ''[2'' \<and>
   SanitizeDisplayString (\<lambda>_. True) (SanitizeDisplayString (\<lambda>_. True) (CHR 0x1B # ''[2'')) = ''[2''"
proof -
  have "runes (CHR 0x1B # ''[2'') = [[CHR 0x1B], ''['', ''2'']"
    by (simp add: runes_ascii between_def del: runes.simps(2))
  then have "SanitizeDisplayString (\<lambda>_. True) (CHR 0x1B # ''[2'') = ''[2''"
    by (simp add: SanitizeDisplayString_def IsPrint_def between_def del: runes.simps(2))
  with sanitized_is_printable [of "\<lambda>_. True" "CHR 0x1B # ''[2''"] show ?thesis
    by (simp add: Let_def del: runes.simps(2))
qed

theorem TruncateMobileName_bounds_witness:
  "TruncateMobileName ''phone'' = ''phone''"
proof -
  have "utf8_valid ''phone'' \<and> length (runes ''phone'') \<le> MaxMobileNameLen"
    by (simp add: utf8_valid_def MaxMobileNameLen_def runes_ascii between_def del: runes.simps(2))
  with TruncateMobileName_bounds [of "''phone''"] show ?thesis by blast
qed

end
