(* ===== verification/Secret_Store.thy ===== *)
theory Secret_Store
  imports Utf8 "HOL-Library.AList"
begin

text \<open>
  \<open>internal/auth/secretstore*.go\<close>: the interface every backend implements, and the three
  backends. A store is a record of its operations on a state \<open>'s\<close>; the locale \<open>secret_store\<close>
  holds the contract of the interface and is interpreted for the in-memory and for the
  encrypted-file store; the keyring store meets it when the system keyring behaves as
  documented.

  The encrypted file: Argon2id, XChaCha20-Poly1305 and the JSON codec are parameters
  (\<open>crypto\<close>); what each system call returned is the record \<open>fio\<close>; the keys directory is a map
  from file names to contents. A Go map of secrets is an association list.

  Shown here: a successful write is what every later process reads, for every key; a write
  that fails at any point leaves the old file or a complete new one and no temporary file;
  but a failed write stays visible in the process that attempted it.
\<close>

section \<open>The interface\<close>

datatype store_error =
    ErrSecretNotFound
  | EKeyring
  | EKeyringDecode
  | EReadSecrets
  | ETooSmall nat
  | EVersion char
  | EOpen
  | EParse
  | ERandom
  | ECorruptFallback nat
  | EReadFallback
  | EMkdir
  | EWriteFallback
  | ETemp
  | EWrite
  | EChmod
  | EClose
  | ERename
  | EUnknownBackend string
  | EKeyringUnavailable

record 's store =
  sget :: "string \<Rightarrow> 's \<Rightarrow> (store_error + bytes) \<times> 's"
  sset :: "string \<Rightarrow> bytes \<Rightarrow> 's \<Rightarrow> (store_error + unit) \<times> 's"
  sdel :: "string \<Rightarrow> 's \<Rightarrow> (store_error + unit) \<times> 's"

definition SecretKeyEd25519Private :: string where "SecretKeyEd25519Private = ''ed25519-private-key''"

definition SharedSecretKey :: "string \<Rightarrow> string" where
  "SharedSecretKey d = ''shared-secret-'' @ d"

text \<open>The contract: an abstract map of secrets; reading does not change it and answers with it
  (or with an error of the backend), a write or a deletion that reports success has happened.\<close>

definition lookup_result :: "(string \<rightharpoonup> bytes) \<Rightarrow> string \<Rightarrow> store_error + bytes" where
  "lookup_result m k = (case m k of None \<Rightarrow> Inl ErrSecretNotFound | Some v \<Rightarrow> Inr v)"

locale secret_store =
  fixes st :: "'s store" and secrets_of :: "'s \<Rightarrow> string \<rightharpoonup> bytes" and ok :: "'s \<Rightarrow> bool"
    and keyok :: "string \<Rightarrow> bool"
  assumes get_state: "ok s \<Longrightarrow> sget st k s = (r, s') \<Longrightarrow> ok s' \<and> secrets_of s' = secrets_of s"
    and get_result: "ok s \<Longrightarrow> sget st k s = (r, s') \<Longrightarrow> isOK r \<or> r = Inl ErrSecretNotFound \<Longrightarrow>
      r = lookup_result (secrets_of s) k"
    and set_done: "ok s \<Longrightarrow> keyok k \<Longrightarrow> sset st k v s = (Inr (), s') \<Longrightarrow> ok s' \<and> secrets_of s' = (secrets_of s)(k \<mapsto> v)"
    and del_done: "ok s \<Longrightarrow> sdel st k s = (Inr (), s') \<Longrightarrow> ok s' \<and> secrets_of s' = (secrets_of s)(k := None)"
begin

lemma get_after_set:
  assumes "ok s" "keyok k" "sset st k v s = (Inr (), s1)" "sget st k' s1 = (r, s2)" "isOK r \<or> r = Inl ErrSecretNotFound"
  shows "r = lookup_result ((secrets_of s)(k \<mapsto> v)) k'"
  using get_result [OF _ assms(4,5)] set_done [OF assms(1-3)] by simp

lemma get_after_del:
  assumes "ok s" "sdel st k s = (Inr (), s1)" "sget st k' s1 = (r, s2)" "isOK r \<or> r = Inl ErrSecretNotFound"
  shows "r = lookup_result ((secrets_of s)(k := None)) k'"
  using get_result [OF _ assms(3,4)] del_done [OF assms(1,2)] by simp

end

section \<open>In memory\<close>

type_synonym secrets = "(string \<times> bytes) list"

definition Memory_Get :: "string \<Rightarrow> secrets \<Rightarrow> (store_error + bytes) \<times> secrets" where
  "Memory_Get k m = (case map_of m k of None \<Rightarrow> (Inl ErrSecretNotFound, m) | Some v \<Rightarrow> (Inr v, m))"

definition Memory_Set :: "string \<Rightarrow> bytes \<Rightarrow> secrets \<Rightarrow> (store_error + unit) \<times> secrets" where
  "Memory_Set k v m = (Inr (), AList.update k v m)"

definition Memory_Delete :: "string \<Rightarrow> secrets \<Rightarrow> (store_error + unit) \<times> secrets" where
  "Memory_Delete k m = (Inr (), AList.delete k m)"

definition memory_store :: "secrets store" where
  "memory_store = \<lparr>sget = Memory_Get, sset = Memory_Set, sdel = Memory_Delete\<rparr>"

interpretation memory: secret_store memory_store map_of "\<lambda>_. True" "\<lambda>_. True"
  by unfold_locales
    (auto simp: memory_store_def Memory_Get_def Memory_Set_def Memory_Delete_def lookup_result_def
      update_conv' delete_conv' split: option.splits)

section \<open>The system keyring\<close>

text \<open>The keyring library: \<open>None\<close> is its not-found error, other errors and panics are \<open>Inl\<close>.\<close>

record 'k keyring =
  kr_get :: "string \<Rightarrow> string \<Rightarrow> 'k \<Rightarrow> (unit + string option) \<times> 'k"
  kr_set :: "string \<Rightarrow> string \<Rightarrow> string \<Rightarrow> 'k \<Rightarrow> (unit + unit) \<times> 'k"
  kr_delete :: "string \<Rightarrow> string \<Rightarrow> 'k \<Rightarrow> (unit + bool) \<times> 'k"

definition ServiceName :: string where "ServiceName = ''pocketmux''"

definition Keyring_Get :: "'k keyring \<Rightarrow> string \<Rightarrow> 'k \<Rightarrow> (store_error + bytes) \<times> 'k" where
  "Keyring_Get kr k s = (case kr_get kr ServiceName k s of
      (Inl _, s1) \<Rightarrow> (Inl EKeyring, s1)
    | (Inr None, s1) \<Rightarrow> (Inl ErrSecretNotFound, s1)
    | (Inr (Some t), s1) \<Rightarrow>
        (case b64_decode t of None \<Rightarrow> (Inl EKeyringDecode, s1) | Some d \<Rightarrow> (Inr d, s1)))"

definition Keyring_Set :: "'k keyring \<Rightarrow> string \<Rightarrow> bytes \<Rightarrow> 'k \<Rightarrow> (store_error + unit) \<times> 'k" where
  "Keyring_Set kr k v s = (case kr_set kr ServiceName k (b64_encode v) s of
      (Inl _, s1) \<Rightarrow> (Inl EKeyring, s1) | (Inr _, s1) \<Rightarrow> (Inr (), s1))"

definition Keyring_Delete :: "'k keyring \<Rightarrow> string \<Rightarrow> 'k \<Rightarrow> (store_error + unit) \<times> 'k" where
  "Keyring_Delete kr k s = (case kr_delete kr ServiceName k s of
      (Inl _, s1) \<Rightarrow> (Inl EKeyring, s1) | (Inr _, s1) \<Rightarrow> (Inr (), s1))"

definition keyring_store :: "'k keyring \<Rightarrow> 'k store" where
  "keyring_store kr = \<lparr>sget = Keyring_Get kr, sset = Keyring_Set kr, sdel = Keyring_Delete kr\<rparr>"

text \<open>\<open>ProbeKeyring\<close>, given whether this is macOS and whether the keychain directory exists.\<close>

definition ProbeKeyring :: "'k keyring \<Rightarrow> bool \<Rightarrow> bool \<Rightarrow> 'k \<Rightarrow> (store_error + unit) \<times> 'k" where
  "ProbeKeyring kr darwin haveDir s =
     (if darwin \<and> \<not> haveDir then (Inl EKeyring, s)
      else case kr_set kr ServiceName ''__probe__'' ''test'' s of
        (Inl _, s1) \<Rightarrow> (Inl EKeyring, s1)
      | (Inr _, s1) \<Rightarrow> (Inr (), snd (kr_delete kr ServiceName ''__probe__'' s1)))"

datatype backend = KeyringBackend | FileBackend

definition NewSecretStore :: "string \<Rightarrow> (store_error + unit) \<Rightarrow> store_error + backend" where
  "NewSecretStore pref probe =
     (if pref = ''keyring'' then (if isOK probe then Inr KeyringBackend else Inl EKeyringUnavailable)
      else if pref = ''file'' then Inr FileBackend
      else if pref = ''auto'' \<or> pref = '''' then Inr (if isOK probe then KeyringBackend else FileBackend)
      else Inl (EUnknownBackend pref))"

text \<open>A keyring that behaves as documented: a map from service and key to strings.\<close>

definition keyring_behaves :: "'k keyring \<Rightarrow> ('k \<Rightarrow> string \<Rightarrow> string \<rightharpoonup> string) \<Rightarrow> bool" where
  "keyring_behaves kr view \<longleftrightarrow>
     (\<forall>a k s r s'. kr_get kr a k s = (r, s') \<longrightarrow> view s' = view s \<and> (isOK r \<longrightarrow> r = Inr (view s a k))) \<and>
     (\<forall>a k t s s'. kr_set kr a k t s = (Inr (), s') \<longrightarrow> view s' = (view s)(a := (view s a)(k \<mapsto> t))) \<and>
     (\<forall>a k s r s'. kr_delete kr a k s = (Inr r, s') \<longrightarrow> view s' = (view s)(a := (view s a)(k := None)))"

definition keyring_secrets :: "('k \<Rightarrow> string \<Rightarrow> string \<rightharpoonup> string) \<Rightarrow> 'k \<Rightarrow> string \<rightharpoonup> bytes" where
  "keyring_secrets view s k = (case view s ServiceName k of None \<Rightarrow> None | Some t \<Rightarrow> b64_decode t)"

definition keyring_encoded :: "('k \<Rightarrow> string \<Rightarrow> string \<rightharpoonup> string) \<Rightarrow> 'k \<Rightarrow> bool" where
  "keyring_encoded view s \<longleftrightarrow> (\<forall>k t. view s ServiceName k = Some t \<longrightarrow> b64_decode t \<noteq> None)"

lemma keyring_store_laws:
  assumes "keyring_behaves kr view" "keyring_encoded view s"
  shows "sget (keyring_store kr) k s = (r, s') \<Longrightarrow>
      keyring_encoded view s' \<and> keyring_secrets view s' = keyring_secrets view s"
    and "sget (keyring_store kr) k s = (r, s') \<Longrightarrow> isOK r \<or> r = Inl ErrSecretNotFound \<Longrightarrow>
      r = lookup_result (keyring_secrets view s) k"
    and "sset (keyring_store kr) k v s = (Inr (), s') \<Longrightarrow>
      keyring_encoded view s' \<and> keyring_secrets view s' = (keyring_secrets view s)(k \<mapsto> v)"
    and "sdel (keyring_store kr) k s = (Inr (), s') \<Longrightarrow>
      keyring_encoded view s' \<and> keyring_secrets view s' = (keyring_secrets view s)(k := None)"
proof -
  note kr = assms(1) [unfolded keyring_behaves_def]
  { assume g: "sget (keyring_store kr) k s = (r, s')"
    obtain q s1 where q: "kr_get kr ServiceName k s = (q, s1)" by fastforce
    then have v: "view s1 = view s" "isOK q \<longrightarrow> q = Inr (view s ServiceName k)" using kr by blast+
    have s1: "s' = s1" using g q
      by (auto simp: keyring_store_def Keyring_Get_def split: sum.splits option.splits)
    show "keyring_encoded view s' \<and> keyring_secrets view s' = keyring_secrets view s"
      using assms(2) v(1) s1 by (simp add: keyring_encoded_def keyring_secrets_def fun_eq_iff)
    show "isOK r \<or> r = Inl ErrSecretNotFound \<Longrightarrow> r = lookup_result (keyring_secrets view s) k"
      using g q v assms(2)
      by (auto simp: keyring_store_def Keyring_Get_def lookup_result_def keyring_secrets_def
          keyring_encoded_def split: sum.splits option.splits) }
  { assume "sset (keyring_store kr) k v s = (Inr (), s')"
    then have "kr_set kr ServiceName k (b64_encode v) s = (Inr (), s')"
      by (auto simp: keyring_store_def Keyring_Set_def split: prod.splits sum.splits)
    then have "view s' = (view s)(ServiceName := (view s ServiceName)(k \<mapsto> b64_encode v))"
      using kr by blast
    then show "keyring_encoded view s' \<and> keyring_secrets view s' = (keyring_secrets view s)(k \<mapsto> v)"
      using assms(2) by (auto simp: keyring_encoded_def keyring_secrets_def fun_eq_iff b64_decode_encode) }
  { assume "sdel (keyring_store kr) k s = (Inr (), s')"
    then obtain q where "kr_delete kr ServiceName k s = (Inr q, s')"
      by (auto simp: keyring_store_def Keyring_Delete_def split: prod.splits sum.splits)
    then have "view s' = (view s)(ServiceName := (view s ServiceName)(k := None))"
      using kr by blast
    then show "keyring_encoded view s' \<and> keyring_secrets view s' = (keyring_secrets view s)(k := None)"
      using assms(2) by (auto simp: keyring_encoded_def keyring_secrets_def fun_eq_iff) }
qed

section \<open>The machine's identity\<close>

text \<open>What the backend relies on and does not change: the operating system, the contents of the
  machine-id files (\<open>None\<close> if unreadable), the output of \<open>ioreg\<close>, the key derivation, the cipher
  and the JSON codec.\<close>

record crypto =
  goos :: string
  etc :: "string \<rightharpoonup> bytes"
  ioreg :: "string option"
  idkey :: "bytes \<Rightarrow> bytes \<Rightarrow> bytes"
  seal :: "bytes \<Rightarrow> bytes \<Rightarrow> bytes \<Rightarrow> bytes"
  aopen :: "bytes \<Rightarrow> bytes \<Rightarrow> bytes \<Rightarrow> bytes option"
  marshal :: "secrets \<Rightarrow> bytes"
  unmarshal :: "bytes \<Rightarrow> secrets option"

text \<open>The outcome of the calls of one operation: \<open>None\<close> or \<open>False\<close> for a call that failed;
  \<open>tmpName\<close> is the random part of the temporary file's name.\<close>

record fio =
  readOK :: bool
  fbReadOK :: bool
  fbRandom :: "bytes option"
  fbMkdirOK :: bool
  fbWriteOK :: bool
  saltRandom :: "bytes option"
  nonceRandom :: "bytes option"
  mkdirOK :: bool
  tmpName :: "string option"
  writeOK :: bool
  chmodOK :: bool
  closeOK :: bool
  renameOK :: bool

type_synonym files = "string \<rightharpoonup> bytes"

definition secretsFileName :: string where "secretsFileName = ''secrets.enc''"
definition fallbackKeyFileName :: string where "fallbackKeyFileName = ''machine-id.key''"
definition machineIDApp :: string where "machineIDApp = ''pocketmux-agent-v1''"
definition fileVersion :: char where "fileVersion = CHR 0x01"
definition saltSize :: nat where "saltSize = 16"
definition nonceSize :: nat where "nonceSize = 24"
definition Overhead :: nat where "Overhead = 16"
definition fallbackKeySize :: nat where "fallbackKeySize = 32"

fun first_id :: "bytes option list \<Rightarrow> bytes option" where
  "first_id [] = None"
| "first_id (None # ds) = first_id ds"
| "first_id (Some d # ds) = (let mid = trim_space d in if length mid > 0 then Some mid else first_id ds)"

definition readLinuxMachineID :: "crypto \<Rightarrow> bytes option" where
  "readLinuxMachineID cr = first_id [etc cr ''/etc/machine-id'', etc cr ''/var/lib/dbus/machine-id'']"

definition trim_quotes :: "string \<Rightarrow> string" where
  "trim_quotes s = trim_right (CHR 0x22) (dropWhile (\<lambda>c. c = CHR 0x22) s)"

fun find_uuid :: "string list \<Rightarrow> bytes option" where
  "find_uuid [] = None"
| "find_uuid (l # ls) =
     (if contains_sub l ''IOPlatformUUID'' then
        (let parts = splitN (CHR ''='') 2 l in
         if length parts = 2 then
           (let uuid = trim_quotes (trim_space (parts ! 1)) in
            if length uuid > 0 then Some uuid else find_uuid ls)
         else find_uuid ls)
      else find_uuid ls)"

definition readMacOSMachineID :: "crypto \<Rightarrow> bytes option" where
  "readMacOSMachineID cr = (case ioreg cr of None \<Rightarrow> None | Some out \<Rightarrow> find_uuid (split_on (CHR 0x0A) out))"

definition readMachineID :: "crypto \<Rightarrow> bytes option" where
  "readMachineID cr = (if goos cr = ''darwin'' then readMacOSMachineID cr else readLinuxMachineID cr)"

definition hmacSHA256 :: "bytes \<Rightarrow> string \<Rightarrow> bytes" where
  "hmacSHA256 d key = hmac_sha256 key d"

definition fallbackMachineID :: "fio \<Rightarrow> files \<Rightarrow> (store_error + bytes) \<times> files" where
  "fallbackMachineID io d = (case d fallbackKeyFileName of
      Some k \<Rightarrow>
        if \<not> fbReadOK io then (Inl EReadFallback, d)
        else if length k \<noteq> fallbackKeySize then (Inl (ECorruptFallback (length k)), d)
        else (Inr (hmacSHA256 k machineIDApp), d)
    | None \<Rightarrow>
        (case fbRandom io of
           None \<Rightarrow> (Inl ERandom, d)
         | Some k \<Rightarrow>
            if \<not> fbMkdirOK io then (Inl EMkdir, d)
            else if \<not> fbWriteOK io then (Inl EWriteFallback, d)
            else (Inr (hmacSHA256 k machineIDApp), d(fallbackKeyFileName \<mapsto> k))))"

definition getMachineID :: "crypto \<Rightarrow> fio \<Rightarrow> files \<Rightarrow> (store_error + bytes) \<times> files" where
  "getMachineID cr io d = (case readMachineID cr of
      Some mid \<Rightarrow> if length mid > 0 then (Inr (hmacSHA256 mid machineIDApp), d) else fallbackMachineID io d
    | None \<Rightarrow> fallbackMachineID io d)"

section \<open>The encrypted file\<close>

definition deriveKey :: "crypto \<Rightarrow> bytes \<Rightarrow> bytes \<Rightarrow> bytes" where
  "deriveKey cr machineID salt = idkey cr machineID salt"

definition encrypt :: "crypto \<Rightarrow> fio \<Rightarrow> secrets \<Rightarrow> files \<Rightarrow> (store_error + bytes) \<times> files" where
  "encrypt cr io xs d =
     (let plaintext = marshal cr xs in
      case saltRandom io of
        None \<Rightarrow> (Inl ERandom, d)
      | Some salt \<Rightarrow>
         (case getMachineID cr io d of
            (Inl e, d1) \<Rightarrow> (Inl e, d1)
          | (Inr mid, d1) \<Rightarrow>
             (case nonceRandom io of
                None \<Rightarrow> (Inl ERandom, d1)
              | Some nonce \<Rightarrow>
                 (Inr (fileVersion # salt @ nonce @ seal cr (deriveKey cr mid salt) nonce plaintext), d1))))"

definition decrypt :: "crypto \<Rightarrow> fio \<Rightarrow> bytes \<Rightarrow> files \<Rightarrow> (store_error + secrets) \<times> files" where
  "decrypt cr io data d =
     (if length data < 1 + saltSize + nonceSize + Overhead then (Inl (ETooSmall (length data)), d)
      else if hd data \<noteq> fileVersion then (Inl (EVersion (hd data)), d)
      else
        let salt = take saltSize (drop 1 data);
            nonce = take nonceSize (drop (1 + saltSize) data);
            ciphertext = drop (1 + saltSize + nonceSize) data
        in case getMachineID cr io d of
             (Inl e, d1) \<Rightarrow> (Inl e, d1)
           | (Inr mid, d1) \<Rightarrow>
              (case aopen cr (deriveKey cr mid salt) nonce ciphertext of
                 None \<Rightarrow> (Inl EOpen, d1)
               | Some plaintext \<Rightarrow>
                  (case unmarshal cr plaintext of None \<Rightarrow> (Inl EParse, d1) | Some xs \<Rightarrow> (Inr xs, d1))))"

record fstore =
  fs_secrets :: secrets
  fs_loaded :: bool
  disk :: files

definition NewFileSecretStore :: "files \<Rightarrow> fstore" where
  "NewFileSecretStore d = \<lparr>fs_secrets = [], fs_loaded = False, disk = d\<rparr>"

definition ensureLoaded :: "crypto \<Rightarrow> fio \<Rightarrow> fstore \<Rightarrow> (store_error + unit) \<times> fstore" where
  "ensureLoaded cr io s =
     (if fs_loaded s then (Inr (), s)
      else case disk s secretsFileName of
        None \<Rightarrow> (Inr (), s\<lparr>fs_secrets := [], fs_loaded := True\<rparr>)
      | Some data \<Rightarrow>
         if \<not> readOK io then (Inl EReadSecrets, s)
         else (case decrypt cr io data (disk s) of
                 (Inl e, d1) \<Rightarrow> (Inl e, s\<lparr>disk := d1\<rparr>)
               | (Inr xs, d1) \<Rightarrow> (Inr (), s\<lparr>fs_secrets := xs, fs_loaded := True, disk := d1\<rparr>)))"

definition tmp_file :: "string \<Rightarrow> string" where "tmp_file r = ''.secrets-'' @ r @ ''.tmp''"

definition replace_file :: "fio \<Rightarrow> bytes \<Rightarrow> files \<Rightarrow> (store_error + unit) \<times> files" where
  "replace_file io data d =
     (if \<not> mkdirOK io then (Inl EMkdir, d)
      else case tmpName io of
        None \<Rightarrow> (Inl ETemp, d)
      | Some r \<Rightarrow>
         let t = tmp_file r; d1 = d(t \<mapsto> []) in
         if \<not> writeOK io then (Inl EWrite, d1(t := None))
         else let d2 = d1(t \<mapsto> data) in
           if \<not> chmodOK io then (Inl EChmod, d2(t := None))
           else if \<not> closeOK io then (Inl EClose, d2(t := None))
           else if \<not> renameOK io then (Inl ERename, d2(t := None))
           else (Inr (), d2(secretsFileName \<mapsto> data, t := None)))"

definition flush :: "crypto \<Rightarrow> fio \<Rightarrow> fstore \<Rightarrow> (store_error + unit) \<times> fstore" where
  "flush cr io s = (case encrypt cr io (fs_secrets s) (disk s) of
      (Inl e, d1) \<Rightarrow> (Inl e, s\<lparr>disk := d1\<rparr>)
    | (Inr data, d1) \<Rightarrow> (case replace_file io data d1 of (r, d2) \<Rightarrow> (r, s\<lparr>disk := d2\<rparr>)))"

definition File_Get :: "crypto \<Rightarrow> fio \<Rightarrow> string \<Rightarrow> fstore \<Rightarrow> (store_error + bytes) \<times> fstore" where
  "File_Get cr io k s = (case ensureLoaded cr io s of
      (Inl e, s1) \<Rightarrow> (Inl e, s1)
    | (Inr _, s1) \<Rightarrow> (lookup_result (map_of (fs_secrets s1)) k, s1))"

definition File_Set :: "crypto \<Rightarrow> fio \<Rightarrow> string \<Rightarrow> bytes \<Rightarrow> fstore \<Rightarrow> (store_error + unit) \<times> fstore" where
  "File_Set cr io k v s = (case ensureLoaded cr io s of
      (Inl e, s1) \<Rightarrow> (Inl e, s1)
    | (Inr _, s1) \<Rightarrow> flush cr io (s1\<lparr>fs_secrets := AList.update k v (fs_secrets s1)\<rparr>))"

definition File_Delete :: "crypto \<Rightarrow> fio \<Rightarrow> string \<Rightarrow> fstore \<Rightarrow> (store_error + unit) \<times> fstore" where
  "File_Delete cr io k s = (case ensureLoaded cr io s of
      (Inl e, s1) \<Rightarrow> (Inl e, s1)
    | (Inr _, s1) \<Rightarrow> flush cr io (s1\<lparr>fs_secrets := AList.delete k (fs_secrets s1)\<rparr>))"

definition file_store :: "crypto \<Rightarrow> fio \<Rightarrow> fstore store" where
  "file_store cr io = \<lparr>sget = File_Get cr io, sset = File_Set cr io, sdel = File_Delete cr io\<rparr>"

section \<open>What the file holds\<close>

text \<open>The cipher opens what it sealed and adds its tag; the JSON codec restores a map whose keys
  are valid UTF-8, and the keys it returns always are.\<close>

definition keys_ok :: "secrets \<Rightarrow> bool" where "keys_ok xs \<longleftrightarrow> list_all (\<lambda>(k, _). utf8_valid k) xs"

lemma keys_ok_update: "keys_ok xs \<Longrightarrow> utf8_valid k \<Longrightarrow> keys_ok (AList.update k v xs)"
  by (induction xs) (auto simp: keys_ok_def)

lemma keys_ok_delete: "keys_ok xs \<Longrightarrow> keys_ok (AList.delete k xs)"
  by (induction xs) (auto simp: keys_ok_def)

definition crypto_works :: "crypto \<Rightarrow> bool" where
  "crypto_works cr \<longleftrightarrow>
     (\<forall>k n p. aopen cr k n (seal cr k n p) = Some p \<and> length (seal cr k n p) = length p + Overhead) \<and>
     (\<forall>xs. keys_ok xs \<longrightarrow> (\<exists>ys. unmarshal cr (marshal cr xs) = Some ys \<and> map_of ys = map_of xs)) \<and>
     (\<forall>d ys. unmarshal cr d = Some ys \<longrightarrow> keys_ok ys)"

text \<open>\<open>rand.Read\<close> fills its buffer.\<close>

definition random_fills :: "fio \<Rightarrow> bool" where
  "random_fills io \<longleftrightarrow> (\<forall>x. saltRandom io = Some x \<longrightarrow> length x = saltSize) \<and>
     (\<forall>x. nonceRandom io = Some x \<longrightarrow> length x = nonceSize) \<and>
     (\<forall>x. fbRandom io = Some x \<longrightarrow> length x = fallbackKeySize)"

definition io_reads :: fio where
  "io_reads = \<lparr>readOK = True, fbReadOK = True, fbRandom = None, fbMkdirOK = True, fbWriteOK = True,
     saltRandom = None, nonceRandom = None, mkdirOK = True, tmpName = None, writeOK = True,
     chmodOK = True, closeOK = True, renameOK = True\<rparr>"

definition stored :: "crypto \<Rightarrow> files \<Rightarrow> (string \<rightharpoonup> bytes) option" where
  "stored cr d = (case d secretsFileName of
      None \<Rightarrow> Some Map.empty
    | Some data \<Rightarrow> (case fst (decrypt cr io_reads data d) of Inl _ \<Rightarrow> None | Inr xs \<Rightarrow> Some (map_of xs)))"

definition file_secrets :: "crypto \<Rightarrow> fstore \<Rightarrow> string \<rightharpoonup> bytes" where
  "file_secrets cr s = (case stored cr (disk s) of None \<Rightarrow> Map.empty | Some m \<Rightarrow> m)"

text \<open>The file, if there is one, opens on this machine, and the loaded copy agrees with it.\<close>

definition file_consistent :: "crypto \<Rightarrow> fstore \<Rightarrow> bool" where
  "file_consistent cr s \<longleftrightarrow> (case stored cr (disk s) of
      None \<Rightarrow> False | Some m \<Rightarrow> fs_loaded s \<longrightarrow> m = map_of (fs_secrets s) \<and> keys_ok (fs_secrets s))"

text \<open>A machine identity that was obtained is the one obtained later, as long as the fallback key
  stays; and it is the one a read-only environment obtains.\<close>

lemma names_differ [simp]:
  "fallbackKeyFileName \<noteq> secretsFileName" "secretsFileName \<noteq> fallbackKeyFileName"
  "tmp_file r \<noteq> secretsFileName" "secretsFileName \<noteq> tmp_file r"
  "tmp_file r \<noteq> fallbackKeyFileName" "fallbackKeyFileName \<noteq> tmp_file r"
  by (auto simp: fallbackKeyFileName_def secretsFileName_def tmp_file_def)

lemma getMachineID_stable:
  assumes "getMachineID cr io d = (Inr mid, d1)" "random_fills io"
    "d' fallbackKeyFileName = d1 fallbackKeyFileName"
  shows "getMachineID cr io_reads d' = (Inr mid, d')"
  using assms
  by (auto simp: getMachineID_def fallbackMachineID_def io_reads_def random_fills_def
      split: option.splits if_splits)

lemma getMachineID_disk:
  "getMachineID cr io d = (r, d1) \<Longrightarrow> d1 secretsFileName = d secretsFileName"
  by (auto simp: getMachineID_def fallbackMachineID_def split: option.splits if_splits)

lemma getMachineID_agree:
  assumes "getMachineID cr io d = (Inr mid, d1)" "getMachineID cr io_reads d = (Inr mid', d2)"
  shows "mid = mid'" "d1 = d"
  using assms
  by (auto simp: getMachineID_def fallbackMachineID_def io_reads_def split: option.splits if_splits)

lemma decrypt_encrypt:
  assumes "crypto_works cr" "random_fills io" "keys_ok xs" "encrypt cr io xs d = (Inr data, d1)"
    "d' fallbackKeyFileName = d1 fallbackKeyFileName"
  shows "\<exists>ys. decrypt cr io_reads data d' = (Inr ys, d') \<and> map_of ys = map_of xs"
proof -
  obtain salt nonce mid where s: "saltRandom io = Some salt" "nonceRandom io = Some nonce"
    "getMachineID cr io d = (Inr mid, d1)"
    "data = fileVersion # salt @ nonce @ seal cr (deriveKey cr mid salt) nonce (marshal cr xs)"
    using assms(4) by (auto simp: encrypt_def Let_def split: option.splits prod.splits sum.splits)
  have l: "length salt = saltSize" "length nonce = nonceSize"
    using assms(2) s by (auto simp: random_fills_def)
  have g: "getMachineID cr io_reads d' = (Inr mid, d')"
    using getMachineID_stable s(3) assms(2,5) by blast
  obtain ys where y: "unmarshal cr (marshal cr xs) = Some ys" "map_of ys = map_of xs"
    using assms(1,3) unfolding crypto_works_def by blast
  have c: "aopen cr k n (seal cr k n p) = Some p" "length (seal cr k n p) = length p + Overhead" for k n p
    using assms(1) by (auto simp: crypto_works_def)
  show ?thesis
    using y l by (auto simp: decrypt_def s(4) g c)
qed

lemma getMachineID_error_disk: "getMachineID cr io d = (Inl e, d1) \<Longrightarrow> d1 = d"
  by (auto simp: getMachineID_def fallbackMachineID_def split: option.splits if_splits)

lemma ensureLoaded_consistent:
  assumes "file_consistent cr s" "crypto_works cr" "ensureLoaded cr io s = (r, s1)"
  shows "disk s1 = disk s \<and> file_consistent cr s1 \<and> file_secrets cr s1 = file_secrets cr s \<and>
    (isOK r \<longrightarrow> fs_loaded s1 \<and> map_of (fs_secrets s1) = file_secrets cr s \<and> keys_ok (fs_secrets s1))"
proof (cases "fs_loaded s \<or> disk s secretsFileName = None")
  case True
  then show ?thesis
    using assms by (cases "fs_loaded s")
      (auto simp: keys_ok_def ensureLoaded_def file_consistent_def file_secrets_def stored_def split: option.splits)
next
  case False
  then obtain data where data: "disk s secretsFileName = Some data" "\<not> fs_loaded s" by blast
  obtain xs where xs: "fst (decrypt cr io_reads data (disk s)) = Inr xs"
    using assms(1) data by (auto simp: file_consistent_def stored_def split: option.splits sum.splits)
  have "(\<exists>e. decrypt cr io data (disk s) = (Inl e, disk s)) \<or> decrypt cr io data (disk s) = (Inr xs, disk s)"
    using xs
    by (auto simp: decrypt_def Let_def split: if_splits sum.splits prod.splits option.splits
        dest: getMachineID_error_disk getMachineID_agree)
  moreover have "keys_ok xs"
    using xs assms(2)
    by (auto simp: crypto_works_def decrypt_def Let_def split: if_splits sum.splits prod.splits option.splits)
  ultimately show ?thesis
    using assms data xs
    by (auto simp: ensureLoaded_def file_consistent_def file_secrets_def stored_def
        split: if_splits option.splits sum.splits prod.splits)
qed

lemma ensureLoaded_error: "ensureLoaded cr io s = (r, s1) \<Longrightarrow> r \<noteq> Inl ErrSecretNotFound"
  by (auto simp: ensureLoaded_def decrypt_def getMachineID_def fallbackMachineID_def Let_def
      split: if_splits option.splits sum.splits prod.splits)

lemma replace_file_disk:
  assumes "replace_file io data d = (r, d')"
  shows "d' fallbackKeyFileName = d fallbackKeyFileName"
    and "d' secretsFileName = (if isOK r then Some data else d secretsFileName)"
    and "d (tmp_file n) = None \<Longrightarrow> d' (tmp_file n) = None"
  using assms by (auto simp: replace_file_def Let_def split: if_splits option.splits)

lemma encrypt_disk: "encrypt cr io xs d = (r, d1) \<Longrightarrow> d1 secretsFileName = d secretsFileName"
  by (auto simp: encrypt_def Let_def split: option.splits prod.splits sum.splits dest: getMachineID_disk)

lemma flush_cases:
  assumes "flush cr io t = (r, t1)"
  obtains e d1 where "encrypt cr io (fs_secrets t) (disk t) = (Inl e, d1)" "r = Inl e" "t1 = t\<lparr>disk := d1\<rparr>"
  | data d1 d2 where "encrypt cr io (fs_secrets t) (disk t) = (Inr data, d1)"
      "replace_file io data d1 = (r, d2)" "t1 = t\<lparr>disk := d2\<rparr>"
  using assms by (auto simp: flush_def split: prod.splits sum.splits)

lemma flush_fails:
  assumes "flush cr io t = (r, t1)" "\<not> isOK r"
  shows "disk t1 secretsFileName = disk t secretsFileName"
  using assms(1)
proof (rule flush_cases)
  fix data d1 d2
  assume "encrypt cr io (fs_secrets t) (disk t) = (Inr data, d1)" "replace_file io data d1 = (r, d2)"
    "t1 = t\<lparr>disk := d2\<rparr>"
  then show ?thesis using encrypt_disk replace_file_disk(2) assms(2) by fastforce
qed (auto dest: encrypt_disk)

lemma flush_done:
  assumes "crypto_works cr" "random_fills io" "keys_ok (fs_secrets s)" "flush cr io s = (Inr (), s')"
  shows "stored cr (disk s') = Some (map_of (fs_secrets s)) \<and> fs_secrets s' = fs_secrets s \<and>
    fs_loaded s' = fs_loaded s"
proof -
  obtain data d1 d2 where e: "encrypt cr io (fs_secrets s) (disk s) = (Inr data, d1)"
    "replace_file io data d1 = (Inr (), d2)" "s' = s\<lparr>disk := d2\<rparr>"
    using assms(4) by (auto simp: flush_def split: prod.splits sum.splits)
  have fb: "d2 fallbackKeyFileName = d1 fallbackKeyFileName" "d2 secretsFileName = Some data"
    using replace_file_disk [OF e(2)] by simp_all
  show ?thesis
    using decrypt_encrypt [where d' = d2, OF assms(1-3) e(1) fb(1)] fb(2) e(3) by (auto simp: stored_def)
qed

lemma file_store_laws:
  assumes "crypto_works cr" "random_fills io" "file_consistent cr s"
  shows "File_Get cr io k s = (r, s') \<Longrightarrow> file_consistent cr s' \<and> file_secrets cr s' = file_secrets cr s"
    and "File_Get cr io k s = (r, s') \<Longrightarrow> isOK r \<or> r = Inl ErrSecretNotFound \<Longrightarrow> r = lookup_result (file_secrets cr s) k"
    and "File_Set cr io k v s = (Inr (), s') \<Longrightarrow> utf8_valid k \<Longrightarrow> file_consistent cr s' \<and> file_secrets cr s' = (file_secrets cr s)(k \<mapsto> v)"
    and "File_Delete cr io k s = (Inr (), s') \<Longrightarrow> file_consistent cr s' \<and> file_secrets cr s' = (file_secrets cr s)(k := None)"
proof -
  obtain q s1 where q: "ensureLoaded cr io s = (q, s1)" by fastforce
  note l = ensureLoaded_consistent [OF assms(3,1) q]
  have fl: "file_consistent cr s2 \<and> file_secrets cr s2 = map_of xs"
    if "flush cr io (s1\<lparr>fs_secrets := xs\<rparr>) = (Inr (), s2)" "fs_loaded s1" "keys_ok xs" for xs s2
    using flush_done [OF assms(1,2) _ that(1)] that(2,3) by (simp add: file_consistent_def file_secrets_def)
  show "File_Get cr io k s = (r, s') \<Longrightarrow> file_consistent cr s' \<and> file_secrets cr s' = file_secrets cr s"
    using l q by (auto simp: File_Get_def split: sum.splits)
  show "File_Get cr io k s = (r, s') \<Longrightarrow> isOK r \<or> r = Inl ErrSecretNotFound \<Longrightarrow> r = lookup_result (file_secrets cr s) k"
    using q l ensureLoaded_error [OF q] by (auto simp: File_Get_def split: sum.splits)
  show "File_Set cr io k v s = (Inr (), s') \<Longrightarrow> utf8_valid k \<Longrightarrow> file_consistent cr s' \<and> file_secrets cr s' = (file_secrets cr s)(k \<mapsto> v)"
    using q l fl [of "AList.update k v (fs_secrets s1)" s']
    by (auto simp: File_Set_def update_conv' keys_ok_update split: sum.splits)
  show "File_Delete cr io k s = (Inr (), s') \<Longrightarrow> file_consistent cr s' \<and> file_secrets cr s' = (file_secrets cr s)(k := None)"
    using q l fl [of "AList.delete k (fs_secrets s1)" s']
    by (auto simp: File_Delete_def delete_conv' keys_ok_delete split: sum.splits)
qed

text \<open>Both backends meet the contract of the interface; what they rely on is part of the states
  the contract speaks of.\<close>

interpretation filed: secret_store "file_store cr io" "file_secrets cr"
  "\<lambda>s. crypto_works cr \<and> random_fills io \<and> file_consistent cr s" utf8_valid for cr io
  by unfold_locales (auto simp: file_store_def dest: file_store_laws)

interpretation ring: secret_store "keyring_store kr" "keyring_secrets view"
  "\<lambda>s. keyring_behaves kr view \<and> keyring_encoded view s" "\<lambda>_. True" for kr view
  by unfold_locales (auto dest: keyring_store_laws)

section \<open>Properties\<close>



text \<open>A write that failed is nevertheless visible: \<open>Set\<close> puts the value into the loaded
  copy before it writes the file, so when the file cannot be replaced the call reports an error,
  the file keeps the old contents, and the same process from then on reads the value that was
  never stored.\<close>

theorem failed_set_stays_visible:
  "let s = NewFileSecretStore Map.empty;
       (r, s1) = File_Set cr (io\<lparr>renameOK := False\<rparr>) k v s
   in \<not> isOK r \<and> disk s1 secretsFileName = None \<and> fst (File_Get cr io2 k s1) = Inr v"
proof -
  let ?io = "io\<lparr>renameOK := False\<rparr>"
  let ?s0 = "\<lparr>fs_secrets = [(k, v)], fs_loaded = True, disk = Map.empty\<rparr>"
  obtain r s1 where f: "flush cr ?io ?s0 = (r, s1)" by fastforce
  have ren: "replace_file ?io data d = (x, d1) \<Longrightarrow> \<not> isOK x" for data d x d1
    by (auto simp: replace_file_def Let_def split: if_splits option.splits)
  have 1: "\<not> isOK r \<and> disk s1 secretsFileName = None"
    using flush_fails [OF f] f by (auto elim!: flush_cases dest: ren)
  have 2: "fs_secrets s1 = [(k, v)]" "fs_loaded s1"
    using f by (auto simp: flush_def split: prod.splits sum.splits)
  have "File_Set cr ?io k v (NewFileSecretStore Map.empty) = (r, s1)"
    using f by (simp add: File_Set_def ensureLoaded_def NewFileSecretStore_def)
  then show ?thesis
    using 1 2 by (simp add: File_Get_def ensureLoaded_def lookup_result_def)
qed

section \<open>Witnesses\<close>

text \<open>A codec that restores every map and a cipher that only adds a tag.\<close>

fun pack :: "secrets \<Rightarrow> bytes" where
  "pack [] = []"
| "pack ((k, v) # xs) = replicate (length k) (CHR ''1'') @ CHR ''0'' # k @
     replicate (length v) (CHR ''1'') @ CHR ''0'' # v @ pack xs"

definition unpack1 :: "bytes \<Rightarrow> string \<times> bytes" where
  "unpack1 d = (let l = length (takeWhile (\<lambda>c. c = CHR ''1'') d); t = drop (Suc l) d in (take l t, drop l t))"

fun unpack :: "nat \<Rightarrow> bytes \<Rightarrow> secrets" where
  "unpack 0 _ = []"
| "unpack (Suc n) d = (if d = [] then [] else
     (case unpack1 d of (k, d1) \<Rightarrow> case unpack1 d1 of (v, d2) \<Rightarrow> (k, v) # unpack n d2))"

lemma unpack1_pack: "unpack1 (replicate (length x) (CHR ''1'') @ CHR ''0'' # x @ r) = (x, r)"
proof -
  have "takeWhile (\<lambda>c. c = CHR ''1'') (replicate n (CHR ''1'') @ CHR ''0'' # y) = replicate n (CHR ''1'')" for n y
    by (induction n) auto
  then show ?thesis by (simp add: unpack1_def)
qed

lemma unpack_pack: "length xs \<le> n \<Longrightarrow> unpack n (pack xs) = xs"
proof (induction xs arbitrary: n)
  case Nil
  then show ?case by (cases n) auto
next
  case (Cons x xs)
  then obtain m where "n = Suc m" by (cases n) auto
  with Cons show ?case by (cases x) (simp add: unpack1_pack)
qed

lemma length_pack: "length xs \<le> length (pack xs)"
  by (induction xs rule: pack.induct) auto

definition toy :: crypto where
  "toy = \<lparr>goos = ''linux'', etc = Map.empty(''/etc/machine-id'' \<mapsto> ''abc''), ioreg = None,
     idkey = (\<lambda>m s. m), seal = (\<lambda>k n p. replicate 16 (CHR 0x00) @ p), aopen = (\<lambda>k n c. Some (drop 16 c)),
     marshal = pack, unmarshal = (\<lambda>d. let xs = unpack (length d) d in if keys_ok xs then Some xs else None)\<rparr>"

definition toy_io :: fio where
  "toy_io = io_reads\<lparr>saltRandom := Some (replicate 16 (CHR 0x07)), nonceRandom := Some (replicate 24 (CHR 0x09)),
     tmpName := Some ''1''\<rparr>"

lemma toy_works: "crypto_works toy"
  by (auto simp: crypto_works_def toy_def Overhead_def unpack_pack length_pack Let_def split: if_splits)

lemma toy_fills: "random_fills toy_io" "random_fills io_reads"
  by (simp_all add: random_fills_def toy_io_def io_reads_def saltSize_def nonceSize_def)

lemma toy_machine: "getMachineID toy io d = (Inr (hmacSHA256 ''abc'' machineIDApp), d)"
proof -
  have "readMachineID toy = Some ''abc''" by code_simp
  then show ?thesis by (simp add: getMachineID_def)
qed

definition toy_fresh :: fstore where "toy_fresh = NewFileSecretStore Map.empty"

definition toy_written :: fstore where
  "toy_written = snd (File_Set toy toy_io ''k'' ''v'' toy_fresh)"

lemma toy_key: "utf8_valid ''k''"
  by code_simp

lemma toy_set: "File_Set toy toy_io ''k'' ''v'' toy_fresh = (Inr (), toy_written)"
proof -
  have "fst (File_Set toy toy_io ''k'' ''v'' toy_fresh) = Inr ()"
    by (simp add: File_Set_def toy_fresh_def NewFileSecretStore_def ensureLoaded_def flush_def
        encrypt_def toy_machine replace_file_def Let_def toy_io_def io_reads_def)
  then show ?thesis unfolding toy_written_def by (metis prod.collapse)
qed

lemma toy_consistent: "file_consistent toy toy_fresh"
  by (simp add: file_consistent_def stored_def toy_fresh_def NewFileSecretStore_def)

lemma fresh_loads: "stored cr d = Some m \<Longrightarrow> isOK (fst (ensureLoaded cr io_reads (NewFileSecretStore d)))"
proof (cases "d secretsFileName")
  case (Some data)
  obtain r d1 where "decrypt cr io_reads data d = (r, d1)" by fastforce
  moreover assume "stored cr d = Some m"
  ultimately show ?thesis
    using Some by (auto simp: stored_def ensureLoaded_def NewFileSecretStore_def split: sum.splits)
      (simp add: io_reads_def)
qed (simp add: ensureLoaded_def NewFileSecretStore_def)

lemma toy_get: "isOK (fst (File_Get toy io_reads ''k'' (NewFileSecretStore (disk toy_written))))"
proof -
  let ?n = "NewFileSecretStore (disk toy_written)"
  note w = file_store_laws(3) [OF toy_works toy_fills(1) toy_consistent toy_set toy_key]
  then have s: "stored toy (disk toy_written) = Some (file_secrets toy toy_written)"
    by (auto simp: file_consistent_def file_secrets_def split: option.splits)
  then have c: "file_consistent toy ?n" "file_secrets toy ?n = file_secrets toy toy_written"
    by (auto simp: file_consistent_def file_secrets_def NewFileSecretStore_def split: option.splits)
  obtain q s1 where q: "ensureLoaded toy io_reads ?n = (q, s1)" by fastforce
  then have "isOK q" using fresh_loads [OF s] by simp
  then show ?thesis
    using ensureLoaded_consistent [OF c(1) toy_works q] c(2) w q
    by (auto simp: File_Get_def lookup_result_def isOK_iff)
qed



end
