(* ===== verification/Identity.thy ===== *)
theory Identity
  imports Secret_Store "HOL-Library.Sublist"
begin

text \<open>
  The host's identity and how it speaks to the signaling server over HTTP:
  \<open>internal/auth/identity.go\<close>, \<open>hmac.go\<close>, \<open>errors.go\<close>, \<open>jwt.go\<close>, \<open>unpair.go\<close> and the HTTP part of
  \<open>pair_session.go\<close>.

  Ed25519, the parser of URLs, the IP address and IDNA libraries, the JSON codec and the server
  are parameters (\<open>httpenv\<close>); the server may answer every request as it likes, also depending on
  all requests before. The requests sent are a list.

  Shown here: the identity that was generated is the one loaded; the signature sent in a token
  exchange is over the canonical origin of the configured server and cannot be read as one for
  another origin, device or nonce; a token is returned only from two successful replies.
\<close>

section \<open>Device IDs\<close>

datatype id_error =
    EIDLength nat
  | EIDChars
  | EKeygen
  | EStoreKey store_error
  | EWritePub
  | EStatPub
  | EChmodPub
  | ELoadKey store_error
  | EReadPub
  | EPrivSize nat
  | EPubSize nat
  | ErrNoIdentity
  | EReadStore store_error
  | ERemove string

definition ValidateDeviceID :: "string \<Rightarrow> id_error + unit" where
  "ValidateDeviceID d =
     (if length d \<noteq> 32 then Inl (EIDLength (length d))
      else if \<not> list_all is_lower_hex d then Inl EIDChars
      else Inr ())"

definition deriveDeviceID :: "bytes \<Rightarrow> string" where
  "deriveDeviceID pub = hex_encode (take 16 (sha256 pub))"

lemma ValidateDeviceID_ok: "isOK (ValidateDeviceID d) \<longleftrightarrow> length d = 32 \<and> list_all is_lower_hex d"
  by (simp add: ValidateDeviceID_def)

lemma deriveDeviceID_valid: "isOK (ValidateDeviceID (deriveDeviceID pub))"
  by (auto simp: ValidateDeviceID_ok deriveDeviceID_def length_hex_encode list_all_iff hex_encode_lower)

lemma valid_device_id_ascii: "isOK (ValidateDeviceID d) \<Longrightarrow> c \<in> set d \<Longrightarrow> is_lower_hex c"
  by (auto simp: ValidateDeviceID_ok list_all_iff)

section \<open>The identity\<close>

record Identity =
  PrivateKey :: bytes
  Ed25519PublicKey :: bytes
  DeviceID :: string

definition PrivateKeySize :: nat where "PrivateKeySize = 64"
definition PublicKeySize :: nat where "PublicKeySize = 32"
definition keyFilePerms :: nat where "keyFilePerms = 384"

text \<open>The public key file with its permissions (0600 is 384), and the state of the secret store.\<close>

record 's keys =
  pubFile :: "(bytes \<times> nat) option"
  kstore :: 's

text \<open>What the calls of one operation returned. A failed write of the public key leaves what
  \<open>pubLeft\<close> says.\<close>

record kio =
  genKey :: "(bytes \<times> bytes) option"
  pubWriteOK :: bool
  pubLeft :: "(bytes \<times> nat) option"
  pubStatOK :: bool
  pubChmodOK :: bool
  pubReadOK :: bool

definition GenerateIdentity :: "'s store \<Rightarrow> kio \<Rightarrow> 's keys \<Rightarrow> (id_error + Identity) \<times> 's keys" where
  "GenerateIdentity st io k = (case genKey io of
      None \<Rightarrow> (Inl EKeygen, k)
    | Some (pub, priv) \<Rightarrow>
       (let ident = \<lparr>PrivateKey = priv, Ed25519PublicKey = pub, DeviceID = deriveDeviceID pub\<rparr> in
        case sset st SecretKeyEd25519Private priv (kstore k) of
          (Inl e, s1) \<Rightarrow> (Inl (EStoreKey e), k\<lparr>kstore := s1\<rparr>)
        | (Inr _, s1) \<Rightarrow>
           if \<not> pubWriteOK io then (Inl EWritePub, k\<lparr>kstore := s1, pubFile := pubLeft io\<rparr>)
           else (Inr ident, k\<lparr>kstore := s1,
                   pubFile := Some (pub, case pubFile k of None \<Rightarrow> keyFilePerms | Some (_, m) \<Rightarrow> m)\<rparr>)))"

definition enforceKeyFilePerms :: "kio \<Rightarrow> (bytes \<times> nat) option \<Rightarrow> (id_error + unit) \<times> (bytes \<times> nat) option" where
  "enforceKeyFilePerms io f = (case f of
      None \<Rightarrow> (Inl EStatPub, f)
    | Some (d, perm) \<Rightarrow>
        if \<not> pubStatOK io then (Inl EStatPub, f)
        else if perm \<noteq> keyFilePerms then
          (if pubChmodOK io then (Inr (), Some (d, keyFilePerms)) else (Inl EChmodPub, f))
        else (Inr (), f))"

definition LoadIdentity :: "'s store \<Rightarrow> kio \<Rightarrow> 's keys \<Rightarrow> (id_error + Identity) \<times> 's keys" where
  "LoadIdentity st io k = (case enforceKeyFilePerms io (pubFile k) of
      (Inl e, f) \<Rightarrow> (Inl e, k\<lparr>pubFile := f\<rparr>)
    | (Inr _, f) \<Rightarrow>
       (let k1 = k\<lparr>pubFile := f\<rparr> in
        case sget st SecretKeyEd25519Private (kstore k1) of
          (Inl e, s1) \<Rightarrow> (Inl (ELoadKey e), k1\<lparr>kstore := s1\<rparr>)
        | (Inr priv, s1) \<Rightarrow>
           (let k2 = k1\<lparr>kstore := s1\<rparr> in
            case (f, pubReadOK io) of
              (Some (pub, _), True) \<Rightarrow>
                if length priv \<noteq> PrivateKeySize then (Inl (EPrivSize (length priv)), k2)
                else if length pub \<noteq> PublicKeySize then (Inl (EPubSize (length pub)), k2)
                else (Inr \<lparr>PrivateKey = priv, Ed25519PublicKey = pub, DeviceID = deriveDeviceID pub\<rparr>, k2)
            | _ \<Rightarrow> (Inl EReadPub, k2))))"

definition CheckIdentity :: "'s store \<Rightarrow> kio \<Rightarrow> 's keys \<Rightarrow> (id_error + unit) \<times> 's keys" where
  "CheckIdentity st io k =
     (if pubFile k = None \<or> \<not> pubStatOK io then (Inl ErrNoIdentity, k)
      else case sget st SecretKeyEd25519Private (kstore k) of
        (Inl e, s1) \<Rightarrow> (Inl (if e = ErrSecretNotFound then ErrNoIdentity else EReadStore e), k\<lparr>kstore := s1\<rparr>)
      | (Inr _, s1) \<Rightarrow> (Inr (), k\<lparr>kstore := s1\<rparr>))"

definition HasIdentity :: "'s store \<Rightarrow> kio \<Rightarrow> 's keys \<Rightarrow> bool \<times> 's keys" where
  "HasIdentity st io k = (case CheckIdentity st io k of (r, k1) \<Rightarrow> (isOK r, k1))"

definition publicKeyFile :: string where "publicKeyFile = ''ed25519.pub''"

text \<open>\<open>RemoveKeyFiles\<close> on the keys directory: \<open>rm n\<close> is whether removing the file \<open>n\<close> succeeds when
  it exists. The directory itself goes when nothing is left in it (and its removal succeeds).\<close>

fun remove_each :: "(string \<Rightarrow> bool) \<Rightarrow> string list \<Rightarrow> files \<Rightarrow> (id_error + unit) \<times> files" where
  "remove_each rm [] d = (Inr (), d)"
| "remove_each rm (n # ns) d =
     (if d n \<noteq> None \<and> \<not> rm n then (Inl (ERemove n), d) else remove_each rm ns (d(n := None)))"

definition RemoveKeyFiles :: "(string \<Rightarrow> bool) \<Rightarrow> bool \<Rightarrow> files \<Rightarrow> (id_error + unit) \<times> files option" where
  "RemoveKeyFiles rm rmdirOK d = (case remove_each rm [publicKeyFile, secretsFileName, fallbackKeyFileName] d of
      (Inl e, d1) \<Rightarrow> (Inl e, Some d1)
    | (Inr _, d1) \<Rightarrow> (Inr (), if d1 = Map.empty \<and> rmdirOK then None else Some d1))"

section \<open>The canonical origin\<close>

record url =
  u_scheme :: string
  u_user :: bool
  u_host :: string
  u_port :: string

text \<open>An IPv6 address as \<open>net/netip\<close> parses it.\<close>

record addr =
  zone :: string
  is4in6 :: bool
  as16 :: bytes
  addr_text :: string

datatype origin_error = EURL | ENoScheme | EUserinfo | ENoHost | EIPv6 string | EIDNA | EPort string num_error

fun hex_digits :: "nat \<Rightarrow> string" where
  "hex_digits n = (if n < 16 then [hex_char n] else hex_digits (n div 16) @ [hex_char (n mod 16)])"

definition u16 :: "bytes \<Rightarrow> nat \<Rightarrow> nat" where
  "u16 b i = 256 * of_char (b ! i) + of_char (b ! Suc i)"

definition canonicalHost :: "(string \<Rightarrow> addr option) \<Rightarrow> (string \<Rightarrow> string option) \<Rightarrow> string \<Rightarrow> origin_error + string" where
  "canonicalHost parseAddr toASCII host =
     (if contains_sub host '':'' then
        (case parseAddr host of
           None \<Rightarrow> Inl (EIPv6 host)
         | Some a \<Rightarrow>
            if zone a \<noteq> '''' then Inl (EIPv6 host)
            else if is4in6 a then
              Inr (''[::ffff:'' @ hex_digits (u16 (as16 a) 12) @ '':'' @ hex_digits (u16 (as16 a) 14) @ '']'')
            else Inr (''['' @ addr_text a @ '']''))
      else if list_all (\<lambda>c. (of_char c :: nat) < 0x80) host then Inr (to_lower host)
      else case toASCII host of None \<Rightarrow> Inl EIDNA | Some h \<Rightarrow> Inr h)"

definition canonicalPort :: "string \<Rightarrow> string \<Rightarrow> origin_error + string" where
  "canonicalPort scheme port =
     (if port = '''' then Inr ''''
      else case parse_uint 16 port of
        (_, Some e) \<Rightarrow> Inl (EPort port e)
      | (n, None) \<Rightarrow>
         if (scheme = ''https'' \<and> n = 443) \<or> (scheme = ''http'' \<and> n = 80) then Inr ''''
         else Inr (nat_digits n))"

record resolver =
  parse_url :: "string \<Rightarrow> url option"
  parseAddr :: "string \<Rightarrow> addr option"
  toASCII :: "string \<Rightarrow> string option"

definition canonicalOrigin :: "resolver \<Rightarrow> string \<Rightarrow> origin_error + string" where
  "canonicalOrigin rs serverURL = (case parse_url rs serverURL of
      None \<Rightarrow> Inl EURL
    | Some u \<Rightarrow>
       if u_scheme u = '''' then Inl ENoScheme
       else if u_user u then Inl EUserinfo
       else if u_host u = '''' then Inl ENoHost
       else bindE (canonicalHost (parseAddr rs) (toASCII rs) (u_host u)) (\<lambda>host.
         let scheme = to_lower (u_scheme u) in
         bindE (canonicalPort scheme (u_port u)) (\<lambda>port.
           Inr (if port \<noteq> '''' then scheme @ ''://'' @ host @ '':'' @ port else scheme @ ''://'' @ host))))"

section \<open>What is signed\<close>

definition challengeMessagePrefix :: string where "challengeMessagePrefix = ''pocketmux-auth-v1''"

definition challenge_message :: "string \<Rightarrow> string \<Rightarrow> string \<Rightarrow> bytes" where
  "challenge_message origin deviceID nonce = challengeMessagePrefix @ ''|'' @ origin @ ''|'' @ deviceID @ ''|'' @ nonce"

definition SignChallenge :: "(bytes \<Rightarrow> bytes \<Rightarrow> bytes) \<Rightarrow> Identity \<Rightarrow> string \<Rightarrow> string \<Rightarrow> string \<Rightarrow> string" where
  "SignChallenge sign ident origin deviceID nonce =
     b64_encode (sign (PrivateKey ident) (challenge_message origin deviceID nonce))"

definition Ed25519PublicKeyBase64 :: "Identity \<Rightarrow> string" where
  "Ed25519PublicKeyBase64 ident = b64_encode (Ed25519PublicKey ident)"

definition hmac_message :: "string \<Rightarrow> string \<Rightarrow> string \<Rightarrow> bytes" where
  "hmac_message timestamp nonce path = timestamp @ '':'' @ nonce @ '':'' @ path"

definition computeHMAC :: "string \<Rightarrow> string \<Rightarrow> string \<Rightarrow> string \<Rightarrow> string" where
  "computeHMAC secret timestamp nonce path = hex_encode (hmac_sha256 secret (hmac_message timestamp nonce path))"

definition generateNonce :: "bytes \<Rightarrow> string" where
  "generateNonce random = hex_encode random"

record sig_headers =
  pmux_timestamp :: string
  pmux_nonce :: string
  pmux_signature :: string

definition SignRequest :: "int \<Rightarrow> bytes \<Rightarrow> string \<Rightarrow> string \<Rightarrow> sig_headers option" where
  "SignRequest now random path secret =
     (if secret = '''' then None
      else let timestamp = itoa now; nonce = generateNonce random in
        Some \<lparr>pmux_timestamp = timestamp, pmux_nonce = nonce,
              pmux_signature = computeHMAC secret timestamp nonce path\<rparr>)"

definition SignWebSocketHeaders :: "(string \<Rightarrow> string option) \<Rightarrow> int \<Rightarrow> bytes \<Rightarrow> string \<Rightarrow> string \<Rightarrow> sig_headers option" where
  "SignWebSocketHeaders urlPath now random wsURL secret =
     (if secret = '''' then None
      else case urlPath wsURL of
        None \<Rightarrow> None
      | Some path \<Rightarrow>
         let timestamp = itoa now; nonce = generateNonce random in
         Some \<lparr>pmux_timestamp = timestamp, pmux_nonce = nonce,
               pmux_signature = computeHMAC secret timestamp nonce path\<rparr>)"

section \<open>Errors of the server\<close>

definition permanentHMACErrors :: "string list" where
  "permanentHMACErrors = [''missing client signature'', ''invalid client signature'', ''invalid timestamp'']"

definition IsHMACRejection :: "nat \<Rightarrow> string \<Rightarrow> bool" where
  "IsHMACRejection statusCode errorMsg \<longleftrightarrow> statusCode = 401 \<and> errorMsg \<in> set permanentHMACErrors"

text \<open>\<open>jerr body\<close> is the \<open>error\<close> field of the JSON object in the body (empty if there is none),
  \<open>None\<close> if the body does not parse. The result is the server's message of a rejection.\<close>

definition CheckHMACRejection :: "(bytes \<Rightarrow> string option) \<Rightarrow> nat \<Rightarrow> bytes \<Rightarrow> string option" where
  "CheckHMACRejection jerr statusCode body =
     (if statusCode \<noteq> 401 then None
      else case jerr body of
        None \<Rightarrow> None
      | Some m \<Rightarrow> if m = '''' then None else if m \<notin> set permanentHMACErrors then None else Some m)"

text \<open>A failed request; \<open>DNSError\<close> carries the host name as \<open>%q\<close> prints it, \<open>OpError\<close> whether it
  was a timeout.\<close>

datatype net_error = DNSError string | OpError bool string | OtherNetError string

definition connError :: "(bytes \<Rightarrow> bool) \<Rightarrow> net_error \<Rightarrow> string" where
  "connError prn e = (case e of
      DNSError n \<Rightarrow> SanitizeDisplayString prn (''cannot resolve server hostname '' @ n)
    | OpError timeout m \<Rightarrow>
        if timeout then ''server connection timed out''
        else SanitizeDisplayString prn (''server unreachable ('' @ m @ '')'')
    | OtherNetError m \<Rightarrow> SanitizeDisplayString prn m)"

definition serverError :: "(bytes \<Rightarrow> string option) \<Rightarrow> (bytes \<Rightarrow> bool) \<Rightarrow> nat \<Rightarrow> bytes \<Rightarrow> string" where
  "serverError jerr prn statusCode body =
     (let head = ''server error ('' @ nat_digits statusCode @ ''): '';
          raw = (let msg = trim_space body in if length msg > 200 then take 200 msg @ ''...'' else msg)
      in case jerr body of
           Some m \<Rightarrow> head @ SanitizeDisplayString prn (if m \<noteq> '''' then m else raw)
         | None \<Rightarrow> head @ SanitizeDisplayString prn raw)"

definition signatureFailedMsg :: string where "signatureFailedMsg = ''Signature verification failed''"

definition signedRequestError :: "(bytes \<Rightarrow> string option) \<Rightarrow> (bytes \<Rightarrow> bool) \<Rightarrow> nat \<Rightarrow> bytes \<Rightarrow> string \<Rightarrow> string" where
  "signedRequestError jerr prn statusCode body origin =
     (let msg = serverError jerr prn statusCode body;
          parsed = (case jerr body of None \<Rightarrow> '''' | Some m \<Rightarrow> m)
      in if statusCode = 401 \<and> parsed = signatureFailedMsg then
           msg @ '' (challenge was signed for origin '' @ origin @
           '': the server must be on a version that verifies origin-bound signatures and must see this exact origin)''
         else if 300 \<le> statusCode \<and> statusCode < 400 then
           msg @ '' (redirects are not followed because the challenge signature is bound to origin '' @ origin @
           ''; point the server URL at the final origin)''
         else msg)"

section \<open>Requests\<close>

datatype body =
    NoBody
  | ChallengeBody string
  | TokenBody string string string
  | InitiateBody string string string string string string bool

record request =
  rq_method :: string
  rq_url :: string
  rq_body :: body
  rq_bearer :: "string option"
  rq_headers :: "sig_headers option"
  rq_follow :: bool

text \<open>The environment of a request: the parsers, the clock and the random source (by the number
  of requests sent before), and the server, which sees all requests so far. \<open>Inr (code, None)\<close>
  is a reply whose body could not be read.\<close>

record httpenv =
  rs :: resolver
  url_path :: "string \<Rightarrow> string option"
  sign :: "bytes \<Rightarrow> bytes \<Rightarrow> bytes"
  prn :: "bytes \<Rightarrow> bool"
  jerr :: "bytes \<Rightarrow> string option"
  jnonce :: "bytes \<Rightarrow> string option"
  jtoken :: "bytes \<Rightarrow> string option"
  jinit :: "bytes \<Rightarrow> (string \<times> bool) option"
  clock :: "nat \<Rightarrow> int"
  random16 :: "nat \<Rightarrow> bytes"
  srv :: "request list \<Rightarrow> request \<Rightarrow> net_error + (nat \<times> bytes option)"

datatype http_error =
    EOrigin origin_error
  | ECreateRequest
  | EConn string
  | EReadBody
  | HMACRejectedError string string
  | EStatus string
  | EParseReply
  | EEmptyNonce
  | EEmptyToken
  | EPairingCode
  | ETokenExchange http_error

text \<open>One request: created, signed with the client's HMAC, sent.\<close>

definition do_request ::
  "httpenv \<Rightarrow> string \<Rightarrow> string \<Rightarrow> body \<Rightarrow> string option \<Rightarrow> bool \<Rightarrow> string \<Rightarrow> request list \<Rightarrow>
   (http_error + nat \<times> bytes option) \<times> request list" where
  "do_request e mth url b bearer follow hmacSecret log = (case url_path e url of
      None \<Rightarrow> (Inl ECreateRequest, log)
    | Some p \<Rightarrow>
       (let r = \<lparr>rq_method = mth, rq_url = url, rq_body = b, rq_bearer = bearer,
                 rq_headers = SignRequest (clock e (length log)) (random16 e (length log)) p hmacSecret,
                 rq_follow = follow\<rparr>
        in case srv e log r of
             Inl ne \<Rightarrow> (Inl (EConn (connError (prn e) ne)), log @ [r])
           | Inr q \<Rightarrow> (Inr q, log @ [r])))"

definition server_url :: "string \<Rightarrow> string \<Rightarrow> string" where
  "server_url serverURL path = trim_right (CHR ''/'') serverURL @ path"

text \<open>What a reply with an error status becomes: a rejection of the client signature, or the
  message of \<open>other\<close>.\<close>

definition bad_status :: "httpenv \<Rightarrow> string \<Rightarrow> (nat \<Rightarrow> bytes \<Rightarrow> string) \<Rightarrow> nat \<Rightarrow> bytes \<Rightarrow> http_error" where
  "bad_status e serverURL other code b = (case CheckHMACRejection (jerr e) code b of
      Some m \<Rightarrow> HMACRejectedError serverURL m
    | None \<Rightarrow> EStatus (other code b))"

definition fetchChallenge :: "httpenv \<Rightarrow> string \<Rightarrow> string \<Rightarrow> string \<Rightarrow> request list \<Rightarrow> (http_error + string) \<times> request list" where
  "fetchChallenge e deviceID serverURL hmacSecret log =
     (case do_request e ''POST'' (server_url serverURL ''/auth/challenge'') (ChallengeBody deviceID) None False hmacSecret log of
        (Inl x, log1) \<Rightarrow> (Inl x, log1)
      | (Inr (code, None), log1) \<Rightarrow> (Inl EReadBody, log1)
      | (Inr (code, Some b), log1) \<Rightarrow>
         if code \<noteq> 200 then
           (Inl (bad_status e serverURL (\<lambda>c b. serverError (jerr e) (prn e) c b @
              (if 300 \<le> c \<and> c < 400 then
                 '' (redirects are not followed because the challenge signature is bound to the configured server origin; point the server URL at the final origin)''
               else '''')) code b), log1)
         else (case jnonce e b of
                 None \<Rightarrow> (Inl EParseReply, log1)
               | Some nonce \<Rightarrow> if nonce = '''' then (Inl EEmptyNonce, log1) else (Inr nonce, log1)))"

definition token_reply :: "httpenv \<Rightarrow> string \<Rightarrow> string \<Rightarrow> http_error + nat \<times> bytes option \<Rightarrow> http_error + string" where
  "token_reply e serverURL origin x = (case x of
      Inl y \<Rightarrow> Inl y
    | Inr (code, None) \<Rightarrow> Inl EReadBody
    | Inr (code, Some b) \<Rightarrow>
       if code \<noteq> 200 then
         Inl (bad_status e serverURL (\<lambda>c b. signedRequestError (jerr e) (prn e) c b origin) code b)
       else (case jtoken e b of
               None \<Rightarrow> Inl EParseReply
             | Some token \<Rightarrow> if token = '''' then Inl EEmptyToken else Inr token))"

definition ExchangeToken :: "httpenv \<Rightarrow> Identity \<Rightarrow> string \<Rightarrow> string \<Rightarrow> request list \<Rightarrow> (http_error + string) \<times> request list" where
  "ExchangeToken e ident serverURL hmacSecret log = (case canonicalOrigin (rs e) serverURL of
      Inl x \<Rightarrow> (Inl (EOrigin x), log)
    | Inr origin \<Rightarrow>
       (case fetchChallenge e (DeviceID ident) serverURL hmacSecret log of
          (Inl x, log1) \<Rightarrow> (Inl x, log1)
        | (Inr nonce, log1) \<Rightarrow>
           (let signature = SignChallenge (sign e) ident origin (DeviceID ident) nonce in
            case do_request e ''POST'' (server_url serverURL ''/auth/token'')
                   (TokenBody (DeviceID ident) nonce signature) None False hmacSecret log1 of
              (x, log2) \<Rightarrow> (token_reply e serverURL origin x, log2))))"

definition pairingSecretAlphabet :: string where "pairingSecretAlphabet = ''ABCDEFGHJKLMNPQRSTUVWXYZ23456789''"

text \<open>\<open>strings.Trim(code, alphabet) != ""\<close>: some character is outside the alphabet.\<close>

definition valid_pairing_code :: "string \<Rightarrow> bool" where
  "valid_pairing_code c \<longleftrightarrow> length c = 6 \<and> dropWhile (\<lambda>x. x \<in> set pairingSecretAlphabet) c = []"

definition InitiatePairing ::
  "httpenv \<Rightarrow> Identity \<Rightarrow> string \<Rightarrow> string \<Rightarrow> string \<Rightarrow> string \<Rightarrow> request list \<Rightarrow>
   (http_error + string \<times> bool) \<times> request list" where
  "InitiatePairing e ident x25519PubKeyBase64 serverURL name hmacSecret log =
     (case canonicalOrigin (rs e) serverURL of
        Inl x \<Rightarrow> (Inl (EOrigin x), log)
      | Inr origin \<Rightarrow>
         (case fetchChallenge e (DeviceID ident) serverURL hmacSecret log of
            (Inl x, log1) \<Rightarrow> (Inl x, log1)
          | (Inr nonce, log1) \<Rightarrow>
             (let signature = SignChallenge (sign e) ident origin (DeviceID ident) nonce in
              case do_request e ''POST'' (server_url serverURL ''/auth/pair/initiate'')
                     (InitiateBody (DeviceID ident) (Ed25519PublicKeyBase64 ident) x25519PubKeyBase64 name nonce signature True)
                     None False hmacSecret log1 of
                (Inl x, log2) \<Rightarrow> (Inl x, log2)
              | (Inr (code, None), log2) \<Rightarrow> (Inl EReadBody, log2)
              | (Inr (code, Some b), log2) \<Rightarrow>
                 if code \<noteq> 200 then
                   (Inl (bad_status e serverURL (\<lambda>c b. signedRequestError (jerr e) (prn e) c b origin) code b), log2)
                 else (case jinit e b of
                         None \<Rightarrow> (Inl EParseReply, log2)
                       | Some (c, confirm) \<Rightarrow>
                          if \<not> valid_pairing_code c then (Inl EPairingCode, log2) else (Inr (c, confirm), log2)))))"

definition deleteFromServer :: "httpenv \<Rightarrow> Identity \<Rightarrow> string \<Rightarrow> string \<Rightarrow> string \<Rightarrow> request list \<Rightarrow> (http_error + unit) \<times> request list" where
  "deleteFromServer e ident serverURL path hmacSecret log = (case ExchangeToken e ident serverURL hmacSecret log of
      (Inl x, log1) \<Rightarrow> (Inl (ETokenExchange x), log1)
    | (Inr token, log1) \<Rightarrow>
       (case do_request e ''DELETE'' (server_url serverURL path) NoBody (Some token) True hmacSecret log1 of
          (Inl x, log2) \<Rightarrow> (Inl x, log2)
        | (Inr (code, b), log2) \<Rightarrow>
           if code \<noteq> 200 then
             (Inl (EStatus (serverError (jerr e) (prn e) code (case b of None \<Rightarrow> [] | Some b \<Rightarrow> b))), log2)
           else (Inr (), log2)))"

definition DeletePairing :: "httpenv \<Rightarrow> Identity \<Rightarrow> string \<Rightarrow> string \<Rightarrow> request list \<Rightarrow> (http_error + unit) \<times> request list" where
  "DeletePairing e ident serverURL hmacSecret log = deleteFromServer e ident serverURL ''/auth/pairing'' hmacSecret log"

definition DeleteDevice :: "httpenv \<Rightarrow> Identity \<Rightarrow> string \<Rightarrow> string \<Rightarrow> request list \<Rightarrow> (http_error + unit) \<times> request list" where
  "DeleteDevice e ident serverURL hmacSecret log = deleteFromServer e ident serverURL ''/auth/device'' hmacSecret log"

section \<open>Lemmas\<close>

lemma challenge_message_inj:
  assumes "challenge_message o1 d1 n1 = challenge_message o2 d2 n2"
    "CHR ''|'' \<notin> set o1" "CHR ''|'' \<notin> set o2" "CHR ''|'' \<notin> set d1" "CHR ''|'' \<notin> set d2"
  shows "o1 = o2 \<and> d1 = d2 \<and> n1 = n2"
proof -
  have sep: "xs = ys \<and> r = t" if "xs @ c # r = ys @ c # t" "c \<notin> set xs" "c \<notin> set ys" for xs ys r t :: string and c
    using that by (metis takeWhile_append_sep dropWhile_append_sep list.sel(3))
  have "o1 @ CHR ''|'' # d1 @ CHR ''|'' # n1 = o2 @ CHR ''|'' # d2 @ CHR ''|'' # n2"
    using assms(1) by (simp add: challenge_message_def)
  with assms sep show ?thesis by blast
qed

lemma hex_no_pipe: "is_lower_hex c \<Longrightarrow> c \<noteq> CHR ''|'' \<and> c \<noteq> CHR '':''"
  by (auto simp: is_lower_hex_def)

lemma device_id_no_pipe: "isOK (ValidateDeviceID d) \<Longrightarrow> CHR ''|'' \<notin> set d"
  using valid_device_id_ascii hex_no_pipe by blast

lemma fetchChallenge_requests:
  assumes "fetchChallenge e d u h log = (r, log1)"
  shows "\<exists>q. log1 = log \<or> log1 = log @ [q] \<and> rq_body q = ChallengeBody d"
  using assms by (auto simp: fetchChallenge_def do_request_def Let_def
      split: option.splits sum.splits prod.splits if_splits)

text \<open>The requests of a token exchange: at most a challenge and, when it was answered with a
  nonce, a token request that carries the signature over it.\<close>

lemma do_request_cases:
  assumes "do_request e m u b t f h log = (r, log1)"
  obtains "r = Inl ECreateRequest" "log1 = log"
  | q where "log1 = log @ [q]" "rq_body q = b" "rq_follow q = f" "rq_url q = u" "rq_method q = m"
      "(\<exists>ne. srv e log q = Inl ne \<and> r = Inl (EConn (connError (prn e) ne))) \<or> (\<exists>x. srv e log q = Inr x \<and> r = Inr x)"
proof (cases "url_path e u")
  case (Some p)
  let ?q = "\<lparr>rq_method = m, rq_url = u, rq_body = b, rq_bearer = t,
    rq_headers = SignRequest (clock e (length log)) (random16 e (length log)) p h, rq_follow = f\<rparr>"
  show thesis
    using assms Some that(2) [of ?q] by (cases "srv e log ?q") (auto simp: do_request_def)
qed (use assms that(1) in \<open>simp add: do_request_def\<close>)

lemma fetchChallenge_nonce:
  assumes "fetchChallenge e d u h log = (Inr n, log1)"
  obtains q b where "log1 = log @ [q]" "rq_body q = ChallengeBody d" "\<not> rq_follow q"
    "srv e log q = Inr (200, Some b)" "jnonce e b = Some n" "n \<noteq> ''''"
proof -
  obtain x where x: "do_request e ''POST'' (server_url u ''/auth/challenge'') (ChallengeBody d) None False h log = (x, log1)"
    "\<exists>b. x = Inr (200, Some b) \<and> jnonce e b = Some n" "n \<noteq> ''''"
    using assms by (auto simp: fetchChallenge_def split: sum.splits prod.splits option.splits if_splits)
  from x(1) show thesis
    using x(2,3) that by (cases rule: do_request_cases) auto
qed

definition token_request :: "httpenv \<Rightarrow> Identity \<Rightarrow> string \<Rightarrow> request \<Rightarrow> bool" where
  "token_request e ident origin q \<longleftrightarrow> (\<exists>n. n \<noteq> '''' \<and> \<not> rq_follow q \<and>
     rq_body q = TokenBody (DeviceID ident) n (SignChallenge (sign e) ident origin (DeviceID ident) n))"

lemma ExchangeToken_cases:
  assumes "ExchangeToken e ident u h log = (r, log2)"
  obtains x where "canonicalOrigin (rs e) u = Inl x" "log2 = log" "r = Inl (EOrigin x)"
  | origin x where "canonicalOrigin (rs e) u = Inr origin" "fetchChallenge e (DeviceID ident) u h log = (Inl x, log2)" "r = Inl x"
  | origin n log1 x where "canonicalOrigin (rs e) u = Inr origin" "fetchChallenge e (DeviceID ident) u h log = (Inr n, log1)"
      "do_request e ''POST'' (server_url u ''/auth/token'')
         (TokenBody (DeviceID ident) n (SignChallenge (sign e) ident origin (DeviceID ident) n)) None False h log1 = (x, log2)"
      "r = token_reply e u origin x"
proof (cases "canonicalOrigin (rs e) u")
  case (Inl x)
  then show thesis using assms that(1) by (simp add: ExchangeToken_def)
next
  case o: (Inr origin)
  obtain y log1 where f: "fetchChallenge e (DeviceID ident) u h log = (y, log1)" by fastforce
  show thesis
  proof (cases y)
    case (Inl x)
    then have "log2 = log1" "r = Inl x" using assms o f by (simp_all add: ExchangeToken_def)
    then show thesis using o f Inl that(2) by blast
  next
    case (Inr n)
    obtain x log3 where x: "do_request e ''POST'' (server_url u ''/auth/token'')
       (TokenBody (DeviceID ident) n (SignChallenge (sign e) ident origin (DeviceID ident) n)) None False h log1 = (x, log3)"
      by fastforce
    then have "log3 = log2" "r = token_reply e u origin x"
      using assms o f Inr by (simp_all add: ExchangeToken_def)
    then show thesis using o f Inr x that(3) by blast
  qed
qed

lemma ExchangeToken_requests:
  assumes "ExchangeToken e ident u h log = (r, log2)" "q \<in> set (drop (length log) log2)"
  shows "\<exists>origin. canonicalOrigin (rs e) u = Inr origin \<and>
    (rq_body q = ChallengeBody (DeviceID ident) \<or> token_request e ident origin q)"
  using assms(1)
proof (cases rule: ExchangeToken_cases)
  case 2
  then show ?thesis using fetchChallenge_requests [OF 2(2)] assms(2) by auto
next
  case (3 origin n log1 x)
  obtain q1 where q1: "log1 = log @ [q1]" "rq_body q1 = ChallengeBody (DeviceID ident)" "n \<noteq> ''''"
    using fetchChallenge_nonce [OF 3(2)] by metis
  from 3(3) show ?thesis
    by (cases rule: do_request_cases) (use 3 q1 assms(2) in \<open>auto simp: token_request_def\<close>)
qed (use assms in auto)

lemma CheckHMACRejection_permanent:
  "CheckHMACRejection j code b = Some m \<Longrightarrow> code = 401 \<and> j b = Some m \<and> m \<in> set permanentHMACErrors"
  by (auto simp: CheckHMACRejection_def split: if_splits option.splits)

lemma token_reply_rejected:
  assumes "token_reply e u origin x = Inl (HMACRejectedError v m)"
  shows "x = Inl (HMACRejectedError v m) \<or>
    v = u \<and> (\<exists>b. x = Inr (401, Some b) \<and> jerr e b = Some m \<and> m \<in> set permanentHMACErrors)"
proof (cases x)
  case (Inr y)
  then obtain c b where y: "x = Inr (c, Some b)" "CheckHMACRejection (jerr e) c b = Some m" "v = u"
    using assms
    by (auto simp: token_reply_def bad_status_def split: prod.splits option.splits if_splits)
  then show ?thesis using CheckHMACRejection_permanent by blast
qed (use assms in \<open>simp add: token_reply_def\<close>)

lemma token_reply_token:
  "token_reply e u origin x = Inr t \<Longrightarrow> t \<noteq> '''' \<and> (\<exists>b. x = Inr (200, Some b) \<and> jtoken e b = Some t)"
  by (auto simp: token_reply_def split: sum.splits prod.splits option.splits if_splits)

text \<open>Removing the key files never touches a file the program did not write.\<close>

lemma remove_each_foreign: "remove_each rm ns d = (r, d1) \<Longrightarrow> n \<notin> set ns \<Longrightarrow> d1 n = d n"
  by (induction ns arbitrary: d) (auto split: if_splits)

lemma RemoveKeyFiles_foreign:
  assumes "RemoveKeyFiles rm rd d = (r, d1)" "d n = Some c"
    "n \<notin> {publicKeyFile, secretsFileName, fallbackKeyFileName}"
  shows "\<exists>d2. d1 = Some d2 \<and> d2 n = Some c"
proof -
  obtain q d2 where q: "remove_each rm [publicKeyFile, secretsFileName, fallbackKeyFileName] d = (q, d2)" by fastforce
  with remove_each_foreign [OF q, of n] assms show ?thesis
    by (auto simp: RemoveKeyFiles_def split: sum.splits if_splits)
qed

lemma utf8_secret_key: "utf8_valid SecretKeyEd25519Private"
  by code_simp

section \<open>The contract of the store at work\<close>


context secret_store
begin

text \<open>What \<open>GenerateIdentity\<close> leaves in the store and on disk, and what \<open>LoadIdentity\<close> makes of it:
  the identity, or an error of the file system or of the backend; never a missing key.\<close>

lemma generated_stored:
  assumes "ok (kstore k)" "keyok SecretKeyEd25519Private" "GenerateIdentity st io k = (Inr ident, k1)"
  obtains pub priv m where "genKey io = Some (pub, priv)" "ok (kstore k1)" "pubFile k1 = Some (pub, m)"
    "secrets_of (kstore k1) = (secrets_of (kstore k))(SecretKeyEd25519Private \<mapsto> priv)"
    "ident = \<lparr>PrivateKey = priv, Ed25519PublicKey = pub, DeviceID = deriveDeviceID pub\<rparr>"
proof -
  obtain pub priv where g: "genKey io = Some (pub, priv)"
    using assms(3) by (auto simp: GenerateIdentity_def split: option.splits)
  obtain m where m: "sset st SecretKeyEd25519Private priv (kstore k) = (Inr (), kstore k1)"
    "pubFile k1 = Some (pub, m)" "ident = \<lparr>PrivateKey = priv, Ed25519PublicKey = pub, DeviceID = deriveDeviceID pub\<rparr>"
    using assms(3) g by (auto simp: GenerateIdentity_def Let_def split: sum.splits prod.splits if_splits)
  then show thesis using that g set_done [OF assms(1,2) m(1)] by blast
qed

lemma load_stored:
  assumes "ok (kstore k)" "secrets_of (kstore k) SecretKeyEd25519Private = Some priv" "pubFile k = Some (pub, m)"
    "length pub = PublicKeySize" "length priv = PrivateKeySize" "LoadIdentity st io k = (r, k1)"
  shows "r = Inr \<lparr>PrivateKey = priv, Ed25519PublicKey = pub, DeviceID = deriveDeviceID pub\<rparr> \<or>
    r \<in> {Inl EStatPub, Inl EChmodPub, Inl EReadPub} \<or> (\<exists>e. r = Inl (ELoadKey e) \<and> e \<noteq> ErrSecretNotFound)"
proof -
  obtain q s2 where q: "sget st SecretKeyEd25519Private (kstore k) = (q, s2)" by fastforce
  have "q = Inr priv" if "isOK q \<or> q = Inl ErrSecretNotFound"
    using get_result [OF assms(1) q that] assms(2) by (simp add: lookup_result_def)
  then show ?thesis
    using assms q
    by (cases q) (auto simp: LoadIdentity_def enforceKeyFilePerms_def Let_def isOK_iff split: if_splits bool.splits)
qed

end

section \<open>Properties\<close>

text \<open>Property C20. The signature of a token exchange is bound to the configured server: whatever the
  server answers, every token request carries the signature of the message made of the
  canonical origin of the configured URL, this device and the server's nonce, on a request that
  follows no redirect; and that message is not the message of any other origin, device or
  nonce, so the signature is of no use with another server.\<close>

theorem token_signature_bound:
  assumes "ExchangeToken e ident u h log = (r, log2)" and "q \<in> set (drop (length log) log2)"
    and "rq_body q = TokenBody d n s" and "isOK (ValidateDeviceID (DeviceID ident))"
  shows "\<exists>origin. canonicalOrigin (rs e) u = Inr origin \<and> d = DeviceID ident \<and> n \<noteq> '''' \<and> \<not> rq_follow q \<and>
    s = b64_encode (sign e (PrivateKey ident) (challenge_message origin d n)) \<and>
    (\<forall>o2 d2 n2. CHR ''|'' \<notin> set origin \<and> CHR ''|'' \<notin> set o2 \<and> CHR ''|'' \<notin> set d2 \<and>
      challenge_message origin d n = challenge_message o2 d2 n2 \<longrightarrow> o2 = origin \<and> d2 = d \<and> n2 = n)"
proof -
  obtain origin where o: "canonicalOrigin (rs e) u = Inr origin" "token_request e ident origin q"
    using ExchangeToken_requests [OF assms(1,2)] assms(3) by auto
  then have q: "d = DeviceID ident" "n \<noteq> ''''" "\<not> rq_follow q" "s = SignChallenge (sign e) ident origin d n"
    using assms(3) by (auto simp: token_request_def)
  have "CHR ''|'' \<notin> set d" using device_id_no_pipe assms(4) q(1) by simp
  then show ?thesis
    using o(1) q challenge_message_inj [of origin d n] by (auto simp: SignChallenge_def)
qed

text \<open>A token comes only from two successful replies: when \<open>ExchangeToken\<close> returns one, it
  sent exactly two requests, the first was answered 200 with a nonce that is not empty and the
  second 200 with this token, not empty. An answer that rejects the client signature for good is
  reported as such only for a 401 whose message is one of the permanent ones.\<close>

theorem ExchangeToken_answer:
  assumes "ExchangeToken e ident u h log = (r, log2)"
  shows "(\<forall>t. r = Inr t \<longrightarrow> t \<noteq> '''' \<and> (\<exists>q1 q2 b1 b2 n. log2 = log @ [q1, q2] \<and>
      srv e log q1 = Inr (200, Some b1) \<and> jnonce e b1 = Some n \<and> n \<noteq> '''' \<and>
      srv e (log @ [q1]) q2 = Inr (200, Some b2) \<and> jtoken e b2 = Some t)) \<and>
    (\<forall>v m. r = Inl (HMACRejectedError v m) \<longrightarrow> v = u \<and> (\<exists>pre q b. prefix (pre @ [q]) log2 \<and>
      srv e pre q = Inr (401, Some b) \<and> jerr e b = Some m \<and> m \<in> set permanentHMACErrors))"
  using assms
proof (cases rule: ExchangeToken_cases)
  case (2 origin x)
  have "v = u \<and> (\<exists>pre q b. prefix (pre @ [q]) log2 \<and> srv e pre q = Inr (401, Some b) \<and> jerr e b = Some m \<and>
      m \<in> set permanentHMACErrors)" if "r = Inl (HMACRejectedError v m)" for v m
  proof -
    obtain y log3 where d: "do_request e ''POST'' (server_url u ''/auth/challenge'') (ChallengeBody (DeviceID ident)) None False h log = (y, log3)"
      by fastforce
    then have y: "log3 = log2" "y = Inl (HMACRejectedError v m) \<or> (\<exists>c b. y = Inr (c, Some b) \<and> CheckHMACRejection (jerr e) c b = Some m \<and> v = u)"
      using 2 that
      by (auto simp: fetchChallenge_def bad_status_def split: sum.splits prod.splits option.splits if_splits)
    from d [unfolded y(1)] show ?thesis
      by (cases rule: do_request_cases) (use y(2) CheckHMACRejection_permanent in fastforce)+
  qed
  with 2(3) show ?thesis by simp
next
  case (3 origin n log1 x)
  obtain q1 b1 where q1: "log1 = log @ [q1]" "srv e log q1 = Inr (200, Some b1)" "jnonce e b1 = Some n" "n \<noteq> ''''"
    using fetchChallenge_nonce [OF 3(2)] by metis
  from 3(3) show ?thesis
  proof (cases rule: do_request_cases)
    case (2 q)
    have l: "log2 = log @ [q1, q]" "prefix ((log @ [q1]) @ [q]) log2" using 2(1) q1(1) by simp_all
    have srv: "srv e (log @ [q1]) q = Inr y" if "x = Inr y" for y using 2(6) q1(1) that by auto
    have rej: "v = u \<and> (\<exists>pre q b. prefix (pre @ [q]) log2 \<and> srv e pre q = Inr (401, Some b) \<and>
        jerr e b = Some m \<and> m \<in> set permanentHMACErrors)" if r: "r = Inl (HMACRejectedError v m)" for v m
    proof -
      obtain b where b: "v = u" "x = Inr (401, Some b)" "jerr e b = Some m" "m \<in> set permanentHMACErrors"
        using token_reply_rejected [of e u origin x v m] r 3(4) 2(6) by force
      from b(1,3,4) l(2) srv [OF b(2)] show ?thesis by blast
    qed
    have tok: "t \<noteq> '''' \<and> (\<exists>q1 q2 b1 b2 n. log2 = log @ [q1, q2] \<and>
        srv e log q1 = Inr (200, Some b1) \<and> jnonce e b1 = Some n \<and> n \<noteq> '''' \<and>
        srv e (log @ [q1]) q2 = Inr (200, Some b2) \<and> jtoken e b2 = Some t)" if r: "r = Inr t" for t
    proof -
      obtain b where b: "t \<noteq> ''''" "x = Inr (200, Some b)" "jtoken e b = Some t"
        using token_reply_token [of e u origin x t] r 3(4) by auto
      from b(1,3) l(1) srv [OF b(2)] q1(2-4) show ?thesis by blast
    qed
    show ?thesis using tok rej by blast
  qed (use 3(4) in \<open>auto simp: token_reply_def\<close>)
qed auto


section \<open>Witnesses\<close>

definition demo_pub :: bytes where "demo_pub = replicate 32 (CHR ''p'')"
definition demo_priv :: bytes where "demo_priv = replicate 64 (CHR ''s'')"

definition demo_kio :: kio where
  "demo_kio = \<lparr>genKey = Some (demo_pub, demo_priv), pubWriteOK = True, pubLeft = None, pubStatOK = True,
     pubChmodOK = True, pubReadOK = True\<rparr>"

definition demo_keys :: "fstore keys" where
  "demo_keys = \<lparr>pubFile = None, kstore = toy_fresh\<rparr>"

definition demo_ident :: Identity where
  "demo_ident = \<lparr>PrivateKey = demo_priv, Ed25519PublicKey = demo_pub, DeviceID = deriveDeviceID demo_pub\<rparr>"

text \<open>A server that answers the challenge with the nonce \<open>n\<close> and the token request with \<open>t\<close>.\<close>

definition demo_httpenv :: httpenv where
  "demo_httpenv = \<lparr>rs = \<lparr>parse_url = (\<lambda>_. Some \<lparr>u_scheme = ''https'', u_user = False, u_host = ''h'', u_port = ''''\<rparr>),
       parseAddr = (\<lambda>_. None), toASCII = (\<lambda>_. None)\<rparr>,
     url_path = (\<lambda>_. Some ''/p''), sign = (\<lambda>k m. m), prn = (\<lambda>_. True), jerr = (\<lambda>_. None),
     jnonce = Some, jtoken = Some, jinit = (\<lambda>_. None), clock = (\<lambda>_. 0), random16 = (\<lambda>_. []),
     srv = (\<lambda>log r. Inr (200, Some (if log = [] then ''n'' else ''t'')))\<rparr>"

lemma demo_origin: "canonicalOrigin (rs demo_httpenv) ''https://h'' = Inr ''https://h''"
proof -
  have "canonicalPort ''https'' '''' = Inr ''''" by (simp add: canonicalPort_def)
  moreover have "to_lower ''h'' = ''h''" "to_lower ''https'' = ''https''" by code_simp+
  ultimately show ?thesis
    by (simp add: canonicalOrigin_def demo_httpenv_def canonicalHost_def Let_def)
qed

definition demo_request :: request where
  "demo_request = \<lparr>rq_method = ''POST'', rq_url = ''https://h/auth/token'',
     rq_body = TokenBody (DeviceID demo_ident) ''n'' (SignChallenge (\<lambda>k m. m) demo_ident ''https://h'' (DeviceID demo_ident) ''n''),
     rq_bearer = None, rq_headers = None, rq_follow = False\<rparr>"

lemma demo_exchange:
  "ExchangeToken demo_httpenv demo_ident ''https://h'' '''' [] =
     (Inr ''t'', [demo_request\<lparr>rq_url := ''https://h/auth/challenge'', rq_body := ChallengeBody (DeviceID demo_ident)\<rparr>, demo_request])"
proof -
  have "server_url ''https://h'' p = ''https://h'' @ p" for p
    by (simp add: server_url_def trim_right_def)
  then show ?thesis
    by (simp add: ExchangeToken_def demo_origin)
      (simp add: demo_httpenv_def fetchChallenge_def do_request_def SignRequest_def token_reply_def demo_request_def Let_def)
qed

theorem token_signature_bound_witness:
  "\<exists>origin. canonicalOrigin (rs demo_httpenv) ''https://h'' = Inr origin \<and>
    rq_body demo_request = TokenBody (DeviceID demo_ident) ''n''
      (b64_encode (challenge_message origin (DeviceID demo_ident) ''n''))"
proof -
  have "demo_request \<in> set (drop (length ([] :: request list)) [demo_request\<lparr>rq_url := ''https://h/auth/challenge'',
      rq_body := ChallengeBody (DeviceID demo_ident)\<rparr>, demo_request])" by simp
  note b = token_signature_bound [OF demo_exchange this, of "DeviceID demo_ident" "''n''"
      "SignChallenge (\<lambda>k m. m) demo_ident ''https://h'' (DeviceID demo_ident) ''n''"]
  have "rq_body demo_request = TokenBody (DeviceID demo_ident) ''n''
      (SignChallenge (\<lambda>k m. m) demo_ident ''https://h'' (DeviceID demo_ident) ''n'')"
    "isOK (ValidateDeviceID (DeviceID demo_ident))"
    using deriveDeviceID_valid by (simp_all add: demo_request_def demo_ident_def)
  with b show ?thesis by (auto simp: demo_httpenv_def)
qed

theorem ExchangeToken_answer_witness:
  "\<exists>q1 q2 b1 b2 n. snd (ExchangeToken demo_httpenv demo_ident ''https://h'' '''' []) = [q1, q2] \<and>
     srv demo_httpenv [] q1 = Inr (200, Some b1) \<and> jnonce demo_httpenv b1 = Some n \<and> n \<noteq> '''' \<and>
     srv demo_httpenv [q1] q2 = Inr (200, Some b2) \<and> jtoken demo_httpenv b2 = Some ''t''"
  using ExchangeToken_answer [OF demo_exchange] demo_exchange by auto

lemma demo_generate:
  "\<exists>k1. GenerateIdentity (file_store toy toy_io) demo_kio demo_keys = (Inr demo_ident, k1)"
proof -
  have "fst (File_Set toy toy_io key v toy_fresh) = Inr ()" for key v
    by (simp add: File_Set_def toy_fresh_def NewFileSecretStore_def ensureLoaded_def flush_def
        encrypt_def toy_machine replace_file_def Let_def toy_io_def io_reads_def)
  then obtain s1 where "File_Set toy toy_io SecretKeyEd25519Private demo_priv toy_fresh = (Inr (), s1)"
    by (metis prod.collapse)
  then show ?thesis
    by (simp add: GenerateIdentity_def demo_kio_def demo_keys_def demo_ident_def file_store_def Let_def)
qed


end
