(* ===== verification/Pairing.thy ===== *)
theory Pairing
  imports Identity
begin

text \<open>
  \<open>internal/auth/pairing.go\<close>: the codes and messages of a pairing, the key agreement, and the
  paired-devices file.

  X25519, HKDF's expansion and the JSON codec are parameters. The list of devices is one file,
  written through a temporary file and a rename; the shared secrets are in a secret store, so
  every operation on devices is stated for any store and its laws are those of \<open>secret_store\<close>.

  Shown here: what the QR code carries can be read back, the binding of the key derivation and
  the MAC is unambiguous and a verified MAC was made with the pairing secret over exactly this
  key and device; a device that was added is what a later load returns, with its secret, and no
  other secret changed; a removed device is gone.
\<close>

section \<open>Codes\<close>

definition PairingSecretLen :: nat where "PairingSecretLen = 16"

definition GeneratePairingSecret :: "bytes option \<Rightarrow> string option" where
  "GeneratePairingSecret random = (case random of
      None \<Rightarrow> None
    | Some buf \<Rightarrow> Some (map (\<lambda>b. pairingSecretAlphabet ! (of_char b mod 32)) buf))"

function manual_groups :: "string \<Rightarrow> string" where
  "manual_groups s = (if s = [] then [] else CHR ''-'' # take 4 s @ manual_groups (drop 4 s))"
  by auto

termination
  by (relation "measure length") (auto simp: length_greater_0_conv)

declare manual_groups.simps [simp del]

definition FormatManualCode :: "string \<Rightarrow> string \<Rightarrow> string" where
  "FormatManualCode pairingCode pairingSecret = pairingCode @ manual_groups pairingSecret"

definition DefaultServerURL :: string where "DefaultServerURL = ''https://signal.pmux.io''"

definition BuildQRPayload :: "string \<Rightarrow> string \<Rightarrow> string \<Rightarrow> string \<Rightarrow> string \<Rightarrow> string" where
  "BuildQRPayload pairingCode x25519PubKeyBase64 hostDeviceID serverURL pairingSecret =
     (let url = (if serverURL = DefaultServerURL then '''' else serverURL) in
      join_with (CHR ''|'') [pairingCode, x25519PubKeyBase64, hostDeviceID, url, pairingSecret])"

section \<open>The MAC and the shared secret\<close>

datatype pair_error =
    EHostKey nat
  | EMobileKey nat
  | EHostID id_error
  | EMobileID id_error
  | EEmptySecret
  | ENoMAC
  | EMACDecode
  | EMACSize nat
  | EKeyDecode
  | EMACMismatch
  | EPeerKey
  | EECDH

definition pairMACLabel :: string where "pairMACLabel = ''pocketmux-pair-mac-v2''"
definition pairingHKDFLabel :: string where "pairingHKDFLabel = ''pocketmux-pairing-v2''"

definition pairBind :: "bytes \<Rightarrow> bytes \<Rightarrow> string \<Rightarrow> string \<Rightarrow> pair_error + bytes" where
  "pairBind hostPub mobilePub hostDeviceID mobileDeviceID =
     (if length hostPub \<noteq> 32 then Inl (EHostKey (length hostPub))
      else if length mobilePub \<noteq> 32 then Inl (EMobileKey (length mobilePub))
      else case ValidateDeviceID hostDeviceID of
        Inl e \<Rightarrow> Inl (EHostID e)
      | Inr _ \<Rightarrow>
         (case ValidateDeviceID mobileDeviceID of
            Inl e \<Rightarrow> Inl (EMobileID e)
          | Inr _ \<Rightarrow> Inr (hostPub @ mobilePub @ hostDeviceID @ mobileDeviceID)))"

definition VerifyPairMAC :: "string \<Rightarrow> string \<Rightarrow> string \<Rightarrow> string \<Rightarrow> pair_error + unit" where
  "VerifyPairMAC pairingSecret mobilePubB64 mobileDeviceID pairMacB64 =
     (if pairingSecret = '''' then Inl EEmptySecret
      else if pairMacB64 = '''' then Inl ENoMAC
      else case b64_decode pairMacB64 of
        None \<Rightarrow> Inl EMACDecode
      | Some mac \<Rightarrow>
         if length mac \<noteq> 32 then Inl (EMACSize (length mac))
         else case b64_decode mobilePubB64 of
           None \<Rightarrow> Inl EKeyDecode
         | Some mobilePub \<Rightarrow>
            if length mobilePub \<noteq> 32 then Inl (EMobileKey (length mobilePub))
            else (case ValidateDeviceID mobileDeviceID of
                    Inl e \<Rightarrow> Inl (EMobileID e)
                  | Inr _ \<Rightarrow>
                     if hmac_sha256 pairingSecret (pairMACLabel @ mobilePub @ mobileDeviceID) \<noteq> mac
                     then Inl EMACMismatch else Inr ()))"

text \<open>X25519: the public key of a private one, and the agreement, which fails on a low-order
  point; HKDF-SHA256 by secret, salt and info (32 bytes).\<close>

record kx =
  kx_public :: "bytes \<Rightarrow> bytes"
  kx_ecdh :: "bytes \<Rightarrow> bytes \<Rightarrow> bytes option"
  kx_hkdf :: "bytes \<Rightarrow> bytes \<Rightarrow> bytes \<Rightarrow> bytes"

definition PublicKeyBase64 :: "kx \<Rightarrow> bytes \<Rightarrow> string" where
  "PublicKeyBase64 x priv = b64_encode (kx_public x priv)"

definition ComputeSharedSecret :: "kx \<Rightarrow> bytes \<Rightarrow> string \<Rightarrow> string \<Rightarrow> string \<Rightarrow> string \<Rightarrow> pair_error + string" where
  "ComputeSharedSecret x priv peerPubKeyBase64 pairingSecret hostDeviceID mobileDeviceID =
     (if pairingSecret = '''' then Inl EEmptySecret
      else case b64_decode peerPubKeyBase64 of
        None \<Rightarrow> Inl EKeyDecode
      | Some peerBytes \<Rightarrow>
         if length peerBytes \<noteq> 32 then Inl EPeerKey
         else bindE (pairBind (kx_public x priv) peerBytes hostDeviceID mobileDeviceID) (\<lambda>bind.
           case kx_ecdh x priv peerBytes of
             None \<Rightarrow> Inl EECDH
           | Some raw \<Rightarrow> Inr (b64_encode (kx_hkdf x raw pairingSecret (pairingHKDFLabel @ bind)))))"

section \<open>The paired devices\<close>

record PairedDevice =
  pd_id :: string
  pd_name :: string
  pd_secret :: string
  pd_pairedAt :: int
  pd_lastSeen :: int

datatype device_error =
    EReadDevices
  | EParseDevices
  | ELoadSecret string store_error
  | EMarshalDevices
  | ETempDevices
  | EWriteDevices
  | EChmodDevices
  | ECloseDevices
  | ERenameDevices
  | EDeleteSecret string store_error
  | EAddDevice id_error
  | EDecodeSecret
  | EStoreSecret store_error

text \<open>The JSON codec of the list; the shared secret is not a field of it.\<close>

record dcodec =
  dmarshal :: "PairedDevice list \<Rightarrow> bytes option"
  dunmarshal :: "bytes \<Rightarrow> PairedDevice list option"

record dio =
  devReadOK :: bool
  devTmp :: "string option"
  devWriteOK :: bool
  devChmodOK :: bool
  devCloseOK :: bool
  devRenameOK :: bool

text \<open>The configuration directory and the secret store.\<close>

record 's devs =
  cdir :: files
  sec :: 's

definition pairedDevicesFile :: string where "pairedDevicesFile = ''paired_devices.json''"

definition paired_tmp :: "string \<Rightarrow> string" where "paired_tmp r = ''.paired-'' @ r @ ''.tmp''"

fun load_secrets :: "'s store \<Rightarrow> PairedDevice list \<Rightarrow> 's \<Rightarrow> (device_error + PairedDevice list) \<times> 's" where
  "load_secrets st [] s = (Inr [], s)"
| "load_secrets st (d # ds) s = (case sget st (SharedSecretKey (pd_id d)) s of
      (Inl e, s1) \<Rightarrow>
        if e = ErrSecretNotFound then
          (case load_secrets st ds s1 of (Inl x, s2) \<Rightarrow> (Inl x, s2) | (Inr r, s2) \<Rightarrow> (Inr (d # r), s2))
        else (Inl (ELoadSecret (pd_id d) e), s1)
    | (Inr v, s1) \<Rightarrow>
        (case load_secrets st ds s1 of
           (Inl x, s2) \<Rightarrow> (Inl x, s2)
         | (Inr r, s2) \<Rightarrow> (Inr (d\<lparr>pd_secret := b64_encode v\<rparr> # r), s2)))"

definition LoadPairedDevices ::
  "dcodec \<Rightarrow> 's store \<Rightarrow> dio \<Rightarrow> 's devs \<Rightarrow> (device_error + PairedDevice list) \<times> 's devs" where
  "LoadPairedDevices c st io w = (case cdir w pairedDevicesFile of
      None \<Rightarrow> (Inr [], w)
    | Some data \<Rightarrow>
       if \<not> devReadOK io then (Inl EReadDevices, w)
       else (case dunmarshal c data of
               None \<Rightarrow> (Inl EParseDevices, w)
             | Some ds \<Rightarrow> (case load_secrets st ds (sec w) of (r, s1) \<Rightarrow> (r, w\<lparr>sec := s1\<rparr>))))"

definition SavePairedDevices :: "dcodec \<Rightarrow> dio \<Rightarrow> PairedDevice list \<Rightarrow> files \<Rightarrow> (device_error + unit) \<times> files" where
  "SavePairedDevices c io ds fs = (case dmarshal c ds of
      None \<Rightarrow> (Inl EMarshalDevices, fs)
    | Some data \<Rightarrow>
       (case devTmp io of
          None \<Rightarrow> (Inl ETempDevices, fs)
        | Some r \<Rightarrow>
           let t = paired_tmp r; fs1 = fs(t \<mapsto> []) in
           if \<not> devWriteOK io then (Inl EWriteDevices, fs1(t := None))
           else let fs2 = fs1(t \<mapsto> data) in
             if \<not> devChmodOK io then (Inl EChmodDevices, fs2(t := None))
             else if \<not> devCloseOK io then (Inl ECloseDevices, fs2(t := None))
             else if \<not> devRenameOK io then (Inl ERenameDevices, fs2(t := None))
             else (Inr (), fs2(pairedDevicesFile \<mapsto> data, t := None))))"

definition save_into :: "dcodec \<Rightarrow> dio \<Rightarrow> PairedDevice list \<Rightarrow> 's devs \<Rightarrow> (device_error + unit) \<times> 's devs" where
  "save_into c io ds w = (case SavePairedDevices c io ds (cdir w) of (r, fs) \<Rightarrow> (r, w\<lparr>cdir := fs\<rparr>))"

definition RemovePairedDevice ::
  "dcodec \<Rightarrow> 's store \<Rightarrow> dio \<Rightarrow> string \<Rightarrow> 's devs \<Rightarrow> (device_error + unit) \<times> 's devs" where
  "RemovePairedDevice c st io deviceID w = (case LoadPairedDevices c st io w of
      (Inl e, w1) \<Rightarrow> (Inl e, w1)
    | (Inr ds, w1) \<Rightarrow>
       (let filtered = filter (\<lambda>d. pd_id d \<noteq> deviceID) ds in
        case sdel st (SharedSecretKey deviceID) (sec w1) of
          (Inl e, s2) \<Rightarrow> (Inl (EDeleteSecret deviceID e), w1\<lparr>sec := s2\<rparr>)
        | (Inr _, s2) \<Rightarrow> save_into c io filtered (w1\<lparr>sec := s2\<rparr>)))"

definition LoadPairedDevice ::
  "dcodec \<Rightarrow> 's store \<Rightarrow> dio \<Rightarrow> 's devs \<Rightarrow> (device_error + PairedDevice option) \<times> 's devs" where
  "LoadPairedDevice c st io w = (case LoadPairedDevices c st io w of
      (Inl e, w1) \<Rightarrow> (Inl e, w1)
    | (Inr ds, w1) \<Rightarrow> (Inr (case ds of [] \<Rightarrow> None | d # _ \<Rightarrow> Some d), w1))"

definition UpdatePairedDeviceName ::
  "dcodec \<Rightarrow> 's store \<Rightarrow> dio \<Rightarrow> string \<Rightarrow> string \<Rightarrow> 's devs \<Rightarrow> (device_error + bool) \<times> 's devs" where
  "UpdatePairedDeviceName c st io deviceID name w = (case LoadPairedDevice c st io w of
      (Inl e, w1) \<Rightarrow> (Inl e, w1)
    | (Inr None, w1) \<Rightarrow> (Inr False, w1)
    | (Inr (Some d), w1) \<Rightarrow>
       if pd_id d \<noteq> deviceID then (Inr False, w1)
       else if pd_name d = name then (Inr False, w1)
       else (case save_into c io [d\<lparr>pd_name := name\<rparr>] w1 of
               (Inl e, w2) \<Rightarrow> (Inl e, w2) | (Inr _, w2) \<Rightarrow> (Inr True, w2)))"

definition AddPairedDevice ::
  "dcodec \<Rightarrow> 's store \<Rightarrow> dio \<Rightarrow> PairedDevice \<Rightarrow> 's devs \<Rightarrow> (device_error + unit) \<times> 's devs" where
  "AddPairedDevice c st io d w = (case ValidateDeviceID (pd_id d) of
      Inl e \<Rightarrow> (Inl (EAddDevice e), w)
    | Inr _ \<Rightarrow>
       if pd_secret d \<noteq> '''' then
         (case b64_decode (pd_secret d) of
            None \<Rightarrow> (Inl EDecodeSecret, w)
          | Some v \<Rightarrow>
             (case sset st (SharedSecretKey (pd_id d)) v (sec w) of
                (Inl e, s1) \<Rightarrow> (Inl (EStoreSecret e), w\<lparr>sec := s1\<rparr>)
              | (Inr _, s1) \<Rightarrow> save_into c io [d] (w\<lparr>sec := s1\<rparr>)))
       else save_into c io [d] w)"

section \<open>Codes are unambiguous\<close>

lemma b64_char_no_pipe: "b64_char n \<noteq> CHR ''|''"
proof (cases "n < 64")
  case True
  then have "(of_char (b64_char n) :: nat) \<noteq> of_char (CHR ''|'')"
    by (auto simp: of_char_b64_char)
  then show ?thesis by metis
qed (simp add: b64_char_def)

lemma b64_encode_chars: "c \<in> set (b64_encode bs) \<Longrightarrow> c = CHR ''='' \<or> (\<exists>n. c = b64_char n)"
  by (induction bs rule: b64_encode.induct) (auto simp: Let_def)

lemma b64_no_pipe: "CHR ''|'' \<notin> set (b64_encode bs)"
  using b64_encode_chars [of "CHR ''|''" bs] b64_char_no_pipe by force

lemma alphabet_no_pipe: "c \<in> set pairingSecretAlphabet \<Longrightarrow> c \<noteq> CHR ''|'' \<and> c \<noteq> CHR ''-''"
  by (auto simp: pairingSecretAlphabet_def)

lemma length_alphabet: "length pairingSecretAlphabet = 32"
  by (simp add: pairingSecretAlphabet_def)

lemma pairing_secret_chars:
  "GeneratePairingSecret (Some buf) = Some s \<Longrightarrow> set s \<subseteq> set pairingSecretAlphabet \<and> length s = length buf"
  by (auto simp: GeneratePairingSecret_def length_alphabet)

lemma pairing_code_chars: "valid_pairing_code c \<Longrightarrow> set c \<subseteq> set pairingSecretAlphabet"
  by (auto simp: valid_pairing_code_def dropWhile_eq_Nil_conv)

lemma pairBind_Inr:
  "pairBind h m dh dm = Inr b \<longleftrightarrow> length h = 32 \<and> length m = 32 \<and> isOK (ValidateDeviceID dh) \<and>
     isOK (ValidateDeviceID dm) \<and> b = h @ m @ dh @ dm"
  by (auto simp: pairBind_def isOK_iff split: sum.splits)

lemma VerifyPairMAC_ok:
  "isOK (VerifyPairMAC secret pub d mac) \<longleftrightarrow> secret \<noteq> '''' \<and> isOK (ValidateDeviceID d) \<and>
     (\<exists>k. b64_decode pub = Some k \<and> length k = 32 \<and>
       b64_decode mac = Some (hmac_sha256 secret (pairMACLabel @ k @ d)))"
proof -
  have "b64_decode '''' = Some []" by (simp add: b64_decode_def)
  moreover have ne: "[] \<noteq> hmac_sha256 a b" for a b
    using length_hmac_sha256 [of a b] by (metis list.size(3) zero_neq_numeral)
  ultimately show ?thesis
    using ne by (auto simp: VerifyPairMAC_def isOK_iff split: option.splits sum.splits)
qed

lemma ComputeSharedSecret_Inr:
  "ComputeSharedSecret x priv pub secret dh dm = Inr s \<longleftrightarrow> secret \<noteq> '''' \<and>
     (\<exists>k b raw. b64_decode pub = Some k \<and> pairBind (kx_public x priv) k dh dm = Inr b \<and>
       kx_ecdh x priv k = Some raw \<and> s = b64_encode (kx_hkdf x raw secret (pairingHKDFLabel @ b)))"
  by (auto simp: ComputeSharedSecret_def pairBind_Inr split: option.splits if_splits)

section \<open>The devices as a client of the store\<close>

definition with_secret :: "(string \<rightharpoonup> bytes) \<Rightarrow> PairedDevice \<Rightarrow> PairedDevice" where
  "with_secret m d = (case m (SharedSecretKey (pd_id d)) of None \<Rightarrow> d | Some v \<Rightarrow> d\<lparr>pd_secret := b64_encode v\<rparr>)"

text \<open>The abstract list of devices: the file, with the secrets of the store.\<close>

definition devices_of :: "dcodec \<Rightarrow> (string \<rightharpoonup> bytes) \<Rightarrow> files \<Rightarrow> PairedDevice list option" where
  "devices_of c m fs = (case fs pairedDevicesFile of
      None \<Rightarrow> Some [] | Some data \<Rightarrow> map_option (map (with_secret m)) (dunmarshal c data))"

text \<open>The JSON codec restores a list whose strings are valid UTF-8, without the secrets; what it
  parses has valid strings and no secrets.\<close>

definition device_utf8 :: "PairedDevice \<Rightarrow> bool" where
  "device_utf8 d \<longleftrightarrow> utf8_valid (pd_id d) \<and> utf8_valid (pd_name d)"

definition codec_ok :: "dcodec \<Rightarrow> bool" where
  "codec_ok c \<longleftrightarrow>
     (\<forall>ds data. list_all device_utf8 ds \<longrightarrow> dmarshal c ds = Some data \<longrightarrow>
        dunmarshal c data = Some (map (\<lambda>d. d\<lparr>pd_secret := ''''\<rparr>) ds)) \<and>
     (\<forall>data ds. dunmarshal c data = Some ds \<longrightarrow> list_all (\<lambda>d. device_utf8 d \<and> pd_secret d = '''') ds)"

lemma codec_restores:
  "codec_ok c \<Longrightarrow> list_all device_utf8 ds \<Longrightarrow> dmarshal c ds = Some data \<Longrightarrow>
   dunmarshal c data = Some (map (\<lambda>d. d\<lparr>pd_secret := ''''\<rparr>) ds)"
  by (simp add: codec_ok_def)

lemma codec_parses:
  "codec_ok c \<Longrightarrow> dunmarshal c data = Some ds \<Longrightarrow> d \<in> set ds \<Longrightarrow> device_utf8 d \<and> pd_secret d = ''''"
  by (auto simp: codec_ok_def list_all_iff)

lemma with_secret_simps [simp]: "pd_id (with_secret m d) = pd_id d" "pd_name (with_secret m d) = pd_name d"
  by (simp_all add: with_secret_def split: option.splits)

lemma with_secret_strip:
  "pd_secret d = '''' \<Longrightarrow> m (SharedSecretKey (pd_id d)) = m2 (SharedSecretKey (pd_id d)) \<Longrightarrow>
   with_secret m ((with_secret m2 d)\<lparr>pd_secret := ''''\<rparr>) = with_secret m2 d"
  by (auto simp: with_secret_def split: option.splits)

lemma loaded_device:
  assumes "codec_ok c" "devices_of c m fs = Some ds" "d \<in> set ds"
  obtains d0 where "d = with_secret m d0" "device_utf8 d0" "pd_secret d0 = []"
  using assms codec_parses [OF assms(1)] by (auto simp: devices_of_def split: option.splits)

text \<open>Rewriting part of a list that was loaded: what is kept keeps its fields and its secret.\<close>

lemma resaved_devices:
  assumes "codec_ok c" "devices_of c m fs = Some ds" "dmarshal c (filter P ds) = Some data"
    "fs1 pairedDevicesFile = Some data"
    "\<And>d. d \<in> set ds \<Longrightarrow> P d \<Longrightarrow> m1 (SharedSecretKey (pd_id d)) = m (SharedSecretKey (pd_id d))"
  shows "devices_of c m1 fs1 = Some (filter P ds)"
proof -
  have el: "\<exists>d0. d = with_secret m d0 \<and> device_utf8 d0 \<and> pd_secret d0 = []" if "d \<in> set ds" for d
    using loaded_device [OF assms(1,2) that] by blast
  then have "list_all device_utf8 (filter P ds)"
    by (fastforce simp: list_all_iff device_utf8_def)
  then have "devices_of c m1 fs1 = Some (map (with_secret m1) (map (\<lambda>d. d\<lparr>pd_secret := []\<rparr>) (filter P ds)))"
    using codec_restores [OF assms(1) _ assms(3)] assms(4) by (simp add: devices_of_def)
  also have "map (with_secret m1) (map (\<lambda>d. d\<lparr>pd_secret := []\<rparr>) (filter P ds)) = map (\<lambda>d. d) (filter P ds)"
    unfolding map_map by (rule map_cong [OF refl]) (use el assms(5) with_secret_strip in fastforce)
  finally show ?thesis by simp
qed

lemma SharedSecretKey_inj [simp]: "SharedSecretKey a = SharedSecretKey b \<longleftrightarrow> a = b"
  by (simp add: SharedSecretKey_def)

lemma paired_names [simp]: "paired_tmp r \<noteq> pairedDevicesFile" "pairedDevicesFile \<noteq> paired_tmp r"
  by (simp_all add: paired_tmp_def pairedDevicesFile_def)

lemma SavePairedDevices_file:
  assumes "SavePairedDevices c io ds fs = (r, fs1)"
  shows "if isOK r then \<exists>data. dmarshal c ds = Some data \<and> fs1 pairedDevicesFile = Some data
         else fs1 pairedDevicesFile = fs pairedDevicesFile"
  using assms by (auto simp: SavePairedDevices_def Let_def split: option.splits if_splits)

lemma save_into_sec [simp]: "sec (snd (save_into c io ds w)) = sec w"
  by (simp add: save_into_def split: prod.splits)

lemma save_into_file:
  assumes "save_into c io ds w = (r, w1)"
  shows "sec w1 = sec w" "if isOK r then \<exists>data. dmarshal c ds = Some data \<and> cdir w1 pairedDevicesFile = Some data
         else cdir w1 pairedDevicesFile = cdir w pairedDevicesFile"
  using assms SavePairedDevices_file [of c io ds "cdir w"] by (auto simp: save_into_def split: prod.splits)

lemma hex_ascii: "is_lower_hex c \<Longrightarrow> between 0x00 0x7F c"
  by (auto simp: is_lower_hex_def between_def Let_def)

lemma utf8_ascii: "list_all (between 0x00 0x7F) s \<Longrightarrow> utf8_valid s"
  by (induction s) (auto simp: utf8_valid_def runes_ascii simp del: runes.simps(2))

lemma utf8_device_id:
  assumes "isOK (ValidateDeviceID d)" shows "utf8_valid d" "utf8_valid (SharedSecretKey d)"
proof -
  have d: "list_all (between 0x00 0x7F) d" using assms by (auto simp: ValidateDeviceID_ok list_all_iff hex_ascii)
  then show "utf8_valid d" by (rule utf8_ascii)
  have "list_all (between 0x00 0x7F) ''shared-secret-''" by (simp add: between_def)
  then show "utf8_valid (SharedSecretKey d)" using d by (intro utf8_ascii) (simp add: SharedSecretKey_def)
qed

context secret_store
begin

lemma load_secrets_laws:
  assumes "ok s" "load_secrets st ds s = (r, s1)"
  shows "ok s1 \<and> secrets_of s1 = secrets_of s \<and>
    (case r of Inr ds2 \<Rightarrow> ds2 = map (with_secret (secrets_of s)) ds
     | Inl x \<Rightarrow> \<exists>d e. x = ELoadSecret d e \<and> e \<noteq> ErrSecretNotFound)"
  using assms
proof (induction ds arbitrary: s r s1)
  case (Cons d ds)
  obtain q s' where q: "sget st (SharedSecretKey (pd_id d)) s = (q, s')" by fastforce
  obtain r2 s2 where r2: "load_secrets st ds s' = (r2, s2)" by fastforce
  have s': "ok s'" "secrets_of s' = secrets_of s" using get_state [OF Cons.prems(1) q] by auto
  have w: "isOK q \<or> q = Inl ErrSecretNotFound \<Longrightarrow> q = lookup_result (secrets_of s) (SharedSecretKey (pd_id d))"
    using get_result [OF Cons.prems(1) q] .
  from Cons.IH [OF s'(1) r2] s' w Cons.prems(2) q r2 show ?case
    by (cases q) (auto simp: with_secret_def lookup_result_def isOK_iff split: sum.splits if_splits option.splits)
qed auto

lemma LoadPairedDevices_laws:
  assumes "ok (sec w)" "LoadPairedDevices c st io w = (r, w1)"
  shows "ok (sec w1) \<and> secrets_of (sec w1) = secrets_of (sec w) \<and> cdir w1 = cdir w \<and>
    (case r of Inr ds \<Rightarrow> devices_of c (secrets_of (sec w)) (cdir w) = Some ds
     | Inl x \<Rightarrow> x = EReadDevices \<or> x = EParseDevices \<and> devices_of c (secrets_of (sec w)) (cdir w) = None \<or>
         (\<exists>d e. x = ELoadSecret d e \<and> e \<noteq> ErrSecretNotFound))"
proof (cases "cdir w pairedDevicesFile")
  case None
  then show ?thesis using assms by (auto simp: LoadPairedDevices_def devices_of_def)
next
  case (Some data)
  show ?thesis
  proof (cases "devReadOK io \<and> dunmarshal c data \<noteq> None")
    case True
    then obtain ds where ds: "dunmarshal c data = Some ds" by blast
    obtain q s1 where q: "load_secrets st ds (sec w) = (q, s1)" by fastforce
    from load_secrets_laws [OF assms(1) q] assms(2) True Some ds q show ?thesis
      by (auto simp: LoadPairedDevices_def devices_of_def split: sum.splits)
  next
    case False
    then show ?thesis using assms Some by (auto simp: LoadPairedDevices_def devices_of_def split: if_splits)
  qed
qed

lemma AddPairedDevice_laws:
  assumes "ok (sec w)" "isOK (ValidateDeviceID (pd_id d)) \<Longrightarrow> keyok (SharedSecretKey (pd_id d))"
    "codec_ok c" "utf8_valid (pd_name d)" "pd_secret d = b64_encode v" "v \<noteq> []"
    "AddPairedDevice c st io d w = (Inr (), w1)"
  shows "ok (sec w1) \<and> secrets_of (sec w1) = (secrets_of (sec w))(SharedSecretKey (pd_id d) \<mapsto> v) \<and>
    isOK (ValidateDeviceID (pd_id d)) \<and> devices_of c (secrets_of (sec w1)) (cdir w1) = Some [d]"
proof -
  have "pd_secret d \<noteq> ''''" using assms(5,6) by (cases v rule: b64_encode.cases) (auto simp: Let_def)
  then obtain s1 where s: "isOK (ValidateDeviceID (pd_id d))" "sset st (SharedSecretKey (pd_id d)) v (sec w) = (Inr (), s1)"
    "save_into c io [d] (w\<lparr>sec := s1\<rparr>) = (Inr (), w1)"
    using assms(5,7) by (auto simp: AddPairedDevice_def b64_decode_encode split: sum.splits prod.splits)
  note sv = save_into_file [OF s(3)]
  have s1: "ok s1" "secrets_of s1 = (secrets_of (sec w))(SharedSecretKey (pd_id d) \<mapsto> v)"
    using set_done [OF assms(1) assms(2) [OF s(1)] s(2)] by auto
  obtain data where data: "dmarshal c [d] = Some data" "cdir w1 pairedDevicesFile = Some data" using sv(2) by auto
  then have "dunmarshal c data = Some [d\<lparr>pd_secret := ''''\<rparr>]"
    using codec_restores [OF assms(3) _ data(1)] assms(4) utf8_device_id(1) [OF s(1)] by (simp add: device_utf8_def)
  then have "devices_of c (secrets_of s1) (cdir w1) = Some [d]"
    using data(2) s1(2) assms(5) by (simp add: devices_of_def with_secret_def)
  then show ?thesis using sv(1) s1 s(1) by simp
qed

lemma RemovePairedDevice_laws:
  assumes "ok (sec w)" "codec_ok c" "RemovePairedDevice c st io i w = (Inr (), w1)"
  shows "ok (sec w1) \<and> secrets_of (sec w1) = (secrets_of (sec w))(SharedSecretKey i := None) \<and>
    (\<exists>ds. devices_of c (secrets_of (sec w)) (cdir w) = Some ds \<and>
       devices_of c (secrets_of (sec w1)) (cdir w1) = Some (filter (\<lambda>d. pd_id d \<noteq> i) ds))"
proof -
  obtain q w0 where q: "LoadPairedDevices c st io w = (q, w0)" by fastforce
  obtain ds s2 where s: "q = Inr ds" "sdel st (SharedSecretKey i) (sec w0) = (Inr (), s2)"
    "save_into c io (filter (\<lambda>d. pd_id d \<noteq> i) ds) (w0\<lparr>sec := s2\<rparr>) = (Inr (), w1)"
    using assms(3) q by (auto simp: RemovePairedDevice_def Let_def split: sum.splits prod.splits)
  note l = LoadPairedDevices_laws [OF assms(1) q]
  have d: "ok s2" "secrets_of s2 = (secrets_of (sec w))(SharedSecretKey i := None)"
    using del_done [OF _ s(2)] l by auto
  note sv = save_into_file [OF s(3)]
  obtain data where data: "dmarshal c (filter (\<lambda>d. pd_id d \<noteq> i) ds) = Some data" "cdir w1 pairedDevicesFile = Some data"
    using sv(2) by auto
  have ds: "devices_of c (secrets_of (sec w)) (cdir w) = Some ds" using l s(1) by simp
  have "devices_of c (secrets_of s2) (cdir w1) = Some (filter (\<lambda>d. pd_id d \<noteq> i) ds)"
    by (rule resaved_devices [where ?fs1.0 = "cdir w1", OF assms(2) ds data]) (simp add: d(2))
  then show ?thesis using sv(1) d ds by simp
qed

lemma UpdatePairedDeviceName_laws:
  assumes "ok (sec w)" "codec_ok c" "utf8_valid name" "UpdatePairedDeviceName c st io i name w = (Inr b, w1)"
  shows "ok (sec w1) \<and> secrets_of (sec w1) = secrets_of (sec w) \<and>
    (\<exists>ds. devices_of c (secrets_of (sec w)) (cdir w) = Some ds \<and>
      (if b then ds \<noteq> [] \<and> pd_id (hd ds) = i \<and> pd_name (hd ds) \<noteq> name \<and>
         devices_of c (secrets_of (sec w1)) (cdir w1) = Some [(hd ds)\<lparr>pd_name := name\<rparr>]
       else cdir w1 = cdir w \<and> (ds = [] \<or> pd_id (hd ds) \<noteq> i \<or> pd_name (hd ds) = name)))"
proof -
  obtain q w0 where q: "LoadPairedDevices c st io w = (q, w0)" by fastforce
  obtain ds where ds: "q = Inr ds"
    using assms(4) q by (auto simp: UpdatePairedDeviceName_def LoadPairedDevice_def split: sum.splits prod.splits)
  note l = LoadPairedDevices_laws [OF assms(1) q]
  have dv: "devices_of c (secrets_of (sec w)) (cdir w) = Some ds" using l ds by simp
  show ?thesis
  proof (cases b)
    case False
    then show ?thesis using assms(4) q ds l dv
      by (auto simp: UpdatePairedDeviceName_def LoadPairedDevice_def
          split: sum.splits prod.splits list.splits if_splits)
  next
    case True
    then obtain d ds1 where d: "ds = d # ds1" "pd_id d = i" "pd_name d \<noteq> name"
      "save_into c io [d\<lparr>pd_name := name\<rparr>] w0 = (Inr (), w1)"
      using assms(4) q ds
      by (auto simp: UpdatePairedDeviceName_def LoadPairedDevice_def split: sum.splits prod.splits list.splits if_splits)
    note sv = save_into_file [OF d(4)]
    obtain data where data: "dmarshal c [d\<lparr>pd_name := name\<rparr>] = Some data" "cdir w1 pairedDevicesFile = Some data"
      using sv(2) by auto
    obtain d0 where d0: "d = with_secret (secrets_of (sec w)) d0" "device_utf8 d0" "pd_secret d0 = []"
      using loaded_device [OF assms(2) dv, of d] d(1) by auto
    have "device_utf8 (d\<lparr>pd_name := name\<rparr>)" using d0 assms(3) by (simp add: device_utf8_def)
    then have "dunmarshal c data = Some [d\<lparr>pd_name := name, pd_secret := []\<rparr>]"
      using codec_restores [OF assms(2) _ data(1)] by simp
    then have "devices_of c (secrets_of (sec w)) (cdir w1) = Some [d\<lparr>pd_name := name\<rparr>]"
      using data(2) d0 by (auto simp: devices_of_def with_secret_def split: option.splits)
    then show ?thesis using True l sv(1) d dv by simp
  qed
qed

end

section \<open>Properties\<close>

text \<open>What the QR code carries can be read back: the payload of a pairing code the server
  may issue, any X25519 key, a valid device ID, a server URL without the separator and a
  generated secret splits into exactly its five fields, with an empty URL standing for the
  default one, and the second field decodes to the key.\<close>

theorem qr_payload_roundtrip:
  assumes "valid_pairing_code code" and "isOK (ValidateDeviceID d)"
    and "GeneratePairingSecret (Some buf) = Some secret" and "CHR ''|'' \<notin> set url"
  shows "split_on (CHR ''|'') (BuildQRPayload code (PublicKeyBase64 x priv) d url secret) =
      [code, PublicKeyBase64 x priv, d, if url = DefaultServerURL then '''' else url, secret] \<and>
    b64_decode (PublicKeyBase64 x priv) = Some (kx_public x priv)"
proof -
  let ?u = "if url = DefaultServerURL then '''' else url"
  have "CHR ''|'' \<notin> set code" "CHR ''|'' \<notin> set secret"
    using pairing_code_chars [OF assms(1)] pairing_secret_chars [OF assms(3)] alphabet_no_pipe by blast+
  then have "\<forall>p \<in> set [code, PublicKeyBase64 x priv, d, ?u, secret]. CHR ''|'' \<notin> set p"
    using device_id_no_pipe [OF assms(2)] assms(4) b64_no_pipe by (simp add: PublicKeyBase64_def)
  then show ?thesis
    using split_on_join [of "[code, PublicKeyBase64 x priv, d, ?u, secret]"]
    by (simp add: BuildQRPayload_def PublicKeyBase64_def b64_decode_encode Let_def del: join_with.simps)
qed

text \<open>An accepted pairing MAC is the HMAC under the pairing secret of exactly the mobile's
  key and device ID that the message carries: a MAC accepted with two different keys or device
  IDs exhibits a collision of HMAC-SHA256 under the secret. And the shared secret is derived from
  both keys and both device IDs: two derivations with equal bindings agree in all four.\<close>

theorem pair_mac_binds:
  assumes "isOK (VerifyPairMAC secret pub d mac)" and "isOK (VerifyPairMAC secret pub2 d2 mac)"
    and "pairBind h1 m1 dh1 dm1 = Inr b" and "pairBind h2 m2 dh2 dm2 = Inr b"
  shows "(b64_decode pub = b64_decode pub2 \<and> d = d2 \<or>
      (\<exists>t t2. t \<noteq> t2 \<and> hmac_sha256 secret t = hmac_sha256 secret t2)) \<and>
    h1 = h2 \<and> m1 = m2 \<and> dh1 = dh2 \<and> dm1 = dm2"
proof -
  obtain k where k: "b64_decode pub = Some k" "length k = 32" "b64_decode mac = Some (hmac_sha256 secret (pairMACLabel @ k @ d))"
    using assms(1) by (auto simp: VerifyPairMAC_ok)
  obtain k2 where k2: "b64_decode pub2 = Some k2" "length k2 = 32" "b64_decode mac = Some (hmac_sha256 secret (pairMACLabel @ k2 @ d2))"
    using assms(2) by (auto simp: VerifyPairMAC_ok)
  have "h1 @ m1 @ dh1 @ dm1 = h2 @ m2 @ dh2 @ dm2" "length h1 = length h2" "length m1 = length m2" "length dh1 = length dh2"
    using assms(3,4) by (auto simp: pairBind_Inr ValidateDeviceID_ok)
  then have "h1 = h2 \<and> m1 = m2 \<and> dh1 = dh2 \<and> dm1 = dm2" by simp
  moreover have "k = k2 \<and> d = d2" if "pairMACLabel @ k @ d = pairMACLabel @ k2 @ d2"
    using that k(2) k2(2) by simp
  ultimately show ?thesis using k k2 by (metis option.inject)
qed


text \<open>Removing a device removes the device and its secret and nothing else: after
  \<open>RemovePairedDevice\<close> reported success on the encrypted-file store, the devices are those that
  were there before without it, each with the secret it had, the secret of the removed device is
  gone, and every other secret is what it was.\<close>

theorem removed_device_gone:
  assumes "crypto_works cr" and "random_fills io" and "file_consistent cr (sec w)" and "codec_ok c"
    and "RemovePairedDevice c (file_store cr io) di i w = (Inr (), w1)"
  shows "file_consistent cr (sec w1) \<and>
    file_secrets cr (sec w1) = (file_secrets cr (sec w))(SharedSecretKey i := None) \<and>
    (\<exists>ds. devices_of c (file_secrets cr (sec w)) (cdir w) = Some ds \<and>
       devices_of c (file_secrets cr (sec w1)) (cdir w1) = Some (filter (\<lambda>d. pd_id d \<noteq> i) ds))"
proof -
  have "crypto_works cr \<and> random_fills io \<and> file_consistent cr (sec w)" using assms(1-3) by simp
  from filed.RemovePairedDevice_laws [OF this assms(4,5)] show ?thesis by blast
qed

section \<open>Witnesses\<close>

text \<open>A codec of device lists over the one of \<open>Secret_Store\<close>: two pairs of strings per device.\<close>

definition int_code :: "int \<Rightarrow> string" where
  "int_code i = (if i < 0 then CHR ''-'' else CHR ''+'') # replicate (nat \<bar>i\<bar>) (CHR ''x'')"

definition code_int :: "string \<Rightarrow> int" where
  "code_int s = (if s \<noteq> [] \<and> hd s = CHR ''-'' then - int (length (tl s)) else int (length (tl s)))"

lemma code_int_code [simp]: "code_int (int_code i) = i"
  by (simp add: code_int_def int_code_def)

definition dev_pairs :: "PairedDevice \<Rightarrow> secrets" where
  "dev_pairs d = [(pd_id d, pd_name d), (int_code (pd_pairedAt d), int_code (pd_lastSeen d))]"

fun pairs_devs :: "secrets \<Rightarrow> PairedDevice list" where
  "pairs_devs ((i, n) # (p, l) # xs) =
     \<lparr>pd_id = i, pd_name = n, pd_secret = '''', pd_pairedAt = code_int p, pd_lastSeen = code_int l\<rparr> # pairs_devs xs"
| "pairs_devs _ = []"

definition toy_codec :: dcodec where
  "toy_codec = \<lparr>dmarshal = (\<lambda>ds. Some (pack (concat (map dev_pairs ds)))),
     dunmarshal = (\<lambda>d. let ds = pairs_devs (unpack (length d) d) in if list_all device_utf8 ds then Some ds else None)\<rparr>"

lemma pairs_devs_pairs: "pairs_devs (concat (map dev_pairs ds)) = map (\<lambda>d. d\<lparr>pd_secret := ''''\<rparr>) ds"
  by (induction ds) (simp_all add: dev_pairs_def)

lemma pairs_devs_secret: "d \<in> set (pairs_devs xs) \<Longrightarrow> pd_secret d = ''''"
  by (induction xs rule: pairs_devs.induct) auto

lemma toy_codec_ok: "codec_ok toy_codec"
  by (auto simp: codec_ok_def toy_codec_def unpack_pack length_pack pairs_devs_pairs list_all_iff device_utf8_def
      pairs_devs_secret Let_def split: if_splits)

definition toy_dio :: dio where
  "toy_dio = \<lparr>devReadOK = True, devTmp = Some ''1'', devWriteOK = True, devChmodOK = True, devCloseOK = True, devRenameOK = True\<rparr>"

definition toy_device :: PairedDevice where
  "toy_device = \<lparr>pd_id = deriveDeviceID demo_pub, pd_name = ''phone'', pd_secret = b64_encode ''key'',
     pd_pairedAt = 0, pd_lastSeen = 0\<rparr>"

definition toy_devs :: "fstore devs" where "toy_devs = \<lparr>cdir = Map.empty, sec = toy_fresh\<rparr>"

lemma toy_fset: "fst (File_Set toy toy_io key v toy_fresh) = Inr ()" "fst (File_Delete toy toy_io key toy_fresh) = Inr ()"
  by (simp_all add: File_Set_def File_Delete_def toy_fresh_def NewFileSecretStore_def ensureLoaded_def flush_def
      encrypt_def toy_machine replace_file_def Let_def toy_io_def io_reads_def)

lemma toy_save: "fst (save_into toy_codec toy_dio ds w) = Inr ()"
  by (simp add: save_into_def SavePairedDevices_def toy_codec_def toy_dio_def Let_def)

lemma toy_add: "fst (AddPairedDevice toy_codec (file_store toy toy_io) toy_dio toy_device toy_devs) = Inr ()"
proof -
  obtain s1 where s1: "File_Set toy toy_io (SharedSecretKey (pd_id toy_device)) ''key'' toy_fresh = (Inr (), s1)"
    using toy_fset(1) by (metis prod.collapse)
  have "ValidateDeviceID (pd_id toy_device) = Inr ()"
    using deriveDeviceID_valid [of demo_pub] by (simp add: toy_device_def isOK_iff)
  moreover have "pd_secret toy_device \<noteq> ''''" "b64_decode (pd_secret toy_device) = Some ''key''"
    unfolding toy_device_def PairedDevice.simps by (simp add: Let_def) (rule b64_decode_encode)
  ultimately show ?thesis
    using s1 toy_save by (simp add: AddPairedDevice_def file_store_def toy_devs_def)
qed

theorem qr_payload_roundtrip_witness:
  "split_on (CHR ''|'') (BuildQRPayload ''ABC234'' (b64_encode ''k'') (deriveDeviceID demo_pub) DefaultServerURL ''AB'') =
     [''ABC234'', b64_encode ''k'', deriveDeviceID demo_pub, '''', ''AB'']"
proof -
  have "valid_pairing_code ''ABC234''" "GeneratePairingSecret (Some [CHR 0x00, CHR 0x21]) = Some ''AB''" by code_simp+
  moreover have "CHR ''|'' \<notin> set DefaultServerURL" by (simp add: DefaultServerURL_def)
  ultimately show ?thesis
    using qr_payload_roundtrip [of "''ABC234''" "deriveDeviceID demo_pub" _ _ DefaultServerURL
        "\<lparr>kx_public = (\<lambda>p. p), kx_ecdh = (\<lambda>_ _. None), kx_hkdf = (\<lambda>_ _ _. [])\<rparr>" "''k''"] deriveDeviceID_valid
    by (simp add: PublicKeyBase64_def)
qed

theorem pair_mac_binds_witness:
  "\<exists>mac. isOK (VerifyPairMAC ''AB'' (b64_encode demo_pub) (deriveDeviceID demo_pub) mac) \<and>
     pairBind demo_pub demo_pub (deriveDeviceID demo_pub) (deriveDeviceID demo_pub) =
       Inr (demo_pub @ demo_pub @ deriveDeviceID demo_pub @ deriveDeviceID demo_pub)"
proof -
  let ?d = "deriveDeviceID demo_pub"
  have l: "length demo_pub = 32" by (simp add: demo_pub_def)
  have m: "isOK (VerifyPairMAC ''AB'' (b64_encode demo_pub) ?d
      (b64_encode (hmac_sha256 ''AB'' (pairMACLabel @ demo_pub @ ?d))))"
    using deriveDeviceID_valid l by (simp add: VerifyPairMAC_ok b64_decode_encode)
  have b: "pairBind demo_pub demo_pub ?d ?d = Inr (demo_pub @ demo_pub @ ?d @ ?d)"
    using deriveDeviceID_valid l by (simp add: pairBind_Inr)
  from pair_mac_binds [OF m m b b] m b show ?thesis by blast
qed


theorem removed_device_gone_witness:
  "\<exists>w1. RemovePairedDevice toy_codec (file_store toy toy_io) toy_dio ''d'' toy_devs = (Inr (), w1) \<and>
     devices_of toy_codec (file_secrets toy (sec w1)) (cdir w1) = Some []"
proof -
  obtain s1 where "File_Delete toy toy_io (SharedSecretKey ''d'') toy_fresh = (Inr (), s1)"
    using toy_fset(2) by (metis prod.collapse)
  then have "fst (RemovePairedDevice toy_codec (file_store toy toy_io) toy_dio ''d'' toy_devs) = Inr ()"
    using toy_save by (simp add: RemovePairedDevice_def LoadPairedDevices_def toy_devs_def file_store_def)
  then obtain w1 where w1: "RemovePairedDevice toy_codec (file_store toy toy_io) toy_dio ''d'' toy_devs = (Inr (), w1)"
    by (metis prod.collapse)
  have c: "file_consistent toy (sec toy_devs)" by (simp add: toy_devs_def toy_consistent)
  have "devices_of toy_codec m (cdir toy_devs) = Some []" for m by (simp add: devices_of_def toy_devs_def)
  with removed_device_gone [OF toy_works toy_fills(1) c toy_codec_ok w1] w1 show ?thesis by auto
qed

end
