(* ===== verification/Pair_Session.thy ===== *)
theory Pair_Session
  imports Pairing
begin

text \<open>
  The pairing itself: the WebSocket session of \<open>internal/auth/pair_session.go\<close> and the commands
  \<open>RunPair\<close> and \<open>RunUnpair\<close> of \<open>internal/agent/pair.go\<close> and \<open>unpair.go\<close>.

  What the session reads is a list of frames per stage, ended by a failed read (a closed
  connection or the stage's deadline), so every behaviour of the server is some choice of the
  lists; \<open>json.Unmarshal\<close> into the three message types is a parameter. Keepalive frames carry no
  state and are not modelled. A run of \<open>RunPair\<close> takes the outcome of everything outside the
  program from one record and threads the host's files, the secret store, the requests sent, the
  session and a log of what was done.

  Shown here: a device is stored only after it proved the secret of this run's code and, when the
  server holds the pairing, after the server confirmed it; a held pairing is answered exactly
  once; a pairing that is not stored leaves the old one untouched; the agent is always restarted;
  and a successful run leaves exactly the new device, with its secret, on the disk.
\<close>

section \<open>The session\<close>

record PairCompleteMessage =
  pc_type :: string
  pc_mobile :: string
  pc_key :: string
  pc_name :: string
  pc_mac :: string

record pair_result =
  pr_type :: string
  pr_mobile :: string
  pr_ok :: bool
  pr_error :: string

record pcodec =
  as_auth :: "bytes \<Rightarrow> (string \<times> string) option"
  as_complete :: "bytes \<Rightarrow> PairCompleteMessage option"
  as_result :: "bytes \<Rightarrow> pair_result option"

datatype decision = PairAccept | PairReject

datatype session_error =
    EDialHMAC string string
  | EConnect string
  | ESendAuth
  | EAuthRead
  | EAuthFailed string
  | ETwice
  | EReadFrame
  | ETimedOut
  | EInvalidMobile id_error
  | ENotHeld
  | ENoComplete
  | ESendDecision decision
  | ENoResult
  | ENotConfirmed
  | ERefused string

text \<open>\<open>answers\<close> lists the decisions \<open>sendDecision\<close> tried to send, with whether the write succeeded.\<close>

record session =
  confirm :: bool
  received :: "PairCompleteMessage option"
  waited :: bool
  decided :: bool
  answers :: "(decision \<times> string \<times> bool) list"
  sclosed :: bool

definition new_session :: "bool \<Rightarrow> session" where
  "new_session c = \<lparr>confirm = c, received = None, waited = False, decided = False, answers = [], sclosed = False\<rparr>"

fun auth_loop :: "pcodec \<Rightarrow> (bytes \<Rightarrow> bool) \<Rightarrow> bytes list \<Rightarrow> session \<Rightarrow> (session_error + unit) \<times> session" where
  "auth_loop c p [] s = (Inl EAuthRead, s)"
| "auth_loop c p (d # ds) s = (case as_auth c d of
      None \<Rightarrow> auth_loop c p ds s
    | Some (ty, er) \<Rightarrow>
       if ty = ''auth'' then (Inr (), s)
       else if ty = ''error'' then (Inl (EAuthFailed (SanitizeDisplayString p er)), s)
       else if ty = ''pair_complete'' \<and> received s = None then
         (case as_complete c d of
            Some pc \<Rightarrow> auth_loop c p ds (s\<lparr>received := Some pc\<rparr>)
          | None \<Rightarrow> auth_loop c p ds s)
       else auth_loop c p ds s)"

definition authenticate :: "pcodec \<Rightarrow> (bytes \<Rightarrow> bool) \<Rightarrow> bool \<Rightarrow> bytes list \<Rightarrow> session \<Rightarrow> (session_error + unit) \<times> session" where
  "authenticate c p wrote frames s = (if \<not> wrote then (Inl ESendAuth, s) else auth_loop c p frames s)"

text \<open>\<open>dial\<close> is the outcome of the WebSocket handshake: on failure the error and, when the server
  answered, its status and body.\<close>

definition DialPairSession ::
  "httpenv \<Rightarrow> pcodec \<Rightarrow> string \<Rightarrow> bool \<Rightarrow> (net_error \<times> (nat \<times> bytes) option) + unit \<Rightarrow> bool \<Rightarrow> bytes list \<Rightarrow> session_error + session" where
  "DialPairSession e c serverURL conf dial wrote frames = (case dial of
      Inl (ne, resp) \<Rightarrow>
        Inl (case resp of
               Some (code, b) \<Rightarrow> (case CheckHMACRejection (jerr e) code b of
                   Some m \<Rightarrow> EDialHMAC serverURL m | None \<Rightarrow> EConnect (connError (prn e) ne))
             | None \<Rightarrow> EConnect (connError (prn e) ne))
    | Inr _ \<Rightarrow>
       (case authenticate c (prn e) wrote frames (new_session conf) of
          (Inl x, s) \<Rightarrow> Inl x | (Inr _, s) \<Rightarrow> Inr s))"

fun read_complete :: "pcodec \<Rightarrow> bytes list \<Rightarrow> PairCompleteMessage option" where
  "read_complete c [] = None"
| "read_complete c (d # ds) = (case as_complete c d of
      Some m \<Rightarrow> if pc_type m = ''pair_complete'' then Some m else read_complete c ds
    | None \<Rightarrow> read_complete c ds)"

definition readPairComplete :: "pcodec \<Rightarrow> bytes list \<Rightarrow> bool \<Rightarrow> session \<Rightarrow> (session_error + unit) \<times> session" where
  "readPairComplete c frames timedOut s =
     (let s1 = s\<lparr>received := read_complete c frames\<rparr> in
      if timedOut then (Inl ETimedOut, s1)
      else case read_complete c frames of None \<Rightarrow> (Inl EReadFrame, s1) | Some _ \<Rightarrow> (Inr (), s1))"

text \<open>An error comes with the message that was received nevertheless.\<close>

definition WaitForPairComplete ::
  "pcodec \<Rightarrow> bytes list \<Rightarrow> bool \<Rightarrow> session \<Rightarrow> (session_error \<times> PairCompleteMessage option + PairCompleteMessage) \<times> session" where
  "WaitForPairComplete c frames timedOut s =
     (if waited s then (Inl (ETwice, None), s)
      else
        let s1 = s\<lparr>waited := True\<rparr>;
            (r, s2) = (if received s1 = None then readPairComplete c frames timedOut s1 else (Inr (), s1))
        in case r of
             Inl x \<Rightarrow> (Inl (x, received s2), s2)
           | Inr _ \<Rightarrow>
              (case received s2 of
                 None \<Rightarrow> (Inl (ENoComplete, None), s2)
               | Some pc \<Rightarrow>
                  (case ValidateDeviceID (pc_mobile pc) of
                     Inl x \<Rightarrow> (Inl (EInvalidMobile x, Some pc), s2)
                   | Inr _ \<Rightarrow> (Inr pc, s2))))"

definition checkDecidable :: "session \<Rightarrow> session_error + PairCompleteMessage" where
  "checkDecidable s =
     (if \<not> confirm s then Inl ENotHeld
      else case received s of None \<Rightarrow> Inl ENoComplete | Some pc \<Rightarrow> Inr pc)"

definition sendDecision :: "decision \<Rightarrow> string \<Rightarrow> bool \<Rightarrow> session \<Rightarrow> (session_error + unit) \<times> session" where
  "sendDecision dcs mobile wrote s =
     (if wrote then Inr () else Inl (ESendDecision dcs),
      s\<lparr>decided := True, answers := answers s @ [(dcs, mobile, wrote)]\<rparr>)"

definition Reject :: "bool \<Rightarrow> session \<Rightarrow> (session_error + unit) \<times> session" where
  "Reject wrote s = (case checkDecidable s of
      Inl x \<Rightarrow> (Inl x, s) | Inr pc \<Rightarrow> sendDecision PairReject (pc_mobile pc) wrote s)"

fun result_loop :: "pcodec \<Rightarrow> (bytes \<Rightarrow> bool) \<Rightarrow> string \<Rightarrow> bytes list \<Rightarrow> session_error + unit" where
  "result_loop c p mobile [] = Inl ENoResult"
| "result_loop c p mobile (d # ds) = (case as_result c d of
      None \<Rightarrow> result_loop c p mobile ds
    | Some m \<Rightarrow>
       if pr_type m = ''pair_result'' then
         (if pr_mobile m \<noteq> mobile then result_loop c p mobile ds
          else if \<not> pr_ok m then Inl ENotConfirmed else Inr ())
       else if pr_type m = ''error'' then Inl (ERefused (SanitizeDisplayString p (pr_error m)))
       else result_loop c p mobile ds)"

definition Accept :: "pcodec \<Rightarrow> (bytes \<Rightarrow> bool) \<Rightarrow> bool \<Rightarrow> bytes list \<Rightarrow> session \<Rightarrow> (session_error + unit) \<times> session" where
  "Accept c p wrote frames s = (case checkDecidable s of
      Inl x \<Rightarrow> (Inl x, s)
    | Inr pc \<Rightarrow>
       (case sendDecision PairAccept (pc_mobile pc) wrote s of
          (Inl x, s1) \<Rightarrow> (Inl x, s1)
        | (Inr _, s1) \<Rightarrow> (result_loop c p (pc_mobile pc) frames, s1)))"

definition Session_Close :: "bool \<Rightarrow> session \<Rightarrow> (session_error + unit) \<times> session" where
  "Session_Close wrote s =
     (let (r, s1) = (if confirm s \<and> received s \<noteq> None \<and> \<not> decided s then Reject wrote s else (Inr (), s))
      in (r, s1\<lparr>sclosed := True\<rparr>))"

section \<open>Which servers may be used in cleartext\<close>

definition ip4_field :: "string \<Rightarrow> nat option" where
  "ip4_field f =
     (if f = [] \<or> length f > 3 \<or> (length f > 1 \<and> hd f = CHR ''0'') \<or> list_ex (\<lambda>c. digit_val c = None) f then None
      else let n = foldl (\<lambda>a c. 10 * a + (case digit_val c of None \<Rightarrow> 0 | Some v \<Rightarrow> v)) 0 f in
        if n \<le> 255 then Some n else None)"

text \<open>\<open>net.ParseIP\<close>: sixteen octets; dotted decimals are IPv4-mapped, the IPv6 forms are parsed by the
  parameter.\<close>

definition v4_prefix :: "nat list" where "v4_prefix = replicate 10 0 @ [255, 255]"

definition ParseIP :: "(string \<Rightarrow> nat list option) \<Rightarrow> string \<Rightarrow> nat list option" where
  "ParseIP parse6 host =
     (if CHR '':'' \<in> set host then parse6 host
      else let fs = map ip4_field (split_on (CHR ''.'') host) in
        if length fs = 4 \<and> None \<notin> set fs then Some (v4_prefix @ map the fs) else None)"

definition To4 :: "nat list \<Rightarrow> nat list option" where
  "To4 ip = (if length ip = 16 \<and> take 12 ip = v4_prefix then Some (drop 12 ip) else None)"

definition IsLoopback :: "nat list \<Rightarrow> bool" where
  "IsLoopback ip = (case To4 ip of Some q \<Rightarrow> q ! 0 = 127 | None \<Rightarrow> ip = replicate 15 0 @ [1])"

definition private4 :: "nat list \<Rightarrow> bool" where
  "private4 q \<longleftrightarrow> q ! 0 = 10 \<or> q ! 0 = 172 \<and> 16 \<le> q ! 1 \<and> q ! 1 \<le> 31 \<or> q ! 0 = 192 \<and> q ! 1 = 168"

datatype transport_error = ETransportURL | ECleartext string string

definition checkServerTransport :: "resolver \<Rightarrow> (string \<Rightarrow> nat list option) \<Rightarrow> string \<Rightarrow> transport_error + unit" where
  "checkServerTransport rsv parse6 serverURL = (case parse_url rsv serverURL of
      None \<Rightarrow> Inl ETransportURL
    | Some u \<Rightarrow>
       if u_scheme u \<noteq> ''http'' \<and> u_scheme u \<noteq> ''ws'' then Inr ()
       else if u_host u = ''localhost'' then Inr ()
       else case ParseIP parse6 (u_host u) of
         Some ip \<Rightarrow>
           if IsLoopback ip \<or> (case To4 ip of None \<Rightarrow> False | Some q \<Rightarrow> private4 q) then Inr ()
           else Inl (ECleartext (u_scheme u) (u_host u))
       | None \<Rightarrow> Inl (ECleartext (u_scheme u) (u_host u)))"

section \<open>The command\<close>

datatype run_error =
    ENoIdent
  | ELoadIdent id_error
  | ETransport transport_error
  | ELoadDevices device_error
  | EKeypair
  | EPairSecret
  | EInitiate http_error
  | EQR
  | EToken http_error
  | ESession session_error
  | EPairMAC pair_error
  | EKeyExchange pair_error
  | EDirs
  | ESaveDevice device_error

datatype pair_outcome = Cancelled | Paired string

text \<open>What the command did besides files, secrets and requests.\<close>

datatype effect = Stopped | Restarted | ShowedCode string | Adding PairedDevice | OldSecretKept

record 's host =
  pubf :: "(bytes \<times> nat) option"
  confdir :: files
  secs :: 's
  reqs :: "request list"
  effects :: "effect list"
  sess :: "session option"

record penv =
  he :: httpenv
  pcd :: pcodec
  dcd :: dcodec
  kxs :: kx
  pkio :: kio
  parse6 :: "string \<Rightarrow> nat list option"
  serverURL :: string
  apiBaseURL :: string
  hostName :: string
  hmacSecret :: string
  answer :: string
  x25519 :: "bytes option"
  secretRandom :: "bytes option"
  qrOK :: bool
  dial :: "(net_error \<times> (nat \<times> bytes) option) + unit"
  authWriteOK :: bool
  authFrames :: "bytes list"
  waitFrames :: "bytes list"
  waitTimedOut :: bool
  dirsOK :: bool
  acceptWriteOK :: bool
  acceptFrames :: "bytes list"
  closeWriteOK :: bool
  loadIO :: dio
  addIO :: dio
  removeIO :: dio
  nowTime :: int

definition on_keys :: "('s keys \<Rightarrow> 'r \<times> 's keys) \<Rightarrow> 's host \<Rightarrow> 'r \<times> 's host" where
  "on_keys f w = (case f \<lparr>pubFile = pubf w, kstore = secs w\<rparr> of
      (r, k) \<Rightarrow> (r, w\<lparr>pubf := pubFile k, secs := kstore k\<rparr>))"

definition on_devs :: "('s devs \<Rightarrow> 'r \<times> 's devs) \<Rightarrow> 's host \<Rightarrow> 'r \<times> 's host" where
  "on_devs f w = (case f \<lparr>cdir = confdir w, sec = secs w\<rparr> of
      (r, d) \<Rightarrow> (r, w\<lparr>confdir := cdir d, secs := sec d\<rparr>))"

definition on_http :: "(request list \<Rightarrow> 'r \<times> request list) \<Rightarrow> 's host \<Rightarrow> 'r \<times> 's host" where
  "on_http f w = (case f (reqs w) of (r, l) \<Rightarrow> (r, w\<lparr>reqs := l\<rparr>))"

definition note_effect :: "effect \<Rightarrow> 's host \<Rightarrow> 's host" where
  "note_effect x w = w\<lparr>effects := effects w @ [x]\<rparr>"

definition is_yes :: "string \<Rightarrow> bool" where
  "is_yes a \<longleftrightarrow> (let t = trim_space (to_lower a) in t = ''y'' \<or> t = ''yes'')"

text \<open>The new device is stored and the secret of the one it replaces is deleted.\<close>

definition new_device :: "penv \<Rightarrow> PairCompleteMessage \<Rightarrow> string \<Rightarrow> PairedDevice" where
  "new_device e pc shared =
     \<lparr>pd_id = pc_mobile pc, pd_name = TruncateMobileName (pc_name pc), pd_secret = shared,
      pd_pairedAt = nowTime e, pd_lastSeen = 0\<rparr>"

definition drop_old_secret :: "'s store \<Rightarrow> PairedDevice option \<Rightarrow> string \<Rightarrow> 's host \<Rightarrow> 's host" where
  "drop_old_secret st old mobile w = (case old of
      None \<Rightarrow> w
    | Some o' \<Rightarrow>
       if pd_id o' = mobile then w
       else (case sdel st (SharedSecretKey (pd_id o')) (secs w) of
               (Inl _, s1) \<Rightarrow> note_effect OldSecretKept (w\<lparr>secs := s1\<rparr>)
             | (Inr _, s1) \<Rightarrow> w\<lparr>secs := s1\<rparr>))"

definition pair_store ::
  "penv \<Rightarrow> 's store \<Rightarrow> PairedDevice option \<Rightarrow> PairCompleteMessage \<Rightarrow> string \<Rightarrow> 's host \<Rightarrow> (run_error + pair_outcome) \<times> 's host" where
  "pair_store e st old pc shared w =
     (let d = new_device e pc shared in
      case on_devs (AddPairedDevice (dcd e) st (addIO e) d) (note_effect (Adding d) w) of
        (Inl x, w1) \<Rightarrow> (Inl (ESaveDevice x), w1)
      | (Inr _, w1) \<Rightarrow> (Inr (Paired (pd_id d)), drop_old_secret st old (pc_mobile pc) w1))"

text \<open>From the wait for the mobile to the end, with the session threaded. The result says which
  \<open>pair_complete\<close> was received, for the deferred clean-up.\<close>

definition pair_wait ::
  "penv \<Rightarrow> 's store \<Rightarrow> Identity \<Rightarrow> PairedDevice option \<Rightarrow> bytes \<Rightarrow> string \<Rightarrow> bool \<Rightarrow> session \<Rightarrow> 's host \<Rightarrow>
   ((run_error + pair_outcome) \<times> PairCompleteMessage option) \<times> session \<times> 's host" where
  "pair_wait e st ident old priv secret confirmed s w =
     (case WaitForPairComplete (pcd e) (waitFrames e) (waitTimedOut e) s of
        (Inl (x, pc), s1) \<Rightarrow> ((Inl (ESession x), pc), s1, w)
      | (Inr pc, s1) \<Rightarrow>
         (case VerifyPairMAC secret (pc_key pc) (pc_mobile pc) (pc_mac pc) of
            Inl x \<Rightarrow> ((Inl (EPairMAC x), Some pc), s1, w)
          | Inr _ \<Rightarrow>
             (case ComputeSharedSecret (kxs e) priv (pc_key pc) secret (DeviceID ident) (pc_mobile pc) of
                Inl x \<Rightarrow> ((Inl (EKeyExchange x), Some pc), s1, w)
              | Inr shared \<Rightarrow>
                 if \<not> dirsOK e then ((Inl EDirs, Some pc), s1, w)
                 else if confirmed then
                   (case Accept (pcd e) (prn (he e)) (acceptWriteOK e) (acceptFrames e) s1 of
                      (Inl x, s2) \<Rightarrow> ((Inl (ESession x), Some pc), s2, w)
                    | (Inr _, s2) \<Rightarrow> (case pair_store e st old pc shared w of (r, w1) \<Rightarrow> ((r, Some pc), s2, w1)))
                 else (case pair_store e st old pc shared w of (r, w1) \<Rightarrow> ((r, Some pc), s1, w1)))))"

text \<open>The deferred clean-up after a server that committed the pairing before the host could verify it.\<close>

definition legacy_cleanup ::
  "penv \<Rightarrow> 's store \<Rightarrow> Identity \<Rightarrow> PairedDevice option \<Rightarrow> bool \<Rightarrow> PairCompleteMessage option \<Rightarrow> bool \<Rightarrow> 's host \<Rightarrow> 's host" where
  "legacy_cleanup e st ident old confirmed pc saved w = (case pc of
      None \<Rightarrow> w
    | Some m \<Rightarrow>
       if confirmed then w
       else
         let w1 = (if \<not> saved then snd (on_http (DeletePairing (he e) ident (apiBaseURL e) (hmacSecret e)) w) else w)
         in case old of
              None \<Rightarrow> w1
            | Some o' \<Rightarrow>
               if saved \<and> pd_id o' = pc_mobile m then w1
               else if \<not> saved then snd (on_devs (RemovePairedDevice (dcd e) st (removeIO e) (pd_id o')) w1)
               else w1)"

text \<open>With the agent stopped: token, session, wait; then the deferred clean-up and \<open>Close\<close>.\<close>

definition pair_online ::
  "penv \<Rightarrow> 's store \<Rightarrow> Identity \<Rightarrow> PairedDevice option \<Rightarrow> bytes \<Rightarrow> string \<Rightarrow> string \<Rightarrow> bool \<Rightarrow> 's host \<Rightarrow> (run_error + pair_outcome) \<times> 's host" where
  "pair_online e st ident old priv secret code confirmed w =
     (case on_http (ExchangeToken (he e) ident (apiBaseURL e) (hmacSecret e)) w of
        (Inl x, w1) \<Rightarrow> (Inl (EToken x), w1)
      | (Inr jwt, w1) \<Rightarrow>
         (case DialPairSession (he e) (pcd e) (apiBaseURL e) confirmed (dial e) (authWriteOK e) (authFrames e) of
            Inl x \<Rightarrow> (Inl (ESession x), w1)
          | Inr s \<Rightarrow>
             (let w2 = note_effect (ShowedCode (FormatManualCode code secret)) w1 in
              case pair_wait e st ident old priv secret confirmed s w2 of
                ((r, pc), s1, w3) \<Rightarrow>
                  (let w4 = legacy_cleanup e st ident old confirmed pc (isOK r) w3 in
                   case Session_Close (closeWriteOK e) s1 of (_, s2) \<Rightarrow> (r, w4\<lparr>sess := Some s2\<rparr>)))))"

definition pair_start ::
  "penv \<Rightarrow> 's store \<Rightarrow> Identity \<Rightarrow> PairedDevice option \<Rightarrow> 's host \<Rightarrow> (run_error + pair_outcome) \<times> 's host" where
  "pair_start e st ident old w = (case x25519 e of
      None \<Rightarrow> (Inl EKeypair, w)
    | Some priv \<Rightarrow>
       (case GeneratePairingSecret (secretRandom e) of
          None \<Rightarrow> (Inl EPairSecret, w)
        | Some secret \<Rightarrow>
           (case on_http (InitiatePairing (he e) ident (PublicKeyBase64 (kxs e) priv) (apiBaseURL e) (hostName e) (hmacSecret e)) w of
              (Inl x, w1) \<Rightarrow> (Inl (EInitiate x), w1)
            | (Inr (code, confirmed), w1) \<Rightarrow>
               if \<not> qrOK e then (Inl EQR, w1)
               else (case pair_online e st ident old priv secret code confirmed (note_effect Stopped w1) of
                       (r, w2) \<Rightarrow> (r, note_effect Restarted w2)))))"

definition RunPair :: "penv \<Rightarrow> 's store \<Rightarrow> 's host \<Rightarrow> (run_error + pair_outcome) \<times> 's host" where
  "RunPair e st w = (case on_keys (HasIdentity st (pkio e)) w of
      (has, w1) \<Rightarrow>
        if \<not> has then (Inl ENoIdent, w1)
        else (case on_keys (LoadIdentity st (pkio e)) w1 of
                (Inl x, w2) \<Rightarrow> (Inl (ELoadIdent x), w2)
              | (Inr ident, w2) \<Rightarrow>
                 (case checkServerTransport (rs (he e)) (parse6 e) (serverURL e) of
                    Inl x \<Rightarrow> (Inl (ETransport x), w2)
                  | Inr _ \<Rightarrow>
                     (case on_devs (LoadPairedDevice (dcd e) st (loadIO e)) w2 of
                        (Inl x, w3) \<Rightarrow> (Inl (ELoadDevices x), w3)
                      | (Inr old, w3) \<Rightarrow>
                         if old \<noteq> None \<and> \<not> is_yes (answer e) then (Inr Cancelled, w3)
                         else pair_start e st ident old w3))))"

text \<open>\<open>RunUnpair\<close>: the answer read from the terminal, if any; whether the agent could load its identity.
  Telling the server is best effort.\<close>

definition RunUnpair :: "penv \<Rightarrow> 's store \<Rightarrow> string option \<Rightarrow> 's host \<Rightarrow> (run_error + bool) \<times> 's host" where
  "RunUnpair e st response w = (case on_devs (LoadPairedDevice (dcd e) st (loadIO e)) w of
      (Inl x, w1) \<Rightarrow> (Inl (ELoadDevices x), w1)
    | (Inr None, w1) \<Rightarrow> (Inr False, w1)
    | (Inr (Some d), w1) \<Rightarrow>
       (case response of
          None \<Rightarrow> (Inr False, w1)
        | Some r \<Rightarrow>
           if to_lower r \<noteq> ''y'' then (Inr False, w1)
           else
             let w2 = (case on_keys (LoadIdentity st (pkio e)) w1 of
                         (Inl _, w2) \<Rightarrow> w2
                       | (Inr ident, w2) \<Rightarrow> snd (on_http (DeletePairing (he e) ident (apiBaseURL e) (hmacSecret e)) w2))
             in case on_devs (RemovePairedDevice (dcd e) st (removeIO e) (pd_id d)) w2 of
                  (Inl x, w3) \<Rightarrow> (Inl (ESaveDevice x), w3)
                | (Inr _, w3) \<Rightarrow> (Inr True, w3)))"

section \<open>Lemmas on the session\<close>

lemma auth_loop_frame:
  "auth_loop c p ds s = (r, s1) \<Longrightarrow>
   confirm s1 = confirm s \<and> waited s1 = waited s \<and> decided s1 = decided s \<and> answers s1 = answers s \<and> sclosed s1 = sclosed s"
proof (induction ds arbitrary: s)
  case (Cons d ds)
  have "auth_loop c p (d # ds) s = auth_loop c p ds s \<or>
    (\<exists>pc. auth_loop c p (d # ds) s = auth_loop c p ds (s\<lparr>received := Some pc\<rparr>)) \<or>
    (\<exists>x. auth_loop c p (d # ds) s = (x, s))"
    by (simp split: option.splits prod.splits) blast
  then show ?case
  proof (elim disjE exE)
    fix pc assume "auth_loop c p (d # ds) s = auth_loop c p ds (s\<lparr>received := Some pc\<rparr>)"
    then show ?thesis using Cons.IH [of "s\<lparr>received := Some pc\<rparr>"] Cons.prems by simp
  qed (use Cons in simp_all)
qed simp

lemma DialPairSession_fresh:
  "DialPairSession e c u conf dl ok fs = Inr s \<Longrightarrow>
   confirm s = conf \<and> \<not> waited s \<and> \<not> decided s \<and> answers s = []"
  by (auto simp: DialPairSession_def authenticate_def new_session_def split: sum.splits prod.splits option.splits if_splits
      dest: auth_loop_frame)

text \<open>The first wait: the outcome tells the message that was received, a returned message has a valid
  device ID, nothing is answered yet, and the branch for a missing message is never taken.\<close>

lemma WaitForPairComplete_first:
  assumes "WaitForPairComplete c fs t s = (r, s1)" "\<not> waited s"
  shows "confirm s1 = confirm s \<and> decided s1 = decided s \<and> answers s1 = answers s \<and>
    (case r of Inl (x, pc) \<Rightarrow> received s1 = pc \<and> x \<noteq> ENoComplete
     | Inr pc \<Rightarrow> received s1 = Some pc \<and> isOK (ValidateDeviceID (pc_mobile pc)))"
proof (cases "received s")
  case None
  then show ?thesis using assms
    by (auto simp: WaitForPairComplete_def readPairComplete_def Let_def isOK_iff
        split: if_splits option.splits sum.splits prod.splits)
next
  case (Some pc)
  then show ?thesis using assms
    by (auto simp: WaitForPairComplete_def Let_def isOK_iff split: sum.splits)
qed

lemma Accept_held:
  assumes "Accept c p ok fs s = (r, s1)" "confirm s" "received s = Some pc"
  shows "s1 = s\<lparr>decided := True, answers := answers s @ [(PairAccept, pc_mobile pc, ok)]\<rparr> \<and>
    (isOK r \<longrightarrow> ok \<and> result_loop c p (pc_mobile pc) fs = Inr ())"
  using assms by (auto simp: Accept_def checkDecidable_def sendDecision_def isOK_iff split: if_splits)

lemma Session_Close_answers:
  assumes "Session_Close ok s = (r, s1)"
  shows "sclosed s1 \<and> confirm s1 = confirm s \<and> received s1 = received s \<and>
    answers s1 = (case received s of
      Some pc \<Rightarrow> if confirm s \<and> \<not> decided s then answers s @ [(PairReject, pc_mobile pc, ok)] else answers s
    | None \<Rightarrow> answers s)"
  using assms by (auto simp: Session_Close_def Reject_def checkDecidable_def sendDecision_def Let_def split: if_splits option.splits)

section \<open>Lemmas on the command\<close>

lemma note_effect_simps [simp]:
  "pubf (note_effect x w) = pubf w" "confdir (note_effect x w) = confdir w" "secs (note_effect x w) = secs w"
  "reqs (note_effect x w) = reqs w" "effects (note_effect x w) = effects w @ [x]" "sess (note_effect x w) = sess w"
  by (simp_all add: note_effect_def)

lemma on_keys_frame:
  "on_keys f w = (r, w1) \<Longrightarrow> confdir w1 = confdir w \<and> reqs w1 = reqs w \<and> effects w1 = effects w \<and> sess w1 = sess w"
  by (auto simp: on_keys_def split: prod.splits)

lemma on_devs_frame:
  "on_devs f w = (r, w1) \<Longrightarrow> pubf w1 = pubf w \<and> reqs w1 = reqs w \<and> effects w1 = effects w \<and> sess w1 = sess w"
  by (auto simp: on_devs_def split: prod.splits)

lemma on_http_frame:
  "on_http f w = (r, w1) \<Longrightarrow>
   pubf w1 = pubf w \<and> confdir w1 = confdir w \<and> secs w1 = secs w \<and> effects w1 = effects w \<and> sess w1 = sess w"
  by (auto simp: on_http_def split: prod.splits)

lemma on_devs_apply:
  "on_devs f w = (r, w1) \<Longrightarrow> f \<lparr>cdir = confdir w, sec = secs w\<rparr> = (r, \<lparr>cdir = confdir w1, sec = secs w1\<rparr>)"
  by (auto simp: on_devs_def split: prod.splits)

lemma on_keys_apply:
  "on_keys f w = (r, w1) \<Longrightarrow> f \<lparr>pubFile = pubf w, kstore = secs w\<rparr> = (r, \<lparr>pubFile = pubf w1, kstore = secs w1\<rparr>)"
  by (auto simp: on_keys_def split: prod.splits)

lemma drop_old_secret_frame:
  "confdir (drop_old_secret st old m w) = confdir w \<and> sess (drop_old_secret st old m w) = sess w \<and>
   (effects (drop_old_secret st old m w) = effects w \<or> effects (drop_old_secret st old m w) = effects w @ [OldSecretKept])"
  by (auto simp: drop_old_secret_def split: option.splits sum.splits prod.splits)

lemma pair_store_effects:
  assumes "pair_store e st old pc shared w = (r, w1)"
  shows "sess w1 = sess w \<and> (\<exists>k. effects w1 = effects w @ Adding (new_device e pc shared) # k \<and> set k \<subseteq> {OldSecretKept})"
proof -
  obtain q w2 where q: "on_devs (AddPairedDevice (dcd e) st (addIO e) (new_device e pc shared))
      (note_effect (Adding (new_device e pc shared)) w) = (q, w2)" by fastforce
  have f: "effects w2 = effects w @ [Adding (new_device e pc shared)]" "sess w2 = sess w"
    using on_devs_frame [OF q] by auto
  show ?thesis
  proof (cases q)
    case (Inl x)
    then have "w1 = w2" using assms q by (simp add: pair_store_def Let_def)
    with f show ?thesis by simp
  next
    case (Inr u)
    then have "w1 = drop_old_secret st old (pc_mobile pc) w2" using assms q by (simp add: pair_store_def Let_def)
    with f drop_old_secret_frame [of st old "pc_mobile pc" w2] show ?thesis by auto
  qed
qed

text \<open>The two ways the wait ends: without storing anything, or with the attempt to store a device that
  proved the secret (and, if the pairing is held, that the server confirmed).\<close>

lemma pair_wait_cases:
  assumes "pair_wait e st ident old priv secret confirmed s w = ((r, pc), s1, w1)"
    "confirm s = confirmed" "\<not> waited s" "\<not> decided s" "answers s = []"
  obtains "w1 = w" "\<not> isOK r" "received s1 = pc" "confirm s1 = confirmed" "\<not> decided s1" "answers s1 = []"
  | m ok where "w1 = w" "\<not> isOK r" "pc = Some m" "received s1 = pc" "confirm s1" "confirmed" "decided s1"
      "answers s1 = [(PairAccept, pc_mobile m, ok)]"
  | m shared where "pair_store e st old m shared w = (r, w1)" "pc = Some m" "received s1 = pc" "confirm s1 = confirmed"
      "isOK (VerifyPairMAC secret (pc_key m) (pc_mobile m) (pc_mac m))"
      "ComputeSharedSecret (kxs e) priv (pc_key m) secret (DeviceID ident) (pc_mobile m) = Inr shared"
      "decided s1 = confirmed" "answers s1 = (if confirmed then [(PairAccept, pc_mobile m, True)] else [])"
      "confirmed \<longrightarrow> result_loop (pcd e) (prn (he e)) (pc_mobile m) (acceptFrames e) = Inr ()"
proof -
  obtain q s' where q: "WaitForPairComplete (pcd e) (waitFrames e) (waitTimedOut e) s = (q, s')" by fastforce
  note f = WaitForPairComplete_first [OF q assms(3)]
  show thesis
  proof (cases q)
    case (Inl y)
    then show thesis using assms q f that(1) by (cases y) (auto simp: pair_wait_def)
  next
    case (Inr m)
    show thesis
    proof (cases "isOK (VerifyPairMAC secret (pc_key m) (pc_mobile m) (pc_mac m)) \<and> dirsOK e \<and>
        isOK (ComputeSharedSecret (kxs e) priv (pc_key m) secret (DeviceID ident) (pc_mobile m))")
      case False
      then show thesis using assms q f Inr that(1)
        by (auto simp: pair_wait_def isOK_iff split: sum.splits if_splits)
    next
      case True
      then obtain shared where sh: "VerifyPairMAC secret (pc_key m) (pc_mobile m) (pc_mac m) = Inr ()"
        "ComputeSharedSecret (kxs e) priv (pc_key m) secret (DeviceID ident) (pc_mobile m) = Inr shared" "dirsOK e"
        by (auto simp: isOK_iff)
      obtain a s2 where a: "Accept (pcd e) (prn (he e)) (acceptWriteOK e) (acceptFrames e) s' = (a, s2)" by fastforce
      obtain r2 w2 where ps: "pair_store e st old m shared w = (r2, w2)" by fastforce
      show thesis
      proof (cases confirmed)
        case False
        then show thesis using assms q f Inr sh ps that(3) by (auto simp: pair_wait_def)
      next
        case c: True
        have ac: "s2 = s'\<lparr>decided := True, answers := [(PairAccept, pc_mobile m, acceptWriteOK e)]\<rparr>"
          "isOK a \<longrightarrow> acceptWriteOK e \<and> result_loop (pcd e) (prn (he e)) (pc_mobile m) (acceptFrames e) = Inr ()"
          using Accept_held [OF a, of m] f Inr assms(2,5) c by auto
        show thesis
        proof (cases a)
          case (Inl x)
          then show thesis using assms q f Inr sh a ac c that(2) by (auto simp: pair_wait_def)
        next
          case (Inr u)
          then show thesis using assms q f \<open>q = Inr m\<close> sh a ac c ps that(3) by (auto simp: pair_wait_def)
        qed
      qed
    qed
  qed
qed

lemma legacy_cleanup_frame:
  "effects (legacy_cleanup e st ident old c pc ok w) = effects w \<and> sess (legacy_cleanup e st ident old c pc ok w) = sess w"
proof -
  have d: "effects (snd (on_devs f x)) = effects x" "sess (snd (on_devs f x)) = sess x" for f :: "'a devs \<Rightarrow> (device_error + unit) \<times> 'a devs" and x
    using on_devs_frame [of f x] by (metis prod.collapse)+
  have h: "effects (snd (on_http f x)) = effects x" "sess (snd (on_http f x)) = sess x" for f :: "request list \<Rightarrow> (http_error + unit) \<times> request list" and x :: "'a host"
    using on_http_frame [of f x] by (metis prod.collapse)+
  show ?thesis by (simp add: legacy_cleanup_def Let_def d h split: option.splits)
qed

lemma legacy_cleanup_none: "c \<or> pc = None \<Longrightarrow> legacy_cleanup e st ident old c pc ok w = w"
  by (auto simp: legacy_cleanup_def split: option.splits)

lemma legacy_cleanup_stored: "legacy_cleanup e st ident old c pc True w = w"
  by (auto simp: legacy_cleanup_def Let_def split: option.splits)

lemma pair_online_cases:
  assumes "pair_online e st ident old priv secret code confirmed w = (r, w1)"
  obtains "effects w1 = effects w" "sess w1 = sess w" "confdir w1 = confdir w" "secs w1 = secs w" "\<not> isOK r"
  | s0 s1 s2 pc q w2 w3 where "confdir w2 = confdir w" "secs w2 = secs w" "sess w2 = sess w"
      "effects w2 = effects w @ [ShowedCode (FormatManualCode code secret)]"
      "pair_wait e st ident old priv secret confirmed s0 w2 = ((r, pc), s1, w3)"
      "confirm s0 = confirmed" "\<not> waited s0" "\<not> decided s0" "answers s0 = []"
      "Session_Close (closeWriteOK e) s1 = (q, s2)"
      "w1 = (legacy_cleanup e st ident old confirmed pc (isOK r) w3)\<lparr>sess := Some s2\<rparr>"
proof -
  obtain t wt where t: "on_http (ExchangeToken (he e) ident (apiBaseURL e) (hmacSecret e)) w = (t, wt)" by fastforce
  note ft = on_http_frame [OF t]
  show thesis
  proof (cases t)
    case (Inl x)
    then show thesis using assms t ft that(1) by (auto simp: pair_online_def)
  next
    case jwt: (Inr jwt)
    show thesis
    proof (cases "DialPairSession (he e) (pcd e) (apiBaseURL e) confirmed (dial e) (authWriteOK e) (authFrames e)")
      case (Inl x)
      then show thesis using assms t jwt ft that(1) by (auto simp: pair_online_def)
    next
      case (Inr s0)
      let ?w2 = "note_effect (ShowedCode (FormatManualCode code secret)) wt"
      obtain r0 pc s1 w3 where pw: "pair_wait e st ident old priv secret confirmed s0 ?w2 = ((r0, pc), s1, w3)"
        by (metis prod.collapse)
      obtain q s2 where c: "Session_Close (closeWriteOK e) s1 = (q, s2)" by fastforce
      have "r0 = r" "w1 = (legacy_cleanup e st ident old confirmed pc (isOK r) w3)\<lparr>sess := Some s2\<rparr>"
        using assms t jwt Inr pw c by (auto simp: pair_online_def Let_def)
      then show thesis
        using that(2) [of ?w2 s0 pc s1 w3 q s2] ft pw c DialPairSession_fresh [OF Inr] by simp
    qed
  qed
qed

text \<open>Reading the store.\<close>

definition gets :: "'s store \<Rightarrow> 's \<Rightarrow> 's \<Rightarrow> bool" where
  "gets st s t \<longleftrightarrow> (\<exists>k r. sget st k s = (r, t))"

lemma gets_step: "sget st k s = (r, t) \<Longrightarrow> (gets st)\<^sup>*\<^sup>* s t"
  by (rule r_into_rtranclp) (auto simp: gets_def)

lemma load_secrets_gets: "load_secrets st ds s = (r, t) \<Longrightarrow> (gets st)\<^sup>*\<^sup>* s t"
proof (induction ds arbitrary: s r)
  case (Cons d ds)
  obtain q s' where q: "sget st (SharedSecretKey (pd_id d)) s = (q, s')" by fastforce
  have "t = s' \<or> (\<exists>r2. load_secrets st ds s' = (r2, t))"
    using Cons.prems q by (auto split: sum.splits prod.splits if_splits)
  moreover have "gets st s s'" using q by (auto simp: gets_def)
  ultimately show ?case using Cons.IH by (metis converse_rtranclp_into_rtranclp rtranclp.rtrancl_refl)
qed auto

lemma LoadPairedDevice_gets:
  assumes "LoadPairedDevice c st io w = (r, t)"
  shows "(gets st)\<^sup>*\<^sup>* (sec w) (sec t) \<and> cdir t = cdir w"
proof -
  obtain q v where q: "LoadPairedDevices c st io w = (q, v)" by fastforce
  then have "v = t" using assms by (auto simp: LoadPairedDevice_def split: sum.splits)
  then show ?thesis
    using q by (auto simp: LoadPairedDevices_def split: option.splits if_splits prod.splits dest: load_secrets_gets)
qed

lemma HasIdentity_gets: "HasIdentity st io k = (r, t) \<Longrightarrow> (gets st)\<^sup>*\<^sup>* (kstore k) (kstore t)"
  by (auto simp: HasIdentity_def CheckIdentity_def split: if_splits prod.splits sum.splits intro: gets_step)

lemma LoadIdentity_gets: "LoadIdentity st io k = (r, t) \<Longrightarrow> (gets st)\<^sup>*\<^sup>* (kstore k) (kstore t)"
  by (auto simp: LoadIdentity_def Let_def split: if_splits prod.splits sum.splits option.splits bool.splits intro: gets_step)

text \<open>A run either stops before it touches anything, having only read, or stops the agent, goes online
  and restarts it.\<close>

lemma RunPair_cases:
  assumes "RunPair e st w = (r, w1)"
  obtains "effects w1 = effects w" "sess w1 = sess w" "confdir w1 = confdir w" "(gets st)\<^sup>*\<^sup>* (secs w) (secs w1)"
      "\<forall>i. r \<noteq> Inr (Paired i)"
  | ident old w2 w3 w4 priv secret code confirmed where
      "(gets st)\<^sup>*\<^sup>* (secs w) (secs w2)" "confdir w2 = confdir w" "effects w2 = effects w" "sess w2 = sess w"
      "on_devs (LoadPairedDevice (dcd e) st (loadIO e)) w2 = (Inr old, w3)"
      "(gets st)\<^sup>*\<^sup>* (secs w) (secs w4)" "confdir w4 = confdir w" "effects w4 = effects w" "sess w4 = sess w"
      "x25519 e = Some priv" "GeneratePairingSecret (secretRandom e) = Some secret"
      "\<exists>w5. pair_online e st ident old priv secret code confirmed (note_effect Stopped w4) = (r, w5) \<and>
         w1 = note_effect Restarted w5"
proof -
  obtain has wa where a: "on_keys (HasIdentity st (pkio e)) w = (has, wa)" by fastforce
  obtain idr wb where b: "on_keys (LoadIdentity st (pkio e)) wa = (idr, wb)" by fastforce
  obtain ld wc where c: "on_devs (LoadPairedDevice (dcd e) st (loadIO e)) wb = (ld, wc)" by fastforce
  note fa = on_keys_frame [OF a] and fb = on_keys_frame [OF b] and fc = on_devs_frame [OF c]
  have ga: "(gets st)\<^sup>*\<^sup>* (secs w) (secs wa)" using HasIdentity_gets [OF on_keys_apply [OF a]] by simp
  have gb: "(gets st)\<^sup>*\<^sup>* (secs w) (secs wb)"
    using rtranclp_trans [OF ga] LoadIdentity_gets [OF on_keys_apply [OF b]] by simp
  have gc: "(gets st)\<^sup>*\<^sup>* (secs w) (secs wc)" "confdir wc = confdir wb"
    using rtranclp_trans [OF gb] LoadPairedDevice_gets [OF on_devs_apply [OF c]] by simp_all
  show thesis
  proof (cases "has \<and> isOK idr \<and> isOK (checkServerTransport (rs (he e)) (parse6 e) (serverURL e)) \<and> isOK ld")
    case False
    have "(w1 = wa \<or> w1 = wb \<or> w1 = wc) \<and> (\<forall>i. r \<noteq> Inr (Paired i))"
      using assms a b c False
      by (cases has; cases idr; cases "checkServerTransport (rs (he e)) (parse6 e) (serverURL e)"; cases ld)
        (auto simp: RunPair_def)
    then show thesis using fa fb fc ga gb gc that(1) by auto
  next
    case True
    then obtain ident old where io: "idr = Inr ident" "ld = Inr old" by (auto simp: isOK_iff)
    then have run: "(if old \<noteq> None \<and> \<not> is_yes (answer e) then (Inr Cancelled, wc) else pair_start e st ident old wc) = (r, w1)"
      using assms a b c True by (auto simp: RunPair_def isOK_iff)
    show thesis
    proof (cases "old \<noteq> None \<and> \<not> is_yes (answer e)")
      case True
      then show thesis using run fa fb fc gc that(1) by auto
    next
      case False
      with run have start: "pair_start e st ident old wc = (r, w1)" by auto
      show thesis
      proof (cases "x25519 e = None \<or> GeneratePairingSecret (secretRandom e) = None")
        case True
        then show thesis using start fa fb fc gc that(1) by (auto simp: pair_start_def split: option.splits)
      next
        case False
        then obtain priv secret where ps: "x25519 e = Some priv" "GeneratePairingSecret (secretRandom e) = Some secret" by auto
        obtain ir wd where d: "on_http (InitiatePairing (he e) ident (PublicKeyBase64 (kxs e) priv) (apiBaseURL e)
            (hostName e) (hmacSecret e)) wc = (ir, wd)" by fastforce
        note fd = on_http_frame [OF d]
        show thesis
        proof (cases "isOK ir \<and> qrOK e")
          case False
          then show thesis using start ps d fd fa fb fc gc that(1)
            by (auto simp: pair_start_def isOK_iff split: sum.splits prod.splits)
        next
          case True
          then obtain code confirmed where ir: "ir = Inr (code, confirmed)" by (auto simp: isOK_iff)
          obtain r0 w5 where o: "pair_online e st ident old priv secret code confirmed (note_effect Stopped wd) = (r0, w5)"
            by fastforce
          have "r0 = r" "w1 = note_effect Restarted w5"
            using start ps d ir o True by (auto simp: pair_start_def)
          then show thesis
            using that(2) [of wb old wc wd priv secret ident code confirmed] gb fa fb fc gc fd c io ps o by auto
        qed
      qed
    qed
  qed
qed

definition new_effects :: "'s host \<Rightarrow> 's host \<Rightarrow> effect list" where
  "new_effects w w1 = drop (length (effects w)) (effects w1)"

text \<open>The online part of a run in one view: what was logged, what became of the session, and, unless a
  device was being stored, that files and secrets are untouched while the server holds the pairing.\<close>

lemma pair_online_view:
  assumes "pair_online e st ident old priv secret code confirmed w = (r, w1)"
  obtains "effects w1 = effects w" "sess w1 = sess w" "confdir w1 = confdir w" "secs w1 = secs w" "\<not> isOK r"
  | s dcs where "effects w1 = effects w @ [ShowedCode (FormatManualCode code secret)]" "sess w1 = Some s" "\<not> isOK r"
      "sclosed s" "confirm s = confirmed" "confirmed \<Longrightarrow> confdir w1 = confdir w \<and> secs w1 = secs w"
      "case received s of Some pc \<Rightarrow> if confirmed then \<exists>ok. answers s = [(dcs, pc_mobile pc, ok)] else answers s = []
       | None \<Rightarrow> answers s = []"
  | s m shared k w2 w3 where
      "effects w1 = effects w @ ShowedCode (FormatManualCode code secret) # Adding (new_device e m shared) # k"
      "set k \<subseteq> {OldSecretKept}" "sess w1 = Some s" "sclosed s" "confirm s = confirmed" "received s = Some m"
      "isOK (VerifyPairMAC secret (pc_key m) (pc_mobile m) (pc_mac m))"
      "ComputeSharedSecret (kxs e) priv (pc_key m) secret (DeviceID ident) (pc_mobile m) = Inr shared"
      "answers s = (if confirmed then [(PairAccept, pc_mobile m, True)] else [])"
      "confirmed \<longrightarrow> result_loop (pcd e) (prn (he e)) (pc_mobile m) (acceptFrames e) = Inr ()"
      "secs w2 = secs w" "confdir w2 = confdir w" "pair_store e st old m shared w2 = (r, w3)"
      "effects w3 = effects w2 @ Adding (new_device e m shared) # k"
      "isOK r \<Longrightarrow> secs w1 = secs w3 \<and> confdir w1 = confdir w3"
  using assms
proof (cases rule: pair_online_cases)
  case 1
  then show thesis using that(1) by blast
next
  case (2 s0 s1 s2 pc q w2 w3)
  note cl = Session_Close_answers [OF 2(10)] and lc = legacy_cleanup_frame [of e st ident old confirmed pc "isOK r" w3]
  from 2(5-9) show thesis
  proof (cases rule: pair_wait_cases)
    case 1
    show thesis by (rule that(2) [of s2 PairReject])
        (use 1 2 cl lc in \<open>auto simp: legacy_cleanup_none split: option.splits\<close>)
  next
    case (2 m ok)
    show thesis by (rule that(2) [of s2 PairAccept])
        (use 2 \<open>confdir w2 = confdir w\<close> \<open>secs w2 = secs w\<close> \<open>w1 = _\<close> \<open>effects w2 = _\<close> cl lc
          in \<open>auto simp: legacy_cleanup_none split: option.splits\<close>)
  next
    case (3 m shared)
    note ps = pair_store_effects [OF 3(1)]
    obtain k where k: "effects w3 = effects w2 @ Adding (new_device e m shared) # k" "set k \<subseteq> {OldSecretKept}"
      using ps by blast
    show thesis
      by (rule that(3) [of m shared k s2 w2 w3])
        (use 3 k cl lc \<open>confdir w2 = confdir w\<close> \<open>secs w2 = secs w\<close> \<open>w1 = _\<close> \<open>effects w2 = _\<close>
          in \<open>auto simp: legacy_cleanup_stored split: option.splits\<close>)
  qed
qed

lemma new_effects_append [simp]: "effects w1 = effects w @ xs \<Longrightarrow> new_effects w w1 = xs"
  by (simp add: new_effects_def)

context secret_store
begin

lemma gets_laws: "(gets st)\<^sup>*\<^sup>* s t \<Longrightarrow> ok s \<Longrightarrow> ok t \<and> secrets_of t = secrets_of s"
proof (induction rule: rtranclp_induct)
  case (step t u)
  then obtain k r where "sget st k t = (r, u)" by (auto simp: gets_def)
  with step get_state [of t k r u] show ?case by simp
qed simp

end

text \<open>The shared secret is never empty: HKDF yields 32 bytes.\<close>

definition hkdf_ok :: "kx \<Rightarrow> bool" where
  "hkdf_ok x \<longleftrightarrow> (\<forall>raw salt info. length (kx_hkdf x raw salt info) = 32)"

context secret_store
begin

text \<open>A successful run on a store that keeps its contract: exactly the new device is on disk.\<close>

lemma pair_store_done:
  assumes "ok (secs w)" "\<And>d. isOK (ValidateDeviceID d) \<Longrightarrow> keyok (SharedSecretKey d)" "codec_ok (dcd e)"
    "shared = b64_encode v" "v \<noteq> []" "pair_store e st old m shared w = (r, w1)" "isOK r"
    "OldSecretKept \<notin> set (drop (length (effects w)) (effects w1))"
  shows "r = Inr (Paired (pc_mobile m)) \<and> ok (secs w1) \<and>
    devices_of (dcd e) (secrets_of (secs w1)) (confdir w1) = Some [new_device e m shared] \<and>
    secrets_of (secs w1) (SharedSecretKey (pc_mobile m)) = Some v \<and>
    (\<forall>o'. old = Some o' \<and> pd_id o' \<noteq> pc_mobile m \<longrightarrow> secrets_of (secs w1) (SharedSecretKey (pd_id o')) = None)"
proof -
  let ?d = "new_device e m shared"
  have d: "pd_id ?d = pc_mobile m" "pd_secret ?d = b64_encode v" "utf8_valid (pd_name ?d)"
    using assms(4) by (simp_all add: new_device_def)
  obtain w2 where a: "on_devs (AddPairedDevice (dcd e) st (addIO e) ?d) (note_effect (Adding ?d) w) = (Inr (), w2)"
    and r: "r = Inr (Paired (pc_mobile m))" "w1 = drop_old_secret st old (pc_mobile m) w2"
    using assms(6,7) d(1) by (auto simp: pair_store_def Let_def split: sum.splits prod.splits)
  have okw: "ok (sec \<lparr>cdir = confdir (note_effect (Adding ?d) w), sec = secs (note_effect (Adding ?d) w)\<rparr>)"
    using assms(1) by simp
  have "ok (secs w2) \<and> secrets_of (secs w2) = (secrets_of (secs w))(SharedSecretKey (pc_mobile m) \<mapsto> v) \<and>
      isOK (ValidateDeviceID (pc_mobile m)) \<and> devices_of (dcd e) (secrets_of (secs w2)) (confdir w2) = Some [?d]"
    by (rule AddPairedDevice_laws [OF okw _ assms(3) d(3,2) assms(5) on_devs_apply [OF a],
          unfolded devs.simps note_effect_simps d(1)]) (rule assms(2))
  then have w2: "ok (secs w2)" "secrets_of (secs w2) = (secrets_of (secs w))(SharedSecretKey (pc_mobile m) \<mapsto> v)"
    "devices_of (dcd e) (secrets_of (secs w2)) (confdir w2) = Some [?d]" by blast+
  have e2: "effects w2 = effects w @ [Adding ?d]" using on_devs_frame [OF a] by simp
  show ?thesis
  proof (cases "\<exists>o'. old = Some o' \<and> pd_id o' \<noteq> pc_mobile m")
    case False
    then have "w1 = w2" using r(2) by (auto simp: drop_old_secret_def split: option.splits)
    with False w2 r(1) show ?thesis by auto
  next
    case True
    then obtain o' where o: "old = Some o'" "pd_id o' \<noteq> pc_mobile m" by blast
    obtain q s1 where q: "sdel st (SharedSecretKey (pd_id o')) (secs w2) = (q, s1)" by fastforce
    have "q = Inr ()"
      using assms(8) r(2) o q e2 by (cases q) (auto simp: drop_old_secret_def)
    with r(2) o q have w1: "w1 = w2\<lparr>secs := s1\<rparr>" by (simp add: drop_old_secret_def)
    have s1: "ok s1" "secrets_of s1 = (secrets_of (secs w2))(SharedSecretKey (pd_id o') := None)"
      using del_done [OF w2(1)] q \<open>q = Inr ()\<close> by auto
    have "devices_of (dcd e) (secrets_of s1) (confdir w2) = devices_of (dcd e) (secrets_of (secs w2)) (confdir w2)"
    proof -
      obtain data where data: "confdir w2 pairedDevicesFile = Some data" "map_option (map (with_secret (secrets_of (secs w2)))) (dunmarshal (dcd e) data) = Some [?d]"
        using w2(3) by (auto simp: devices_of_def split: option.splits)
      then obtain d0 where d0: "dunmarshal (dcd e) data = Some [d0]" "with_secret (secrets_of (secs w2)) d0 = ?d" by auto
      then have "pd_id d0 = pc_mobile m" using d(1) by (metis with_secret_simps(1))
      then have "with_secret (secrets_of s1) d0 = with_secret (secrets_of (secs w2)) d0"
        using s1(2) o(2) by (simp add: with_secret_def)
      then show ?thesis using data(1) d0 by (simp add: devices_of_def)
    qed
    then show ?thesis using w1 s1 w2 o r(1) by auto
  qed
qed

end

section \<open>Properties\<close>

text \<open>Property C13. A device is stored only if it proved that it read this run's code: whenever \<open>RunPair\<close>
  calls \<open>AddPairedDevice\<close>, whatever the server delivered, the device is the sender of the
  \<open>pair_complete\<close> the session received, its MAC verified under the freshly generated pairing
  secret, the stored secret is the one derived from its key and both device IDs, and, when the
  server holds the pairing for confirmation, the acceptance was sent and the server confirmed it.\<close>

theorem pairing_needs_proof:
  assumes "RunPair e st w = (r, w1)" and "Adding d \<in> set (new_effects w w1)"
  shows "\<exists>secret priv (ident :: Identity) (pc :: PairCompleteMessage) (s :: session). GeneratePairingSecret (secretRandom e) = Some secret \<and> x25519 e = Some priv \<and>
    sess w1 = Some s \<and> received s = Some pc \<and> pd_id d = pc_mobile pc \<and>
    isOK (VerifyPairMAC secret (pc_key pc) (pc_mobile pc) (pc_mac pc)) \<and>
    ComputeSharedSecret (kxs e) priv (pc_key pc) secret (DeviceID ident) (pc_mobile pc) = Inr (pd_secret d) \<and>
    (confirm s \<longrightarrow> answers s = [(PairAccept, pc_mobile pc, True)] \<and>
       result_loop (pcd e) (prn (he e)) (pc_mobile pc) (acceptFrames e) = Inr ())"
  using assms(1)
proof (cases rule: RunPair_cases)
  case 1
  then show ?thesis using assms(2) by (simp add: new_effects_def)
next
  case (2 ident old w2 w3 w4 priv secret code confirmed)
  then obtain w5 where o: "pair_online e st ident old priv secret code confirmed (note_effect Stopped w4) = (r, w5)"
    "w1 = note_effect Restarted w5" by blast
  from o(1) show ?thesis
  proof (cases rule: pair_online_view)
    case (3 s m shared k w6 w7)
    then have "d = new_device e m shared"
      using assms(2) o(2) 2(8) by (auto simp: new_effects_def)
    then have "pd_id d = pc_mobile m" "pd_secret d = shared" by (simp_all add: new_device_def)
    then show ?thesis
      using 2(10,11) 3 o(2)
      by - (rule exI [of _ secret], rule exI [of _ priv], rule exI [of _ ident], rule exI [of _ m], rule exI [of _ s], auto)
  qed (use assms(2) o(2) 2(8) in \<open>auto simp: new_effects_def\<close>)
qed



text \<open>The agent never stays down: what a run logs is either nothing, or begins with stopping
  the agent and ends with restarting it, each exactly once, on every path, errors included.\<close>

theorem agent_restarted:
  "let w1 = snd (RunPair e st w) in
     new_effects w w1 = [] \<or>
     (\<exists>mid. new_effects w w1 = Stopped # mid @ [Restarted] \<and> Stopped \<notin> set mid \<and> Restarted \<notin> set mid)"
proof -
  obtain r w1 where run: "RunPair e st w = (r, w1)" by fastforce
  then have "new_effects w w1 = [] \<or>
     (\<exists>mid. new_effects w w1 = Stopped # mid @ [Restarted] \<and> Stopped \<notin> set mid \<and> Restarted \<notin> set mid)"
  proof (cases rule: RunPair_cases)
    case 1
    then show ?thesis by (simp add: new_effects_def)
  next
    case (2 ident old w2 w3 w4 priv secret code confirmed)
    then obtain w5 where o: "pair_online e st ident old priv secret code confirmed (note_effect Stopped w4) = (r, w5)"
      "w1 = note_effect Restarted w5" by blast
    from o(1) have "\<exists>mid. effects w5 = effects w4 @ Stopped # mid \<and> Stopped \<notin> set mid \<and> Restarted \<notin> set mid"
      by (cases rule: pair_online_view) auto
    then show ?thesis using o(2) 2(8) by (auto simp: new_effects_def)
  qed
  then show ?thesis using run by simp
qed


section \<open>Witnesses\<close>

text \<open>A host with an identity and no paired device, a server that holds pairings, and a mobile that read
  the code. \<open>fs\<close> are the frames delivered during the wait.\<close>

definition demo_sec :: fstore where
  "demo_sec = snd (File_Set toy toy_io SecretKeyEd25519Private demo_priv toy_fresh)"

definition demo_host :: "fstore host" where
  "demo_host = \<lparr>pubf = Some (demo_pub, keyFilePerms), confdir = Map.empty, secs = demo_sec, reqs = [], effects = [], sess = None\<rparr>"

definition demo_complete :: PairCompleteMessage where
  "demo_complete = \<lparr>pc_type = ''pair_complete'', pc_mobile = deriveDeviceID demo_pub, pc_key = b64_encode demo_pub,
     pc_name = ''phone'', pc_mac = b64_encode (hmac_sha256 ''AB'' (pairMACLabel @ demo_pub @ deriveDeviceID demo_pub))\<rparr>"

definition demo_pcodec :: pcodec where
  "demo_pcodec = \<lparr>as_auth = (\<lambda>_. Some (''auth'', '''')), as_complete = (\<lambda>_. Some demo_complete),
     as_result = (\<lambda>_. Some \<lparr>pr_type = ''pair_result'', pr_mobile = deriveDeviceID demo_pub, pr_ok = True, pr_error = ''''\<rparr>)\<rparr>"

definition demo_kx :: kx where
  "demo_kx = \<lparr>kx_public = (\<lambda>_. demo_pub), kx_ecdh = (\<lambda>_ _. Some []), kx_hkdf = (\<lambda>_ _ _. replicate 32 (CHR ''z''))\<rparr>"

definition demo_penv :: "bytes list \<Rightarrow> penv" where
  "demo_penv fs = \<lparr>he = demo_httpenv\<lparr>jinit := (\<lambda>_. Some (''ABC234'', True))\<rparr>, pcd = demo_pcodec, dcd = toy_codec, kxs = demo_kx,
     pkio = demo_kio, parse6 = (\<lambda>_. None), serverURL = ''https://h'', apiBaseURL = ''https://h'', hostName = ''host'',
     hmacSecret = '''', answer = '''', x25519 = Some demo_priv, secretRandom = Some [CHR 0x00, CHR 0x21], qrOK = True,
     dial = Inr (), authWriteOK = True, authFrames = [''a''], waitFrames = fs, waitTimedOut = False, dirsOK = True,
     acceptWriteOK = True, acceptFrames = [''r''], closeWriteOK = True, loadIO = toy_dio, addIO = toy_dio, removeIO = toy_dio,
     nowTime = 0\<rparr>"

lemma demo_sec_set: "File_Set toy toy_io SecretKeyEd25519Private demo_priv toy_fresh = (Inr (), demo_sec)"
  unfolding demo_sec_def using toy_fset(1) by (metis prod.collapse)

lemma demo_sec_consistent: "file_consistent toy demo_sec"
  using file_store_laws(3) [OF toy_works toy_fills(1) toy_consistent demo_sec_set] by (simp add: utf8_secret_key)

lemma demo_sec_loaded: "fs_loaded demo_sec" "fs_secrets demo_sec = [(SecretKeyEd25519Private, demo_priv)]"
  by (simp_all add: demo_sec_def File_Set_def toy_fresh_def NewFileSecretStore_def ensureLoaded_def flush_def
      encrypt_def toy_machine replace_file_def Let_def toy_io_def io_reads_def)

lemma demo_get: "sget (file_store toy toy_io) SecretKeyEd25519Private demo_sec = (Inr demo_priv, demo_sec)"
  by (simp add: file_store_def File_Get_def ensureLoaded_def demo_sec_loaded lookup_result_def)

lemma demo_challenge:
  "fetchChallenge (he (demo_penv fs)) (DeviceID demo_ident) ''https://h'' '''' log =
    (Inr (if log = [] then ''n'' else ''t''), log @ [demo_request\<lparr>rq_url := ''https://h/auth/challenge'', rq_body := ChallengeBody (DeviceID demo_ident)\<rparr>])"
  by (simp add: demo_penv_def demo_httpenv_def fetchChallenge_def do_request_def SignRequest_def server_url_def trim_right_def
      demo_request_def Let_def)

lemma demo_initiate:
  "\<exists>log. InitiatePairing (he (demo_penv fs)) demo_ident k ''https://h'' ''host'' '''' [] = (Inr (''ABC234'', True), log)"
proof -
  have "valid_pairing_code ''ABC234''" by code_simp
  moreover have "canonicalOrigin (rs (he (demo_penv fs))) ''https://h'' = Inr ''https://h''"
    using demo_origin by (simp add: demo_penv_def)
  ultimately show ?thesis
    by (simp add: InitiatePairing_def demo_challenge) (simp add: demo_penv_def demo_httpenv_def do_request_def Let_def)
qed

lemma demo_token:
  "\<exists>log2. ExchangeToken (he (demo_penv fs)) demo_ident ''https://h'' '''' log = (Inr ''t'', log2)" if "log \<noteq> []"
proof -
  have "canonicalOrigin (rs (he (demo_penv fs))) ''https://h'' = Inr ''https://h''"
    using demo_origin by (simp add: demo_penv_def)
  then show ?thesis
    using that by (simp add: ExchangeToken_def demo_challenge)
      (simp add: demo_penv_def demo_httpenv_def do_request_def token_reply_def Let_def)
qed

lemma demo_until_online:
  "\<exists>log. log \<noteq> [] \<and> RunPair (demo_penv fs) (file_store toy toy_io) demo_host =
     (case pair_online (demo_penv fs) (file_store toy toy_io) demo_ident None demo_priv ''AB'' ''ABC234'' True
        (note_effect Stopped (demo_host\<lparr>reqs := log\<rparr>)) of (r, w) \<Rightarrow> (r, note_effect Restarted w))"
proof -
  let ?st = "file_store toy toy_io"
  have l: "length demo_priv = PrivateKeySize" "length demo_pub = PublicKeySize"
    by (simp_all add: demo_priv_def demo_pub_def PrivateKeySize_def PublicKeySize_def)
  have has: "on_keys (HasIdentity ?st demo_kio) demo_host = (True, demo_host)"
    by (simp add: on_keys_def HasIdentity_def CheckIdentity_def demo_host_def demo_kio_def demo_get)
  have load: "on_keys (LoadIdentity ?st demo_kio) demo_host = (Inr demo_ident, demo_host)"
    using l by (simp add: on_keys_def LoadIdentity_def enforceKeyFilePerms_def demo_host_def demo_kio_def demo_get
        demo_ident_def Let_def)
  have transport: "checkServerTransport (rs (he (demo_penv fs))) (\<lambda>_. None) ''https://h'' = Inr ()"
    by (simp add: checkServerTransport_def demo_penv_def demo_httpenv_def)
  have devs: "on_devs (LoadPairedDevice toy_codec ?st toy_dio) demo_host = (Inr None, demo_host)"
    by (simp add: on_devs_def LoadPairedDevice_def LoadPairedDevices_def demo_host_def)
  have secret: "GeneratePairingSecret (Some [CHR 0x00, CHR 0x21]) = Some ''AB''" by code_simp
  obtain log where log: "InitiatePairing (he (demo_penv fs)) demo_ident (PublicKeyBase64 demo_kx demo_priv)
      ''https://h'' ''host'' '''' [] = (Inr (''ABC234'', True), log)"
    using demo_initiate by blast
  have "log \<noteq> []"
    using log by (auto simp: InitiatePairing_def demo_challenge do_request_def Let_def
        split: sum.splits option.splits prod.splits if_splits)
  moreover have "on_http (InitiatePairing (he (demo_penv fs)) demo_ident (PublicKeyBase64 demo_kx demo_priv)
      ''https://h'' ''host'' '''') demo_host = (Inr (''ABC234'', True), demo_host\<lparr>reqs := log\<rparr>)"
    using log by (simp add: on_http_def demo_host_def)
  ultimately show ?thesis
    using has load transport devs secret by (auto simp: RunPair_def pair_start_def demo_penv_def)
qed

lemma demo_online:
  assumes "log \<noteq> []"
  obtains log2 where "pair_online (demo_penv fs) (file_store toy toy_io) demo_ident None demo_priv ''AB'' ''ABC234'' True
      (note_effect Stopped (demo_host\<lparr>reqs := log\<rparr>)) =
    (case pair_wait (demo_penv fs) (file_store toy toy_io) demo_ident None demo_priv ''AB'' True (new_session True)
        (note_effect (ShowedCode (FormatManualCode ''ABC234'' ''AB'')) (note_effect Stopped (demo_host\<lparr>reqs := log2\<rparr>))) of
       ((r, pc), s1, w3) \<Rightarrow> (r, w3\<lparr>sess := Some (snd (Session_Close True s1))\<rparr>))"
proof -
  obtain log2 where log2: "ExchangeToken (he (demo_penv fs)) demo_ident ''https://h'' '''' log = (Inr ''t'', log2)"
    using demo_token [OF assms] by blast
  have h: "on_http (ExchangeToken (he (demo_penv fs)) demo_ident ''https://h'' '''') (note_effect Stopped (demo_host\<lparr>reqs := log\<rparr>)) =
      (Inr ''t'', note_effect Stopped (demo_host\<lparr>reqs := log2\<rparr>))"
    using log2 by (simp add: on_http_def note_effect_def demo_host_def)
  have "DialPairSession h' demo_pcodec u True (Inr ()) True [''a''] = Inr (new_session True)" for h' u
    by (simp add: DialPairSession_def authenticate_def demo_pcodec_def)
  then show thesis
    using h that [of log2]
    by (auto simp: pair_online_def demo_penv_def legacy_cleanup_none Let_def split: prod.splits)
qed

lemma demo_wait:
  "pair_wait (demo_penv [''c'']) (file_store toy toy_io) demo_ident None demo_priv ''AB'' True (new_session True) w =
     (case pair_store (demo_penv [''c'']) (file_store toy toy_io) None demo_complete (b64_encode (replicate 32 (CHR ''z''))) w of
        (r, w1) \<Rightarrow> ((r, Some demo_complete), \<lparr>confirm = True, received = Some demo_complete, waited = True, decided = True,
          answers = [(PairAccept, deriveDeviceID demo_pub, True)], sclosed = False\<rparr>, w1))"
proof -
  have l: "length demo_pub = 32" by (simp add: demo_pub_def)
  obtain u where v: "ValidateDeviceID (deriveDeviceID demo_pub) = Inr u" using deriveDeviceID_valid by (auto simp: isOK_iff)
  have m: "VerifyPairMAC ''AB'' (pc_key demo_complete) (pc_mobile demo_complete) (pc_mac demo_complete) = Inr ()"
  proof -
    have "isOK (VerifyPairMAC ''AB'' (pc_key demo_complete) (pc_mobile demo_complete) (pc_mac demo_complete))"
      using deriveDeviceID_valid l by (simp add: VerifyPairMAC_ok demo_complete_def b64_decode_encode)
    then show ?thesis by (auto simp: isOK_iff)
  qed
  have s: "ComputeSharedSecret demo_kx demo_priv (pc_key demo_complete) ''AB'' (DeviceID demo_ident) (pc_mobile demo_complete) =
      Inr (b64_encode (replicate 32 (CHR ''z'')))"
    using l deriveDeviceID_valid
    by (simp add: ComputeSharedSecret_Inr pairBind_Inr demo_kx_def demo_complete_def demo_ident_def b64_decode_encode)
  have wt: "WaitForPairComplete demo_pcodec [''c''] False (new_session True) =
      (Inr demo_complete, (new_session True)\<lparr>waited := True, received := Some demo_complete\<rparr>)"
    using v by (simp add: WaitForPairComplete_def readPairComplete_def demo_pcodec_def new_session_def Let_def demo_complete_def)
  show ?thesis
    using wt m s
    by (simp add: pair_wait_def demo_penv_def Accept_def checkDecidable_def sendDecision_def new_session_def)
      (simp add: demo_pcodec_def demo_complete_def)
qed

definition demo_secret :: string where "demo_secret = b64_encode (replicate 32 (CHR ''z''))"

definition demo_device :: PairedDevice where "demo_device = new_device (demo_penv [''c'']) demo_complete demo_secret"

lemma demo_store:
  assumes "secs w = demo_sec"
  obtains w1 where "pair_store (demo_penv [''c'']) (file_store toy toy_io) None demo_complete demo_secret w =
      (Inr (Paired (deriveDeviceID demo_pub)), w1)" "effects w1 = effects w @ [Adding demo_device]"
proof -
  have d: "pd_id demo_device = deriveDeviceID demo_pub" "pd_secret demo_device = demo_secret"
    by (simp_all add: demo_device_def new_device_def demo_complete_def)
  obtain u where v: "ValidateDeviceID (deriveDeviceID demo_pub) = Inr u" using deriveDeviceID_valid by (auto simp: isOK_iff)
  have n: "demo_secret \<noteq> []" "b64_decode demo_secret = Some (replicate 32 (CHR ''z''))"
    unfolding demo_secret_def using length_b64_encode [of "replicate 32 (CHR ''z'')"] b64_decode_encode by auto
  have "fst (File_Set toy toy_io k x demo_sec) = Inr ()" for k x
    by (simp add: File_Set_def ensureLoaded_def demo_sec_loaded flush_def encrypt_def toy_machine replace_file_def Let_def
        toy_io_def io_reads_def)
  then obtain s1 where s1: "File_Set toy toy_io (SharedSecretKey (deriveDeviceID demo_pub)) (replicate 32 (CHR ''z'')) demo_sec = (Inr (), s1)"
    by (metis prod.collapse)
  have add: "fst (AddPairedDevice toy_codec (file_store toy toy_io) toy_dio demo_device \<lparr>cdir = c, sec = demo_sec\<rparr>) = Inr ()" for c
    using v s1 d n toy_save by (simp add: AddPairedDevice_def file_store_def)
  have "fst (on_devs (AddPairedDevice toy_codec (file_store toy toy_io) toy_dio demo_device) (note_effect (Adding demo_device) w)) = Inr ()"
    using add [of "confdir w"] assms by (auto simp: on_devs_def split: prod.splits)
  then obtain w1 where w1: "on_devs (AddPairedDevice toy_codec (file_store toy toy_io) toy_dio demo_device) (note_effect (Adding demo_device) w) = (Inr (), w1)"
    by (metis prod.collapse)
  have "pair_store (demo_penv [''c'']) (file_store toy toy_io) None demo_complete demo_secret w = (Inr (Paired (deriveDeviceID demo_pub)), w1)"
    using w1 d by (simp add: pair_store_def Let_def demo_device_def [symmetric]) (simp add: demo_penv_def drop_old_secret_def)
  then show thesis using that on_devs_frame [OF w1] by simp
qed

lemma demo_paired:
  obtains w1 s where "RunPair (demo_penv [''c'']) (file_store toy toy_io) demo_host = (Inr (Paired (deriveDeviceID demo_pub)), w1)"
    "new_effects demo_host w1 = [Stopped, ShowedCode (FormatManualCode ''ABC234'' ''AB''), Adding demo_device, Restarted]"
    "sess w1 = Some s"
proof -
  obtain log where log: "log \<noteq> []" "RunPair (demo_penv [''c'']) (file_store toy toy_io) demo_host =
     (case pair_online (demo_penv [''c'']) (file_store toy toy_io) demo_ident None demo_priv ''AB'' ''ABC234'' True
        (note_effect Stopped (demo_host\<lparr>reqs := log\<rparr>)) of (r, w) \<Rightarrow> (r, note_effect Restarted w))"
    using demo_until_online by blast
  obtain log2 where on: "pair_online (demo_penv [''c'']) (file_store toy toy_io) demo_ident None demo_priv ''AB'' ''ABC234'' True
      (note_effect Stopped (demo_host\<lparr>reqs := log\<rparr>)) =
    (case pair_wait (demo_penv [''c'']) (file_store toy toy_io) demo_ident None demo_priv ''AB'' True (new_session True)
        (note_effect (ShowedCode (FormatManualCode ''ABC234'' ''AB'')) (note_effect Stopped (demo_host\<lparr>reqs := log2\<rparr>))) of
       ((r, pc), s1, w3) \<Rightarrow> (r, w3\<lparr>sess := Some (snd (Session_Close True s1))\<rparr>))"
    using demo_online [OF log(1)] by blast
  let ?w = "note_effect (ShowedCode (FormatManualCode ''ABC234'' ''AB'')) (note_effect Stopped (demo_host\<lparr>reqs := log2\<rparr>))"
  obtain w1 where w1: "pair_store (demo_penv [''c'']) (file_store toy toy_io) None demo_complete demo_secret ?w =
      (Inr (Paired (deriveDeviceID demo_pub)), w1)" "effects w1 = effects ?w @ [Adding demo_device]"
    using demo_store [of ?w] by (auto simp: demo_host_def)
  show thesis
    using log(2) on w1 that demo_wait [of ?w]
    by (auto simp: demo_secret_def [symmetric] new_effects_def demo_host_def)
qed

lemma demo_waits_forever:
  obtains r w1 s where "RunPair (demo_penv []) (file_store toy toy_io) demo_host = (r, w1)"
    "new_effects demo_host w1 = [Stopped, ShowedCode (FormatManualCode ''ABC234'' ''AB''), Restarted]"
    "sess w1 = Some s" "confirm s"
proof -
  obtain log where log: "log \<noteq> []" "RunPair (demo_penv []) (file_store toy toy_io) demo_host =
     (case pair_online (demo_penv []) (file_store toy toy_io) demo_ident None demo_priv ''AB'' ''ABC234'' True
        (note_effect Stopped (demo_host\<lparr>reqs := log\<rparr>)) of (r, w) \<Rightarrow> (r, note_effect Restarted w))"
    using demo_until_online by blast
  obtain log2 where on: "pair_online (demo_penv []) (file_store toy toy_io) demo_ident None demo_priv ''AB'' ''ABC234'' True
      (note_effect Stopped (demo_host\<lparr>reqs := log\<rparr>)) =
    (case pair_wait (demo_penv []) (file_store toy toy_io) demo_ident None demo_priv ''AB'' True (new_session True)
        (note_effect (ShowedCode (FormatManualCode ''ABC234'' ''AB'')) (note_effect Stopped (demo_host\<lparr>reqs := log2\<rparr>))) of
       ((r, pc), s1, w3) \<Rightarrow> (r, w3\<lparr>sess := Some (snd (Session_Close True s1))\<rparr>))"
    using demo_online [OF log(1)] by blast
  have "pair_wait (demo_penv []) (file_store toy toy_io) demo_ident None demo_priv ''AB'' True (new_session True) w =
      ((Inl (ESession EReadFrame), None), (new_session True)\<lparr>waited := True, received := None\<rparr>, w)" for w
    by (simp add: pair_wait_def WaitForPairComplete_def readPairComplete_def demo_penv_def new_session_def Let_def)
  with log(2) on show thesis
    using that by (auto simp: Session_Close_def new_session_def new_effects_def demo_host_def)
qed

theorem pairing_needs_proof_witness:
  "\<exists>w1 s pc. RunPair (demo_penv [''c'']) (file_store toy toy_io) demo_host = (Inr (Paired (deriveDeviceID demo_pub)), w1) \<and>
     sess w1 = Some s \<and> received s = Some pc \<and> pc_mobile pc = deriveDeviceID demo_pub \<and>
     isOK (VerifyPairMAC ''AB'' (pc_key pc) (pc_mobile pc) (pc_mac pc))"
proof -
  obtain w1 s where d: "RunPair (demo_penv [''c'']) (file_store toy toy_io) demo_host = (Inr (Paired (deriveDeviceID demo_pub)), w1)"
    "new_effects demo_host w1 = [Stopped, ShowedCode (FormatManualCode ''ABC234'' ''AB''), Adding demo_device, Restarted]"
    by (rule demo_paired)
  have "GeneratePairingSecret (secretRandom (demo_penv [''c''])) = Some ''AB''" by (simp add: demo_penv_def) code_simp
  moreover have "pd_id demo_device = deriveDeviceID demo_pub"
    by (simp add: demo_device_def new_device_def demo_complete_def)
  moreover have "Adding demo_device \<in> set (new_effects demo_host w1)" using d(2) by simp
  ultimately show ?thesis using pairing_needs_proof [OF d(1), of demo_device] d(1) by force
qed




end
