(* ===== verification/Go_Text.thy ===== *)
theory Go_Text
  imports Utf8
begin

text \<open>
  More of Go's standard library, executable: lexical paths (\<open>path/filepath\<close> on Unix),
  \<open>strings.Fields\<close> and \<open>strings.Replace\<close>, \<open>strconv.Quote\<close> (the verb \<open>%q\<close>) and
  \<open>time.ParseDuration\<close>. Durations are counted in nanoseconds, as \<open>int64\<close> values.
\<close>

section \<open>Paths\<close>

definition slash :: char where "slash = CHR ''/''"

definition IsAbs :: "string \<Rightarrow> bool" where
  "IsAbs p \<longleftrightarrow> has_prefix p [slash]"

text \<open>\<open>filepath.Clean\<close> goes through the elements from left to right: empty elements and \<open>.\<close> are
  dropped, \<open>..\<close> removes the element before it, is dropped at the root and kept at the front of a
  relative path. The elements kept so far are in reverse order.\<close>

fun clean_elems :: "bool \<Rightarrow> string list \<Rightarrow> string list \<Rightarrow> string list" where
  "clean_elems rooted acc [] = rev acc"
| "clean_elems rooted acc (e # es) =
     (if e = '''' \<or> e = ''.'' then clean_elems rooted acc es
      else if e = ''..'' then
        (case acc of
           [] \<Rightarrow> clean_elems rooted (if rooted then [] else [''..'']) es
         | a # as \<Rightarrow> clean_elems rooted (if a = ''..'' then ''..'' # acc else as) es)
      else clean_elems rooted (e # acc) es)"

definition Clean :: "string \<Rightarrow> string" where
  "Clean p =
     (let rooted = IsAbs p;
          body = join_with slash (clean_elems rooted [] (split_on slash p))
      in if rooted then slash # body else if body = '''' then ''.'' else body)"

text \<open>\<open>filepath.Join\<close> drops the empty elements in front; if nothing is left it is empty.\<close>

definition Join :: "string list \<Rightarrow> string" where
  "Join es = (case dropWhile (\<lambda>e. e = '''') es of [] \<Rightarrow> '''' | fs \<Rightarrow> Clean (join_with slash fs))"

definition Base :: "string \<Rightarrow> string" where
  "Base p =
     (if p = '''' then ''.''
      else let q = trim_right slash p;
               b = rev (takeWhile (\<lambda>c. c \<noteq> slash) (rev q))
           in if b = '''' then [slash] else b)"

definition Dir :: "string \<Rightarrow> string" where
  "Dir p = Clean (rev (dropWhile (\<lambda>c. c \<noteq> slash) (rev p)))"

section \<open>Strings\<close>

text \<open>\<open>strings.Fields\<close> cuts at runs of white space; a word ends where a white space rune begins.\<close>

fun fields_loop :: "nat \<Rightarrow> string \<Rightarrow> string \<Rightarrow> string list" where
  "fields_loop 0 cur s = (if cur = '''' then [] else [rev cur])"
| "fields_loop (Suc n) cur s =
     (case find (has_prefix s) space_runes of
        Some w \<Rightarrow> (if cur = '''' then [] else [rev cur]) @ fields_loop n '''' (drop (length w) s)
      | None \<Rightarrow> (case s of [] \<Rightarrow> (if cur = '''' then [] else [rev cur])
                 | c # cs \<Rightarrow> fields_loop n (c # cur) cs))"

definition Fields :: "string \<Rightarrow> string list" where
  "Fields s = fields_loop (Suc (length s)) '''' s"

text \<open>\<open>strings.Replace(s, old, new, 1)\<close> for a non-empty \<open>old\<close>.\<close>

fun replace_first :: "string \<Rightarrow> string \<Rightarrow> string \<Rightarrow> string" where
  "replace_first old new [] = []"
| "replace_first old new (c # cs) =
     (if has_prefix (c # cs) old then new @ drop (length old) (c # cs)
      else c # replace_first old new cs)"

section \<open>Quoted strings\<close>

text \<open>The code point of a well-formed encoding, and its hexadecimal form with a fixed width.\<close>

fun rune_value :: "bytes \<Rightarrow> nat" where
  "rune_value [] = 0"
| "rune_value [a] = of_char a"
| "rune_value (a # s) =
     foldl (\<lambda>v c. 64 * v + of_char c mod 64)
       (of_char a mod 2 ^ (6 - length s)) s"

definition hex_width :: "nat \<Rightarrow> nat \<Rightarrow> string" where
  "hex_width w n = map (\<lambda>i. hex_char (n div 16 ^ i mod 16)) (rev [0..<w])"

definition escape_rune :: "(bytes \<Rightarrow> bool) \<Rightarrow> bytes \<Rightarrow> string" where
  "escape_rune prn r =
     (let v = rune_value r in
      if r = [CHR 0x22] \<or> r = [CHR 0x5C] then CHR 0x5C # r
      else if IsPrint prn r then r
      else if v = 7 then CHR 0x5C # ''a''
      else if v = 8 then CHR 0x5C # ''b''
      else if v = 12 then CHR 0x5C # ''f''
      else if v = 10 then CHR 0x5C # ''n''
      else if v = 13 then CHR 0x5C # ''r''
      else if v = 9 then CHR 0x5C # ''t''
      else if v = 11 then CHR 0x5C # ''v''
      else if v < 32 \<or> v = 127 then CHR 0x5C # CHR ''x'' # hex_width 2 v
      else if v < 0x10000 then CHR 0x5C # CHR ''u'' # hex_width 4 v
      else CHR 0x5C # CHR ''U'' # hex_width 8 v)"

function quote_body :: "(bytes \<Rightarrow> bool) \<Rightarrow> bytes \<Rightarrow> string" where
  "quote_body prn [] = []"
| "quote_body prn (a # s) =
     (let n = rune_size (a # s) in
      if n = 0 then CHR 0x5C # CHR ''x'' # hex_byte a @ quote_body prn s
      else escape_rune prn (take n (a # s)) @ quote_body prn (drop n (a # s)))"
  by pat_completeness auto

termination
  by (relation "measure (\<lambda>(p, s). length s)") auto

definition quote :: "(bytes \<Rightarrow> bool) \<Rightarrow> string \<Rightarrow> string" where
  "quote prn s = CHR 0x22 # quote_body prn s @ [CHR 0x22]"

section \<open>Durations\<close>

text \<open>The fraction of a duration is scaled in \<open>float64\<close> arithmetic. A finite non-negative number is
  a pair \<open>(m, e)\<close> of value \<open>m * 2 powi e\<close>; each operation rounds the exact result to 53 bits, to the
  nearest, ties to even. The range of exponents is not bounded: the scale is the only number
  that can leave it, and from \<open>10 ^ 40\<close> on the scaled fraction is below one and truncates to zero,
  with a subnormal or infinite intermediate result as with an exact one.\<close>

type_synonym float64 = "nat \<times> int"

fun bit_len :: "nat \<Rightarrow> nat" where
  "bit_len n = (if n = 0 then 0 else Suc (bit_len (n div 2)))"

declare bit_len.simps [simp del]

definition round_even :: "nat \<Rightarrow> nat \<Rightarrow> nat" where
  "round_even n d =
     (let q = n div d; r = n mod d
      in if 2 * r < d \<or> 2 * r = d \<and> even q then q else Suc q)"

definition fl_ratio :: "nat \<Rightarrow> nat \<Rightarrow> float64" where
  "fl_ratio n d =
     (if n = 0 then (0, 0)
      else let e0 = int (bit_len n) - int (bit_len d) - 53;
               e = (if n * 2 ^ nat (- e0) < 2 ^ 53 * (d * 2 ^ nat e0) then e0 else e0 + 1)
           in (round_even (n * 2 ^ nat (- e)) (d * 2 ^ nat e), e))"

definition fl_mult :: "float64 \<Rightarrow> float64 \<Rightarrow> float64" where
  "fl_mult x y = (let (m, e) = fl_ratio (fst x * fst y) 1 in (m, e + snd x + snd y))"

definition fl_div :: "float64 \<Rightarrow> float64 \<Rightarrow> float64" where
  "fl_div x y = (let (m, e) = fl_ratio (fst x) (fst y) in (m, e + snd x - snd y))"

definition fl_trunc :: "float64 \<Rightarrow> nat" where
  "fl_trunc x = (if snd x \<ge> 0 then fst x * 2 ^ nat (snd x) else fst x div 2 ^ nat (- snd x))"

datatype duration_error = EInvalidDuration | EMissingUnit | EUnknownUnit string

text \<open>\<open>leadingInt\<close> returns the number and the rest, or fails on overflow; \<open>leadingFraction\<close>
  never fails, further digits of a fraction that overflowed are skipped.\<close>

fun leadingInt :: "nat \<Rightarrow> string \<Rightarrow> (nat \<times> string) option" where
  "leadingInt x [] = Some (x, [])"
| "leadingInt x (c # cs) =
     (case digit_val c of
        None \<Rightarrow> Some (x, c # cs)
      | Some d \<Rightarrow> if x > 2 ^ 63 div 10 \<or> 10 * x + d > 2 ^ 63 then None
                  else leadingInt (10 * x + d) cs)"

fun leadingFraction :: "nat \<Rightarrow> float64 \<Rightarrow> bool \<Rightarrow> string \<Rightarrow> nat \<times> float64 \<times> string" where
  "leadingFraction x scale ovf [] = (x, scale, [])"
| "leadingFraction x scale ovf (c # cs) =
     (case digit_val c of
        None \<Rightarrow> (x, scale, c # cs)
      | Some d \<Rightarrow> if ovf \<or> x > (2 ^ 63 - 1) div 10 \<or> 10 * x + d > 2 ^ 63
                  then leadingFraction x scale True cs
                  else leadingFraction (10 * x + d) (fl_mult scale (fl_ratio 10 1)) False cs)"

definition unitMap :: "string \<Rightarrow> nat option" where
  "unitMap u =
     (if u = ''ns'' then Some 1
      else if u = ''us'' \<or> u = [CHR 0xC2, CHR 0xB5, CHR ''s''] \<or> u = [CHR 0xCE, CHR 0xBC, CHR ''s''] then Some 1000
      else if u = ''ms'' then Some 1000000
      else if u = ''s'' then Some 1000000000
      else if u = ''m'' then Some 60000000000
      else if u = ''h'' then Some 3600000000000
      else None)"

definition is_num :: "char \<Rightarrow> bool" where
  "is_num c \<longleftrightarrow> c = CHR ''.'' \<or> digit_val c \<noteq> None"

text \<open>One number with its unit: the nanoseconds and the rest of the string.\<close>

definition duration_term :: "string \<Rightarrow> duration_error + (nat \<times> string)" where
  "duration_term s =
     (if s = [] \<or> \<not> is_num (hd s) then Inl EInvalidDuration
      else case leadingInt 0 s of
        None \<Rightarrow> Inl EInvalidDuration
      | Some (v, s1) \<Rightarrow>
          let pre = (length s1 \<noteq> length s);
              dot = (s1 \<noteq> [] \<and> hd s1 = CHR ''.'');
              (f, scale, s2) = (if dot then leadingFraction 0 (fl_ratio 1 1) False (tl s1) else (0, fl_ratio 1 1, s1));
              post = (dot \<and> length s2 \<noteq> length (tl s1));
              u = takeWhile (\<lambda>c. \<not> is_num c) s2;
              s3 = dropWhile (\<lambda>c. \<not> is_num c) s2
          in if \<not> pre \<and> \<not> post then Inl EInvalidDuration
             else if u = '''' then Inl EMissingUnit
             else case unitMap u of
               None \<Rightarrow> Inl (EUnknownUnit u)
             | Some unit \<Rightarrow>
                 if v > 2 ^ 63 div unit then Inl EInvalidDuration
                 else let w = v * unit + (if f > 0 then fl_trunc (fl_mult (fl_ratio f 1) (fl_div (fl_ratio unit 1) scale)) else 0)
                      in if f > 0 \<and> w > 2 ^ 63 then Inl EInvalidDuration else Inr (w, s3))"

text \<open>Each term takes at least one byte, so \<open>length s\<close> rounds are enough. The sum is a \<open>uint64\<close>.\<close>

fun duration_loop :: "nat \<Rightarrow> nat \<Rightarrow> string \<Rightarrow> duration_error + nat" where
  "duration_loop n d [] = Inr d"
| "duration_loop 0 d (c # cs) = Inl EInvalidDuration"
| "duration_loop (Suc n) d (c # cs) =
     bindE (duration_term (c # cs)) (\<lambda>(v, s).
       let d' = (d + v) mod 2 ^ 64 in
       if d' > 2 ^ 63 then Inl EInvalidDuration else duration_loop n d' s)"

definition ParseDuration :: "string \<Rightarrow> duration_error + int" where
  "ParseDuration orig =
     (let sign = (orig \<noteq> [] \<and> (hd orig = CHR ''-'' \<or> hd orig = CHR ''+''));
          neg = (orig \<noteq> [] \<and> hd orig = CHR ''-'');
          s = (if sign then tl orig else orig)
      in if s = ''0'' then Inr 0
         else if s = '''' then Inl EInvalidDuration
         else bindE (duration_loop (length s) 0 s) (\<lambda>d.
           if neg then Inr (- int d)
           else if int d > max_int64 then Inl EInvalidDuration
           else Inr (int d)))"

definition second_ns :: int where "second_ns = 1000000000"
definition hour_ns :: int where "hour_ns = 3600 * second_ns"

section \<open>Facts\<close>

lemmas duration_eval = ParseDuration_def duration_term_def digit_val_def is_num_def unitMap_def
  max_int64_def second_ns_def hour_ns_def

lemma duration_loop_bound: "duration_loop n d s = Inr r \<Longrightarrow> d \<le> 2 ^ 63 \<Longrightarrow> r \<le> 2 ^ 63"
  by (induction n d s rule: duration_loop.induct) (auto simp: Let_def split: if_splits)

lemma ParseDuration_range: "ParseDuration s = Inr d \<Longrightarrow> min_int64 \<le> d \<and> d \<le> max_int64"
  using duration_loop_bound [of "length s" 0 s] duration_loop_bound [of "length (tl s)" 0 "tl s"]
  by (auto simp: ParseDuration_def Let_def min_int64_def max_int64_def split: if_splits)

text \<open>Absolute paths: what \<open>Clean\<close> and \<open>Join\<close> make of them is absolute and free of \<open>..\<close>.\<close>

lemma join_split [simp]: "join_with c (split_on c s) = s"
proof (induction s)
  case (Cons x s)
  then show ?case by (cases "split_on c s" rule: remdups_adj.cases) auto
qed simp

lemma split_on_clean: "e \<in> set (split_on c s) \<Longrightarrow> c \<notin> set e"
proof (induction s arbitrary: e)
  case (Cons x s)
  then show ?case by (cases "split_on c s") (auto split: if_splits)
qed simp

lemma clean_elems_rooted:
  assumes "set acc \<subseteq> N" and "set es \<subseteq> insert '''' (insert ''.'' (insert ''..'' N))" and "''..'' \<notin> N"
  shows "set (clean_elems True acc es) \<subseteq> N"
  using assms by (induction True acc es rule: clean_elems.induct) (auto split: list.splits)

lemma join_with_eq_Nil: "join_with c es = [] \<longleftrightarrow> es = [] \<or> es = [[]]"
  by (cases es rule: remdups_adj.cases) auto

lemma IsAbs_Clean: "IsAbs p \<Longrightarrow> IsAbs (Clean p)"
  by (simp add: Clean_def IsAbs_def Let_def)

lemma IsAbs_append: "IsAbs p \<Longrightarrow> IsAbs (p @ q)"
  by (cases p) (auto simp: IsAbs_def)

lemma IsAbs_nonempty: "IsAbs p \<Longrightarrow> p \<noteq> []"
  by (auto simp: IsAbs_def)

lemma IsAbs_Join: "IsAbs p \<Longrightarrow> IsAbs (Join (p # ps))"
  by (cases ps) (auto simp: Join_def IsAbs_nonempty intro!: IsAbs_Clean IsAbs_append)

lemma split_on_append_sep: "c \<notin> set e \<Longrightarrow> split_on c (e @ c # s) = e # split_on c s"
  by (induction e) auto

lemma split_on_self: "c \<notin> set e \<Longrightarrow> split_on c e = [e]"
  by (induction e) auto

lemma split_join: "es \<noteq> [] \<Longrightarrow> \<forall>e \<in> set es. c \<notin> set e \<Longrightarrow> split_on c (join_with c es) = es"
  by (induction c es rule: join_with.induct) (auto simp: split_on_append_sep split_on_self)

text \<open>The elements of a cleaned absolute path are plain names: no \<open>.\<close>, no \<open>..\<close>, none empty.\<close>

lemma Clean_elems:
  assumes "IsAbs p"
  shows "\<exists>es. Clean p = slash # join_with slash es \<and>
    (\<forall>e \<in> set es. e \<noteq> '''' \<and> e \<noteq> ''.'' \<and> e \<noteq> ''..'' \<and> slash \<notin> set e)"
proof -
  let ?N = "{e. e \<noteq> '''' \<and> e \<noteq> ''.'' \<and> e \<noteq> ''..'' \<and> slash \<notin> set e}"
  have "set (split_on slash p) \<subseteq> insert '''' (insert ''.'' (insert ''..'' ?N))"
    using split_on_clean by auto
  then have "set (clean_elems True [] (split_on slash p)) \<subseteq> ?N"
    by (intro clean_elems_rooted) auto
  with assms show ?thesis by (auto simp: Clean_def Let_def)
qed

text \<open>Cleaning a prefix first changes nothing.\<close>

lemma clean_elems_append:
  "clean_elems r acc (xs @ ys) = clean_elems r (rev (clean_elems r acc xs)) ys"
proof (induction xs arbitrary: acc)
  case (Cons e xs)
  show ?case by (cases acc) (simp_all add: Cons)
qed simp

definition plain :: "string \<Rightarrow> bool" where
  "plain e \<longleftrightarrow> e \<noteq> '''' \<and> e \<noteq> ''.'' \<and> e \<noteq> ''..'' \<and> slash \<notin> set e"

lemma clean_elems_plain: "\<forall>e \<in> set es. plain e \<Longrightarrow> clean_elems r acc es = rev acc @ es"
  by (induction es arbitrary: acc) (auto simp: plain_def)

definition root_elems :: "string \<Rightarrow> string list" where
  "root_elems p = clean_elems True [] (split_on slash p)"

lemma root_elems_plain: "\<forall>e \<in> set (root_elems p). plain e"
proof -
  have "set (split_on slash p) \<subseteq> insert '''' (insert ''.'' (insert ''..'' {e. plain e}))"
    using split_on_clean by (auto simp: plain_def)
  then have "set (root_elems p) \<subseteq> {e. plain e}"
    unfolding root_elems_def by (intro clean_elems_rooted) (auto simp: plain_def)
  then show ?thesis by blast
qed

lemma Clean_root: "IsAbs p \<Longrightarrow> Clean p = slash # join_with slash (root_elems p)"
  by (simp add: Clean_def root_elems_def Let_def)

lemma split_on_append_slash:
  "split_on slash (p @ slash # s) = split_on slash p @ split_on slash s"
proof (induction p)
  case (Cons x p)
  then show ?case by (cases "split_on slash p") auto
qed simp

lemma root_elems_append: "root_elems (p @ slash # s) = clean_elems True (rev (root_elems p)) (split_on slash s)"
  by (simp add: root_elems_def split_on_append_slash clean_elems_append)

lemma root_elems_Clean:
  assumes "IsAbs p"
  shows "root_elems (Clean p) = root_elems p"
proof (cases "root_elems p = []")
  case True
  with assms show ?thesis by (simp add: Clean_root root_elems_def)
next
  case False
  have "split_on slash (Clean p) = '''' # root_elems p"
    using assms False root_elems_plain split_join [of "root_elems p" slash]
    by (simp add: Clean_root plain_def)
  then have "root_elems (Clean p) = clean_elems True [] (root_elems p)"
    by (simp add: root_elems_def)
  also have "\<dots> = root_elems p"
    using clean_elems_plain [OF root_elems_plain] by simp
  finally show ?thesis .
qed

lemma Clean_Clean: "IsAbs p \<Longrightarrow> Clean (Clean p) = Clean p"
  by (metis Clean_root IsAbs_Clean root_elems_Clean)

lemma Clean_append: "IsAbs p \<Longrightarrow> Clean (Clean p @ slash # s) = Clean (p @ slash # s)"
  by (simp add: Clean_root [OF IsAbs_append] IsAbs_Clean root_elems_append root_elems_Clean)

end
