(* ===== verification/Signaling.thy ===== *)
theory Signaling
  imports Identity Go_Text
begin

text \<open>
  \<open>internal/webrtc/signaling.go\<close>: the client that keeps the host connected to the signaling
  server. Its run loop is a state machine: \<open>pc\<close> says where the loop is, and each step is what
  it does between two points at which another goroutine can act (it holds \<open>sc.mu\<close> or blocks).
  \<open>Suspend\<close>, \<open>Resume\<close>, \<open>Close\<close>, \<open>Send\<close>, \<open>SignalActivity\<close>, the token refresh, the cancellation of
  the context and the clock interleave with it arbitrarily; \<open>Resume\<close> is two steps, as in the
  code. Times are in nanoseconds. Doubling the back-off in \<open>float64\<close> is exact for every value
  the loop uses (at most 30 s), so it is written on integers.

  Shown here: while the host is suspended no connection is open and a resume is never missed;
  the back-off stays within its bounds and the client goes dormant only after five minutes of
  failures; a wake-up leads to a connection attempt within four steps of the loop; and the loop
  ends only when it is cancelled or the server rejected the credentials for good. A server with an
  \<open>https\<close> address is only ever dialled over TLS. The heartbeat and the read deadline of an open
  connection are in \<open>Signal_Link\<close>.
\<close>

section \<open>Data\<close>

definition second :: int where "second = 1000000000"
definition TokenRefreshMargin :: int where "TokenRefreshMargin = 5 * 60 * second"
definition JWTLifetime :: int where "JWTLifetime = 60 * 60 * second"
definition initialBackoff :: int where "initialBackoff = 1 * second"
definition maxBackoff :: int where "maxBackoff = 30 * second"
definition DormancyTimeout :: int where "DormancyTimeout = 5 * 60 * second"
definition stableConnectionThreshold :: int where "stableConnectionThreshold = 30 * second"
definition minBackoff :: int where "minBackoff = 60 * second"
definition maxRefBackoff :: int where "maxRefBackoff = 15 * 60 * second"

datatype sig_error =
    EObtainJWT http_error
  | EDialRejected string string
  | EDialFailed
  | ESendAuthMsg
  | EAuthRejected
  | EReadAuth
  | EParseAuth
  | EReadMessage

text \<open>The socket of a published connection: open, or closed by someone.\<close>

datatype link = Up | Down

text \<open>What \<open>connectAndServe\<close> puts on the wire: a dial with its headers, and the authentication message
  with the token and the host's name.\<close>

datatype sig_write = DialWS string "sig_headers option" | AuthMsg string string

text \<open>Where \<open>Run\<close> is: at the top of the loop, waiting while dormant, at the suspend check, waiting
  while suspended, about to obtain a token, about to dial, authenticated but not yet published,
  reading (since when), past a lost connection (stable? why?), waiting to retry (since when, how
  long), returned.\<close>

datatype rpc =
    Top
  | DormantWait
  | SuspendCheck
  | SuspendWait
  | Connect
  | Dialing
  | Publish
  | Serving int
  | Lost bool sig_error
  | Backoff int int
  | Returned "sig_error option"

record 'm sclient =
  jwt :: string
  jwtExpiry :: "int option"
  shut :: bool
  failureStart :: "int option"
  dormant :: bool
  suspended :: bool
  activitySignal :: bool
  conn :: "link option"
  pc :: rpc
  backoff :: int
  failBackoff :: int
  lastFailure :: int
  now :: int
  cancelled :: bool
  resuming :: nat
  handled :: "'m list"
  sent_requests :: "request list"
  wrote :: "sig_write list"
  lastGood :: int

text \<open>\<open>resuming\<close> counts the calls of \<open>Resume\<close> between their two steps; \<open>lastGood\<close>, which the code does
  not have, is when the loop last started afresh: at the start, after a stable connection, or on
  a wake-up.\<close>

record 'm scfg =
  s_ident :: Identity
  s_url :: string
  s_host :: string
  s_hmac :: string
  InitialBackoff :: int
  s_parse :: "bytes \<Rightarrow> 'm option"
  s_type :: "'m \<Rightarrow> string"
  jexp :: "bytes \<Rightarrow> int option"

datatype auth_reply = AuthClosed bool | AuthData bytes

record senv =
  s_http :: httpenv
  s_time :: int
  s_random :: bytes
  s_dial :: "string \<Rightarrow> sig_headers option \<Rightarrow> (nat \<times> bytes) option + unit"
  s_authSent :: bool
  s_authReply :: auth_reply
  s_frame :: "bytes option"
  s_jitter :: nat
  s_select :: nat

text \<open>\<open>s_url\<close> is the address given to the constructor, which drops trailing slashes.\<close>

definition serverURL :: "'m scfg \<Rightarrow> string" where
  "serverURL c = trim_right (CHR ''/'') (s_url c)"

definition wsURL :: "'m scfg \<Rightarrow> string" where
  "wsURL c = replace_first ''http://'' ''ws://'' (replace_first ''https://'' ''wss://'' (serverURL c @ ''/ws''))"

definition startBackoff :: "'m scfg \<Rightarrow> int" where
  "startBackoff c = (if InitialBackoff c > 0 then InitialBackoff c else initialBackoff)"

definition jitter :: "nat \<Rightarrow> int \<Rightarrow> int" where
  "jitter rnd d = d + int rnd mod (d div 2 + 1)"

section \<open>Tokens\<close>

text \<open>\<open>base64.RawURLEncoding\<close>: the URL alphabet, no padding; line breaks are skipped.\<close>

definition url_to_std :: "char \<Rightarrow> char option" where
  "url_to_std ch =
     (if ch = CHR ''-'' then Some (CHR ''+'') else if ch = CHR ''_'' then Some (CHR ''/'')
      else if ch \<in> {CHR ''+'', CHR ''/'', CHR ''=''} then None else Some ch)"

definition rawurl_decode :: "string \<Rightarrow> bytes option" where
  "rawurl_decode s =
     (let t = filter (\<lambda>ch. ch \<noteq> CHR 0x0A \<and> ch \<noteq> CHR 0x0D) s; u = map url_to_std t in
      if None \<in> set u \<or> length u mod 4 = 1 then None
      else b64_quanta (map the u @ replicate ((4 - length u mod 4) mod 4) (CHR ''='')))"

definition parseJWTExpiry :: "(bytes \<Rightarrow> int option) \<Rightarrow> string \<Rightarrow> int option" where
  "parseJWTExpiry je token = (case split_on (CHR ''.'') token of
      [_, p, _] \<Rightarrow>
        (case rawurl_decode p of
           None \<Rightarrow> None
         | Some payload \<Rightarrow>
            (case je payload of None \<Rightarrow> None | Some e \<Rightarrow> if e = 0 then None else Some (e * second)))
    | _ \<Rightarrow> None)"

definition token_valid :: "'m sclient \<Rightarrow> bool" where
  "token_valid s \<longleftrightarrow> jwt s \<noteq> '''' \<and>
     (case jwtExpiry s of None \<Rightarrow> False | Some t \<Rightarrow> t - now s > TokenRefreshMargin)"

definition ensureToken :: "'m scfg \<Rightarrow> senv \<Rightarrow> 'm sclient \<Rightarrow> (http_error + unit) \<times> 'm sclient" where
  "ensureToken c e s =
     (if token_valid s then (Inr (), s)
      else case ExchangeToken (s_http e) (s_ident c) (serverURL c) (s_hmac c) (sent_requests s) of
        (Inl x, l) \<Rightarrow> (Inl x, s\<lparr>sent_requests := l\<rparr>)
      | (Inr token, l) \<Rightarrow>
         (Inr (), s\<lparr>sent_requests := l, jwt := token,
            jwtExpiry := Some (case parseJWTExpiry (jexp c) token of
              Some t \<Rightarrow> t | None \<Rightarrow> now s + JWTLifetime)\<rparr>))"

text \<open>One tick of \<open>tokenRefreshLoop\<close>. The loop belongs to one connection, but an exchange it started may
  finish later, so the tick may happen at any time below.\<close>

definition refresh_tick :: "'m scfg \<Rightarrow> senv \<Rightarrow> 'm sclient \<Rightarrow> 'm sclient" where
  "refresh_tick c e s =
     (if failBackoff s > 0 \<and> now s - lastFailure s < failBackoff s then s
      else if (case jwtExpiry s of None \<Rightarrow> False | Some t \<Rightarrow> \<not> t < now s + TokenRefreshMargin) then s
      else case ensureToken c e s of
        (Inl _, s1) \<Rightarrow> s1\<lparr>lastFailure := now s1,
            failBackoff := (if failBackoff s1 = 0 then minBackoff else min (failBackoff s1 * 2) maxRefBackoff)\<rparr>
      | (Inr _, s1) \<Rightarrow> s1\<lparr>failBackoff := 0\<rparr>)"

section \<open>One connection\<close>

definition authenticate_ws :: "'m scfg \<Rightarrow> senv \<Rightarrow> sig_error + unit" where
  "authenticate_ws c e =
     (if \<not> s_authSent e then Inl ESendAuthMsg
      else case s_authReply e of
        AuthClosed code4001 \<Rightarrow> Inl (if code4001 then EAuthRejected else EReadAuth)
      | AuthData d \<Rightarrow>
         (case s_parse c d of
            None \<Rightarrow> Inl EParseAuth
          | Some m \<Rightarrow> if s_type c m = ''error'' then Inl EAuthRejected else Inr ()))"

definition obtain_token :: "'m scfg \<Rightarrow> senv \<Rightarrow> 'm sclient \<Rightarrow> 'm sclient" where
  "obtain_token c e s = (case ensureToken c e s of
      (Inl x, s1) \<Rightarrow> s1\<lparr>pc := Lost False (EObtainJWT x)\<rparr>
    | (Inr _, s1) \<Rightarrow> s1\<lparr>pc := Dialing\<rparr>)"

definition dial_and_auth :: "'m scfg \<Rightarrow> senv \<Rightarrow> 'm sclient \<Rightarrow> 'm sclient" where
  "dial_and_auth c e s =
     (let h = SignWebSocketHeaders (url_path (s_http e)) (s_time e) (s_random e) (wsURL c) (s_hmac c);
          s1 = s\<lparr>wrote := wrote s @ [DialWS (wsURL c) h]\<rparr>
      in case s_dial e (wsURL c) h of
        Inl resp \<Rightarrow>
          s1\<lparr>pc := Lost False (case resp of
              None \<Rightarrow> EDialFailed
            | Some (code, b) \<Rightarrow> (case CheckHMACRejection (jerr (s_http e)) code b of
                Some m \<Rightarrow> EDialRejected (serverURL c) m | None \<Rightarrow> EDialFailed))\<rparr>
      | Inr _ \<Rightarrow>
          let s2 = s1\<lparr>wrote := wrote s1 @ [AuthMsg (jwt s1) (s_host c)]\<rparr> in
          (case authenticate_ws c e of
             Inl x \<Rightarrow> (if x = EAuthRejected then s2\<lparr>jwtExpiry := None, pc := Lost False x\<rparr> else s2\<lparr>pc := Lost False x\<rparr>)
           | Inr _ \<Rightarrow> s2\<lparr>pc := Publish\<rparr>))"

definition publish :: "'m sclient \<Rightarrow> 'm sclient" where
  "publish s =
     (if suspended s then s\<lparr>pc := Top\<rparr>
      else s\<lparr>conn := Some (if cancelled s then Down else Up), pc := Serving (now s), failBackoff := 0\<rparr>)"

text \<open>One round of \<open>readLoop\<close>: a frame is handed on unless it is malformed or an error message; a failed
  read ends the connection.\<close>

definition read_round :: "'m scfg \<Rightarrow> senv \<Rightarrow> int \<Rightarrow> 'm sclient \<Rightarrow> 'm sclient" where
  "read_round c e since s = (case (conn s, s_frame e) of
      (Some Up, Some d) \<Rightarrow>
        (case s_parse c d of
           None \<Rightarrow> s
         | Some m \<Rightarrow> if s_type c m = ''error'' then s else s\<lparr>handled := handled s @ [m]\<rparr>)
    | _ \<Rightarrow> s\<lparr>conn := None, pc := Lost (now s - since \<ge> stableConnectionThreshold) EReadMessage\<rparr>)"

section \<open>The loop\<close>

definition permanent :: "sig_error \<Rightarrow> bool" where
  "permanent x = (case x of
      EDialRejected _ _ \<Rightarrow> True | EObtainJWT (HMACRejectedError _ _) \<Rightarrow> True | _ \<Rightarrow> False)"

definition fresh_window :: "'m scfg \<Rightarrow> 'm sclient \<Rightarrow> 'm sclient" where
  "fresh_window c s = s\<lparr>failureStart := None, backoff := startBackoff c, lastGood := now s\<rparr>"

definition after_loss :: "'m scfg \<Rightarrow> senv \<Rightarrow> bool \<Rightarrow> sig_error \<Rightarrow> 'm sclient \<Rightarrow> 'm sclient" where
  "after_loss c e steady x s =
     (if cancelled s then s\<lparr>pc := Returned None\<rparr>
      else if permanent x then s\<lparr>pc := Returned (Some x)\<rparr>
      else if steady then
        (let s1 = fresh_window c s in s1\<lparr>pc := Backoff (now s1) (jitter (s_jitter e) (backoff s1))\<rparr>)
      else
        (let start = (case failureStart s of None \<Rightarrow> now s | Some t \<Rightarrow> t); s1 = s\<lparr>failureStart := Some start\<rparr> in
         if now s - start \<ge> DormancyTimeout then s1\<lparr>dormant := True, pc := Top\<rparr>
         else s1\<lparr>pc := Backoff (now s1) (jitter (s_jitter e) (backoff s1))\<rparr>))"

text \<open>Go's \<open>select\<close>: one of the ready cases, any of them; \<open>None\<close> when it blocks. The cases of the waits
  are the context, the activity signal and, in the back-off, the timer.\<close>

datatype choice = Ctx | Signal | Timer

definition select_case :: "nat \<Rightarrow> (bool \<times> choice) list \<Rightarrow> choice option" where
  "select_case n cs = (let ready = map snd (filter fst cs) in
     if ready = [] then None else Some (ready ! (n mod length ready)))"

definition run_step :: "'m scfg \<Rightarrow> senv \<Rightarrow> 'm sclient \<Rightarrow> 'm sclient" where
  "run_step c e s = (case pc s of
      Top \<Rightarrow> if cancelled s then s\<lparr>pc := Returned None\<rparr> else if dormant s then s\<lparr>pc := DormantWait\<rparr> else s\<lparr>pc := SuspendCheck\<rparr>
    | DormantWait \<Rightarrow>
        (case select_case (s_select e) [(cancelled s, Ctx), (activitySignal s, Signal)] of
           Some Ctx \<Rightarrow> s\<lparr>pc := Returned None\<rparr>
         | Some Signal \<Rightarrow> (fresh_window c s)\<lparr>activitySignal := False, dormant := False, pc := SuspendCheck\<rparr>
         | _ \<Rightarrow> s)
    | SuspendCheck \<Rightarrow> if suspended s then s\<lparr>pc := SuspendWait\<rparr> else s\<lparr>pc := Connect\<rparr>
    | SuspendWait \<Rightarrow>
        (case select_case (s_select e) [(cancelled s, Ctx), (activitySignal s, Signal)] of
           Some Ctx \<Rightarrow> s\<lparr>pc := Returned None\<rparr>
         | Some Signal \<Rightarrow> (fresh_window c s)\<lparr>activitySignal := False, pc := Top\<rparr>
         | _ \<Rightarrow> s)
    | Connect \<Rightarrow> obtain_token c e s
    | Dialing \<Rightarrow> dial_and_auth c e s
    | Publish \<Rightarrow> if cancelled s \<and> suspended s then s\<lparr>pc := Returned None\<rparr> else publish s
    | Serving since \<Rightarrow> read_round c e since s
    | Lost steady x \<Rightarrow> after_loss c e steady x s
    | Backoff since wait \<Rightarrow>
        (case select_case (s_select e) [(cancelled s, Ctx), (activitySignal s, Signal), (now s - since \<ge> wait, Timer)] of
           Some Ctx \<Rightarrow> s\<lparr>pc := Returned None\<rparr>
         | Some Signal \<Rightarrow> (fresh_window c s)\<lparr>activitySignal := False, dormant := False, pc := Top\<rparr>
         | Some Timer \<Rightarrow>
             s\<lparr>backoff := (if now s - since \<ge> backoff s div 2 then min (backoff s * 2) maxBackoff else backoff s), pc := Top\<rparr>
         | None \<Rightarrow> s)
    | Returned r \<Rightarrow> s)"

section \<open>The other goroutines\<close>

definition SignalActivity :: "'m sclient \<Rightarrow> 'm sclient" where
  "SignalActivity s = s\<lparr>activitySignal := True\<rparr>"

definition drop_link :: "'m sclient \<Rightarrow> 'm sclient" where
  "drop_link s = s\<lparr>conn := map_option (\<lambda>_. Down) (conn s)\<rparr>"

definition Suspend :: "'m sclient \<Rightarrow> 'm sclient" where
  "Suspend s = (if shut s then s else drop_link (s\<lparr>suspended := True\<rparr>))"

definition Resume_clear :: "'m sclient \<Rightarrow> 'm sclient" where
  "Resume_clear s = s\<lparr>suspended := False, resuming := Suc (resuming s)\<rparr>"

definition Resume_signal :: "'m sclient \<Rightarrow> 'm sclient" where
  "Resume_signal s = (if resuming s = 0 then s else SignalActivity (s\<lparr>resuming := resuming s - 1\<rparr>))"

definition Close_client :: "'m sclient \<Rightarrow> 'm sclient" where
  "Close_client s = (if shut s then s else drop_link (s\<lparr>shut := True\<rparr>))"

text \<open>\<open>Send\<close> reports whether the message was written; a failed write closes the socket.\<close>

definition Send :: "bool \<Rightarrow> 'm sclient \<Rightarrow> bool \<times> 'm sclient" where
  "Send wok s = (case conn s of
      None \<Rightarrow> (False, s)
    | Some Down \<Rightarrow> (False, s)
    | Some Up \<Rightarrow> if wok then (True, s) else (False, drop_link s))"

definition cancel :: "'m sclient \<Rightarrow> 'm sclient" where
  "cancel s = drop_link (s\<lparr>cancelled := True\<rparr>)"

definition NewSignalingClient :: "'m scfg \<Rightarrow> int \<Rightarrow> 'm sclient" where
  "NewSignalingClient c t =
     \<lparr>jwt = '''', jwtExpiry = None, shut = False, failureStart = None, dormant = False, suspended = False,
      activitySignal = False, conn = None, pc = Top, backoff = startBackoff c, failBackoff = 0, lastFailure = 0,
      now = t, cancelled = False, resuming = 0, handled = [], sent_requests = [], wrote = [], lastGood = t\<rparr>"

inductive sstep :: "'m scfg \<Rightarrow> 'm sclient \<Rightarrow> 'm sclient \<Rightarrow> bool" for c where
  run: "sstep c s (run_step c e s)"
| refresh: "sstep c s (refresh_tick c e s)"
| signal: "sstep c s (SignalActivity s)"
| suspend: "sstep c s (Suspend s)"
| resume1: "sstep c s (Resume_clear s)"
| resume2: "sstep c s (Resume_signal s)"
| close: "sstep c s (Close_client s)"
| send: "sstep c s (snd (Send wok s))"
| cancel: "sstep c s (cancel s)"
| time: "0 \<le> d \<Longrightarrow> sstep c s (s\<lparr>now := now s + d\<rparr>)"

inductive_cases sstepE: "sstep c s t"

section \<open>The invariant\<close>

definition inv_offline :: "'m sclient \<Rightarrow> bool" where
  "inv_offline s \<longleftrightarrow> (suspended s \<longrightarrow> conn s \<noteq> Some Up) \<and> (conn s \<noteq> None \<longleftrightarrow> (\<exists>t. pc s = Serving t)) \<and>
     (cancelled s \<longrightarrow> conn s \<noteq> Some Up)"

definition inv_wake :: "'m sclient \<Rightarrow> bool" where
  "inv_wake s \<longleftrightarrow> (pc s = SuspendWait \<and> \<not> suspended s \<longrightarrow> activitySignal s \<or> resuming s > 0)"

definition inv_backoff :: "'m scfg \<Rightarrow> 'm sclient \<Rightarrow> bool" where
  "inv_backoff c s \<longleftrightarrow>
     min (startBackoff c) maxBackoff \<le> backoff s \<and> backoff s \<le> max (startBackoff c) maxBackoff \<and>
     (\<forall>t w. pc s = Backoff t w \<longrightarrow> backoff s \<le> w \<and> w \<le> backoff s + backoff s div 2) \<and>
     (failBackoff s = 0 \<or> minBackoff \<le> failBackoff s \<and> failBackoff s \<le> maxRefBackoff)"

definition inv_dormant :: "'m sclient \<Rightarrow> bool" where
  "inv_dormant s \<longleftrightarrow> lastGood s \<le> now s \<and> (\<forall>t. failureStart s = Some t \<longrightarrow> lastGood s \<le> t \<and> t \<le> now s) \<and>
     (dormant s \<longrightarrow> lastGood s + DormancyTimeout \<le> now s \<and>
        (pc s = Top \<or> pc s = DormantWait \<or> (\<exists>r. pc s = Returned r)))"

definition inv_return :: "'m sclient \<Rightarrow> bool" where
  "inv_return s \<longleftrightarrow> (pc s = Returned None \<longrightarrow> cancelled s) \<and> (\<forall>x. pc s = Returned (Some x) \<longrightarrow> permanent x)"

definition sinv :: "'m scfg \<Rightarrow> 'm sclient \<Rightarrow> bool" where
  "sinv c s \<longleftrightarrow> inv_offline s \<and> inv_wake s \<and> inv_backoff c s \<and> inv_dormant s \<and> inv_return s"

lemmas sinv_defs = inv_offline_def inv_wake_def inv_backoff_def inv_dormant_def inv_return_def

lemma second_pos [simp]: "0 < second" by (simp add: second_def)

lemma startBackoff_pos: "0 < startBackoff c"
  by (simp add: startBackoff_def initialBackoff_def)

lemma jitter_bounds: "0 < d \<Longrightarrow> d \<le> jitter n d \<and> jitter n d \<le> d + d div 2"
proof -
  assume d: "0 < d"
  then have "0 < d div 2 + 1" by auto
  then have "0 \<le> int n mod (d div 2 + 1)" "int n mod (d div 2 + 1) < d div 2 + 1"
    by (rule pos_mod_sign, rule pos_mod_bound)
  then show ?thesis by (simp add: jitter_def)
qed

lemma ensureToken_frame:
  assumes "ensureToken c e s = (r, s1)"
  obtains j x l where "s1 = s\<lparr>jwt := j, jwtExpiry := x, sent_requests := l\<rparr>"
proof -
  have "s1 = s\<lparr>jwt := jwt s1, jwtExpiry := jwtExpiry s1, sent_requests := sent_requests s1\<rparr>"
    using assms by (auto simp: ensureToken_def split: if_splits sum.splits prod.splits)
  then show thesis using that by blast
qed

lemma sinv_token: "sinv c s \<Longrightarrow> sinv c (s\<lparr>jwt := j, jwtExpiry := x, sent_requests := l\<rparr>)"
  by (simp add: sinv_def sinv_defs)

lemma sinv_quiet:
  assumes "sinv c s" "conn s = None" "\<not> dormant s" "p \<in> {Top, SuspendCheck, Connect, Dialing, Publish} \<or> (\<exists>b x. p = Lost b x)"
  shows "sinv c (s\<lparr>pc := p\<rparr>)" "sinv c (s\<lparr>jwtExpiry := None, pc := p\<rparr>)"
  using assms by (auto simp: sinv_def sinv_defs)

lemma sinv_fresh:
  assumes "sinv c s" "conn s = None" "p = Top \<or> p = SuspendCheck"
  shows "sinv c ((fresh_window c s)\<lparr>activitySignal := False, dormant := False, pc := p\<rparr>)"
    "\<not> dormant s \<Longrightarrow> sinv c ((fresh_window c s)\<lparr>activitySignal := False, pc := p\<rparr>)"
  using assms by (auto simp: sinv_def sinv_defs fresh_window_def)

text \<open>Each place of the loop keeps the invariant.\<close>

lemma select_cases:
  assumes "select_case n cs = Some x" shows "(True, x) \<in> set cs"
proof -
  let ?r = "map snd (filter fst cs)"
  have "?r \<noteq> []" "x = ?r ! (n mod length ?r)" using assms by (auto simp: select_case_def Let_def split: if_splits)
  then have "x \<in> set ?r" by (metis length_greater_0_conv mod_less_divisor nth_mem)
  then show ?thesis by auto
qed

lemma select_never [simp]:
  "select_case n [(a, Ctx), (b, Signal)] \<noteq> Some Timer"
  "select_case n [(False, Ctx), (b, Signal), (d, Timer)] \<noteq> Some Ctx"
  using select_cases [of n "[(a, Ctx), (b, Signal)]" Timer]
    select_cases [of n "[(False, Ctx), (b, Signal), (d, Timer)]" Ctx] by auto

lemma sinv_not_dormant: "sinv c s \<Longrightarrow> pc s \<notin> {Top, DormantWait} \<Longrightarrow> \<forall>r. pc s \<noteq> Returned r \<Longrightarrow> \<not> dormant s"
  by (auto simp: sinv_def inv_dormant_def)

lemma sinv_no_conn: "sinv c s \<Longrightarrow> \<forall>t. pc s \<noteq> Serving t \<Longrightarrow> conn s = None"
  by (auto simp: sinv_def inv_offline_def)

lemma sinv_returns: "sinv c s \<Longrightarrow> conn s = None \<Longrightarrow> cancelled s \<Longrightarrow> sinv c (s\<lparr>pc := Returned None\<rparr>)"
  by (auto simp: sinv_def sinv_defs)

lemma sinv_obtain:
  assumes "sinv c s" "pc s = Connect" shows "sinv c (obtain_token c e s)"
proof -
  obtain r s1 where r: "ensureToken c e s = (r, s1)" by fastforce
  obtain j x l where s1: "s1 = s\<lparr>jwt := j, jwtExpiry := x, sent_requests := l\<rparr>" using ensureToken_frame [OF r] by blast
  have "sinv c s1" "conn s1 = None" "\<not> dormant s1"
    using sinv_token [OF assms(1)] sinv_no_conn [OF assms(1)] sinv_not_dormant [OF assms(1)] assms(2) s1 by auto
  then show ?thesis using sinv_quiet(1) [of c s1] r by (auto simp: obtain_token_def split: sum.splits)
qed

lemma sinv_dial:
  assumes "sinv c s" "pc s = Dialing" shows "sinv c (dial_and_auth c e s)"
proof -
  have w: "sinv c (s\<lparr>wrote := l\<rparr>)" "conn (s\<lparr>wrote := l\<rparr>) = None" "\<not> dormant (s\<lparr>wrote := l\<rparr>)" for l
    using assms sinv_no_conn [OF assms(1)] sinv_not_dormant [OF assms(1)] by (simp_all add: sinv_def sinv_defs)
  have l: "Lost b x \<in> {Top, SuspendCheck, Connect, Dialing, Publish} \<or> (\<exists>b' x'. Lost b x = Lost b' x')" for b x
    by blast
  have q: "sinv c (s\<lparr>wrote := l, jwtExpiry := None, pc := Lost b x\<rparr>)" "sinv c (s\<lparr>wrote := l, pc := Lost b x\<rparr>)"
    "sinv c (s\<lparr>wrote := l, pc := Publish\<rparr>)" for l b x
    using sinv_quiet(2) [OF w l] sinv_quiet(1) [OF w l] sinv_quiet(1) [OF w, of Publish] by simp_all
  show ?thesis
    unfolding dial_and_auth_def Let_def by (simp split: sum.split) (use q in auto)
qed

lemma sinv_publish:
  assumes "sinv c s" "pc s = Publish" shows "sinv c (publish s)"
  using assms sinv_not_dormant [OF assms(1)] sinv_no_conn [OF assms(1)] by (auto simp: publish_def sinv_def sinv_defs)

lemma sinv_read:
  assumes "sinv c s" "pc s = Serving t" shows "sinv c (read_round c e t s)"
proof -
  have d: "\<not> dormant s" using sinv_not_dormant [OF assms(1)] assms(2) by auto
  have h: "sinv c (s\<lparr>handled := h\<rparr>)" for h using assms(1) by (simp add: sinv_def sinv_defs)
  have l: "sinv c (s\<lparr>conn := None, pc := Lost b x\<rparr>)" for b x
    using assms(1) d by (auto simp: sinv_def sinv_defs)
  show ?thesis using h l assms(1) by (auto simp: read_round_def split: option.splits link.splits)
qed

lemma sinv_backoff_pos: "sinv c s \<Longrightarrow> 0 < backoff s"
  using startBackoff_pos [of c] second_pos
  by (auto simp: sinv_def inv_backoff_def maxBackoff_def second_def min_def split: if_splits)

lemma sinv_lost:
  assumes "sinv c s" "pc s = Lost b x" shows "sinv c (after_loss c e b x s)"
proof -
  have n: "conn s = None" "\<not> dormant s" using sinv_no_conn [OF assms(1)] sinv_not_dormant [OF assms(1)] assms(2) by auto
  have bo: "0 < backoff s" using sinv_backoff_pos [OF assms(1)] .
  consider "cancelled s" | "\<not> cancelled s" "permanent x" | "\<not> cancelled s" "\<not> permanent x" "b"
    | "\<not> cancelled s" "\<not> permanent x" "\<not> b" by blast
  then show ?thesis
  proof cases
    case 1
    then show ?thesis using sinv_returns [OF assms(1) n(1)] by (simp add: after_loss_def)
  next
    case 2
    then show ?thesis using assms(1) n by (auto simp: after_loss_def sinv_def sinv_defs)
  next
    case 3
    then show ?thesis using assms(1) n jitter_bounds [OF startBackoff_pos, of c "s_jitter e"]
      by (auto simp: after_loss_def fresh_window_def Let_def sinv_def sinv_defs)
  next
    case 4
    then show ?thesis using assms(1) n jitter_bounds [OF bo, of "s_jitter e"]
      by (auto simp: after_loss_def Let_def sinv_def sinv_defs split: option.splits)
  qed
qed

lemma sinv_timer:
  assumes "sinv c s" "pc s = Backoff t w"
  shows "sinv c (s\<lparr>backoff := (if now s - t \<ge> backoff s div 2 then min (backoff s * 2) maxBackoff else backoff s), pc := Top\<rparr>)"
proof -
  have "0 < backoff s" using sinv_backoff_pos [OF assms(1)] .
  then show ?thesis using assms sinv_no_conn [OF assms(1)] sinv_not_dormant [OF assms(1)]
    by (auto simp: sinv_def sinv_defs)
qed

lemma sinv_run: "sinv c s \<Longrightarrow> sinv c (run_step c e s)"
proof (cases "pc s")
  case Top
  assume i: "sinv c s"
  then show ?thesis using Top sinv_returns [OF i] sinv_no_conn [OF i]
    by (auto simp: run_step_def) (auto simp: sinv_def sinv_defs)
next
  case DormantWait
  assume i: "sinv c s"
  have n: "conn s = None" using sinv_no_conn [OF i] DormantWait by auto
  show ?thesis using DormantWait i sinv_returns [OF i n] sinv_fresh(1) [OF i n]
    by (auto simp: run_step_def split: option.splits choice.splits dest: select_cases)
next
  case SuspendCheck
  assume i: "sinv c s"
  have n: "conn s = None" "\<not> dormant s" using sinv_no_conn [OF i] sinv_not_dormant [OF i] SuspendCheck by auto
  have "suspended s \<Longrightarrow> sinv c (s\<lparr>pc := SuspendWait\<rparr>)" using i n by (auto simp: sinv_def sinv_defs)
  then show ?thesis using SuspendCheck sinv_quiet(1) [OF i n] by (auto simp: run_step_def)
next
  case SuspendWait
  assume i: "sinv c s"
  have n: "conn s = None" "\<not> dormant s" using sinv_no_conn [OF i] sinv_not_dormant [OF i] SuspendWait by auto
  show ?thesis using SuspendWait i sinv_returns [OF i n(1)] sinv_fresh(2) [OF i n(1)] n(2)
    by (auto simp: run_step_def split: option.splits choice.splits dest: select_cases)
next
  case Publish
  assume i: "sinv c s"
  show ?thesis using Publish sinv_publish [OF i] sinv_returns [OF i] sinv_no_conn [OF i] by (auto simp: run_step_def)
next
  case (Backoff t w)
  assume i: "sinv c s"
  have n: "conn s = None" "\<not> dormant s" using sinv_no_conn [OF i] sinv_not_dormant [OF i] Backoff by auto
  show ?thesis using Backoff i sinv_returns [OF i n(1)] sinv_fresh(1) [OF i n(1)] sinv_timer [OF i Backoff] n(2)
    by (auto simp: run_step_def split: option.splits choice.splits dest: select_cases)
qed (auto simp: run_step_def sinv_obtain sinv_dial sinv_read sinv_lost)

lemma sinv_refresh:
  assumes "sinv c s" shows "sinv c (refresh_tick c e s)"
proof -
  obtain r s1 where r: "ensureToken c e s = (r, s1)" by fastforce
  obtain j x l where s1: "s1 = s\<lparr>jwt := j, jwtExpiry := x, sent_requests := l\<rparr>" using ensureToken_frame [OF r] by blast
  have i: "sinv c s1" using sinv_token [OF assms] s1 by simp
  have b: "sinv c (s1\<lparr>failBackoff := f\<rparr>)" "sinv c (s1\<lparr>lastFailure := v, failBackoff := f\<rparr>)"
    if "f = 0 \<or> minBackoff \<le> f \<and> f \<le> maxRefBackoff" for f v
    using i that by (auto simp: sinv_def sinv_defs)
  have "failBackoff s1 = 0 \<or> minBackoff \<le> failBackoff s1" using i by (auto simp: sinv_def inv_backoff_def)
  moreover have "0 < minBackoff" "minBackoff \<le> maxRefBackoff" by (simp_all add: minBackoff_def maxRefBackoff_def)
  ultimately show ?thesis
    using b assms r by (auto simp: refresh_tick_def split: sum.splits)
qed

lemma sinv_drop_link: "sinv c s \<Longrightarrow> sinv c (drop_link s)"
  by (cases "conn s") (auto simp: drop_link_def sinv_def sinv_defs)

lemma dormant_later:
  assumes "inv_dormant s" "0 \<le> d" shows "inv_dormant (s\<lparr>now := now s + d\<rparr>)"
proof -
  have "lastGood s \<le> now s + d" using assms by (simp add: inv_dormant_def)
  moreover have "lastGood s \<le> t \<and> t \<le> now s + d" if "failureStart s = Some t" for t
    using assms that by (auto simp: inv_dormant_def)
  moreover have "lastGood s + DormancyTimeout \<le> now s + d \<and> (pc s = Top \<or> pc s = DormantWait \<or> (\<exists>r. pc s = Returned r))"
    if "dormant s" using assms that by (simp add: inv_dormant_def)
  ultimately show ?thesis by (simp add: inv_dormant_def)
qed

lemma sinv_others:
  assumes "sinv c s"
  shows "sinv c (SignalActivity s)" "sinv c (Suspend s)" "sinv c (Resume_clear s)" "sinv c (Resume_signal s)"
    "sinv c (Close_client s)" "sinv c (snd (Send ok s))" "sinv c (cancel s)" "0 \<le> d \<Longrightarrow> sinv c (s\<lparr>now := now s + d\<rparr>)"
proof -
  show "sinv c (SignalActivity s)" using assms by (simp add: SignalActivity_def sinv_def sinv_defs)
  show "sinv c (Suspend s)" using assms
    by (cases "conn s") (auto simp: Suspend_def drop_link_def sinv_def sinv_defs)
  show "sinv c (Resume_clear s)" using assms by (auto simp: Resume_clear_def sinv_def sinv_defs)
  show "sinv c (Resume_signal s)" using assms by (auto simp: Resume_signal_def SignalActivity_def sinv_def sinv_defs)
  have "sinv c (s\<lparr>shut := True\<rparr>)" using assms by (simp add: sinv_def sinv_defs)
  then show "sinv c (Close_client s)" using assms sinv_drop_link by (auto simp: Close_client_def)
  show "sinv c (snd (Send ok s))" using assms sinv_drop_link by (auto simp: Send_def split: option.splits link.splits)
  show "sinv c (cancel s)" using assms
    by (cases "conn s") (auto simp: cancel_def drop_link_def sinv_def sinv_defs)
  show "0 \<le> d \<Longrightarrow> sinv c (s\<lparr>now := now s + d\<rparr>)" using assms dormant_later [of s d]
    by (simp add: sinv_def inv_offline_def inv_wake_def inv_backoff_def inv_return_def)
qed

interpretation client: machine "\<lambda>s. \<exists>t. s = NewSignalingClient c t" "sstep c" "sinv c" for c
proof unfold_locales
  show "sinv c s" if "\<exists>t. s = NewSignalingClient c t" for s
    using that by (auto simp: NewSignalingClient_def sinv_def sinv_defs)
  show "sinv c t" if "sinv c s" "sstep c s t" for s t
    using that(2,1) by (cases rule: sstep.cases) (auto simp: sinv_run sinv_refresh sinv_others)
qed

section \<open>Runs of the loop\<close>

fun run_steps :: "'m scfg \<Rightarrow> senv list \<Rightarrow> 'm sclient \<Rightarrow> 'm sclient" where
  "run_steps c [] s = s"
| "run_steps c (e # es) s = run_steps c es (run_step c e s)"

abbreviation sreach :: "'m scfg \<Rightarrow> 'm sclient \<Rightarrow> bool" where
  "sreach c \<equiv> reach (\<lambda>s. \<exists>t. s = NewSignalingClient c t) (sstep c)"

text \<open>How many steps a cancelled loop is from its end, at most.\<close>

fun rank :: "rpc \<Rightarrow> nat" where
  "rank (Returned r) = 0"
| "rank (Lost b x) = 1"
| "rank Top = 1"
| "rank (Serving t) = 2"
| "rank SuspendWait = 2"
| "rank (Backoff t w) = 2"
| "rank Publish = 3"
| "rank Dialing = 4"
| "rank Connect = 5"
| "rank SuspendCheck = 6"
| "rank DormantWait = 7"

lemma select_ready: "(True, x) \<in> set cs \<Longrightarrow> select_case n cs \<noteq> None"
  by (force simp: select_case_def Let_def filter_empty_conv)

lemma ensureToken_flags: "ensureToken c e s = (r, s1) \<Longrightarrow> cancelled s1 = cancelled s \<and> pc s1 = pc s"
  by (erule ensureToken_frame) simp

lemma cancelled_step:
  assumes "sinv c s" "cancelled s"
  shows "cancelled (run_step c e s) \<and> (rank (pc s) = 0 \<longrightarrow> run_step c e s = s) \<and>
    (0 < rank (pc s) \<longrightarrow> rank (pc (run_step c e s)) < rank (pc s))"
proof (cases "pc s")
  case Connect
  obtain r s1 where r: "ensureToken c e s = (r, s1)" by fastforce
  with Connect assms(2) ensureToken_flags [OF r] show ?thesis by (cases r) (auto simp: run_step_def obtain_token_def)
next
  case Dialing
  then show ?thesis using assms(2)
    by (auto simp: run_step_def dial_and_auth_def Let_def split: sum.splits)
next
  case (Serving t)
  have "conn s \<noteq> Some Up" using assms by (auto simp: sinv_def inv_offline_def)
  then show ?thesis using Serving assms(2) by (auto simp: run_step_def read_round_def split: option.splits link.splits)
next
  case DormantWait
  then show ?thesis using assms(2) select_ready [of Ctx "[(cancelled s, Ctx), (activitySignal s, Signal)]" "s_select e"]
    by (auto simp: run_step_def fresh_window_def split: choice.splits dest: select_cases)
next
  case SuspendWait
  then show ?thesis using assms(2) select_ready [of Ctx "[(cancelled s, Ctx), (activitySignal s, Signal)]" "s_select e"]
    by (auto simp: run_step_def fresh_window_def split: choice.splits dest: select_cases)
next
  case (Backoff t w)
  then show ?thesis using assms(2)
      select_ready [of Ctx "[(cancelled s, Ctx), (activitySignal s, Signal), (now s - t \<ge> w, Timer)]" "s_select e"]
    by (auto simp: run_step_def fresh_window_def split: choice.splits)
qed (use assms in \<open>auto simp: run_step_def publish_def after_loss_def\<close>)

lemma cancelled_run:
  assumes "sinv c s" "cancelled s" "rank (pc s) \<le> length es"
  shows "\<exists>r. pc (run_steps c es s) = Returned r"
  using assms
proof (induction es arbitrary: s)
  case Nil
  then show ?case by (cases "pc s") auto
next
  case (Cons e es)
  note st = cancelled_step [OF Cons.prems(1,2), of e]
  have "rank (pc (run_step c e s)) \<le> length es" using st Cons.prems(3) by (cases "rank (pc s)") auto
  then show ?case using Cons.IH [OF sinv_run [OF Cons.prems(1)]] st by simp
qed

lemma rank_le: "rank p \<le> 7" by (cases p) auto

section \<open>What is dialled\<close>

text \<open>Whatever the interleaving, every dial goes to the WebSocket form of the configured address, signed
  for that very URL (or unsigned without a secret), and the token is sent only after such a dial.\<close>

fun wire_ok :: "'m scfg \<Rightarrow> bool \<Rightarrow> sig_write list \<Rightarrow> bool" where
  "wire_ok c d [] = True"
| "wire_ok c d (DialWS u h # ws) \<longleftrightarrow> u = wsURL c \<and> (h = None \<or> s_hmac c \<noteq> '''') \<and> wire_ok c True ws"
| "wire_ok c d (AuthMsg t n # ws) \<longleftrightarrow> d \<and> n = s_host c \<and> wire_ok c False ws"

lemma wire_ok_dial:
  "wire_ok c d ws \<Longrightarrow> h = None \<or> s_hmac c \<noteq> '''' \<Longrightarrow> wire_ok c d (ws @ [DialWS (wsURL c) h])"
  "wire_ok c d ws \<Longrightarrow> h = None \<or> s_hmac c \<noteq> '''' \<Longrightarrow> wire_ok c d (ws @ [DialWS (wsURL c) h, AuthMsg t (s_host c)])"
  by (induction c d ws rule: wire_ok.induct) auto

lemma wire_ok_dials: "wire_ok c d ws \<Longrightarrow> DialWS u h \<in> set ws \<Longrightarrow> u = wsURL c"
  by (induction c d ws rule: wire_ok.induct) auto

lemma SignWebSocketHeaders_secret: "SignWebSocketHeaders up t r u '''' = None"
  by (simp add: SignWebSocketHeaders_def)

lemma wire_dial: "wire_ok c False (wrote s) \<Longrightarrow> wire_ok c False (wrote (dial_and_auth c e s))"
  using wire_ok_dial [of c False "wrote s" "SignWebSocketHeaders (url_path (s_http e)) (s_time e) (s_random e) (wsURL c) (s_hmac c)"]
  by (cases "s_hmac c = ''''") (auto simp: dial_and_auth_def Let_def SignWebSocketHeaders_secret split: sum.splits)

lemma ensureToken_wrote: "ensureToken c e s = (r, s1) \<Longrightarrow> wrote s1 = wrote s"
  by (erule ensureToken_frame) simp

lemma wire_run: "wire_ok c False (wrote s) \<Longrightarrow> wire_ok c False (wrote (run_step c e s))"
proof (cases "pc s")
  case Connect
  assume w: "wire_ok c False (wrote s)"
  obtain r s1 where r: "ensureToken c e s = (r, s1)" by fastforce
  then show ?thesis using Connect w ensureToken_wrote [OF r] by (cases r) (auto simp: run_step_def obtain_token_def)
qed (auto simp: run_step_def wire_dial publish_def read_round_def after_loss_def fresh_window_def Let_def
    split: option.splits choice.splits link.splits)

lemma wire_refresh: "wrote (refresh_tick c e s) = wrote s"
proof -
  obtain r s1 where r: "ensureToken c e s = (r, s1)" by fastforce
  then show ?thesis using ensureToken_wrote [OF r] by (auto simp: refresh_tick_def split: sum.splits)
qed

lemma wire_others [simp]:
  "wrote (SignalActivity s) = wrote s" "wrote (Suspend s) = wrote s" "wrote (Resume_clear s) = wrote s"
  "wrote (Resume_signal s) = wrote s" "wrote (Close_client s) = wrote s" "wrote (snd (Send wok s)) = wrote s"
  "wrote (cancel s) = wrote s"
  by (auto simp: SignalActivity_def Suspend_def Resume_clear_def Resume_signal_def Close_client_def Send_def cancel_def
      drop_link_def split: option.splits link.splits)

interpretation wires: machine "\<lambda>s. \<exists>t. s = NewSignalingClient c t" "sstep c" "\<lambda>s. wire_ok c False (wrote s)" for c
proof unfold_locales
  show "wire_ok c False (wrote s)" if "\<exists>t. s = NewSignalingClient c t" for s
    using that by (auto simp: NewSignalingClient_def)
  show "wire_ok c False (wrote t)" if "wire_ok c False (wrote s)" "sstep c s t" for s t
    using that(2,1) by (cases rule: sstep.cases) (auto simp: wire_run wire_refresh)
qed

lemma replace_first_later:
  assumes "\<forall>x \<in> set p. x \<noteq> o1"
  shows "replace_first (o1 # os) new (p @ r) = p @ replace_first (o1 # os) new r"
  using assms by (induction p) auto

lemma wsURL_tls:
  assumes "serverURL c = ''https://'' @ r" shows "\<exists>r'. wsURL c = ''wss://'' @ r'"
proof -
  have "replace_first ''https://'' ''wss://'' (serverURL c @ ''/ws'') = ''wss://'' @ r @ ''/ws''"
    using assms by simp
  then show ?thesis
    using replace_first_later [of "''wss://''" "CHR ''h''" "''ttp://''" "''ws://''" "r @ ''/ws''"] by (simp add: wsURL_def)
qed

theorem https_server_dialled_over_tls:
  assumes "sreach c s" "serverURL c = ''https://'' @ r" "DialWS u h \<in> set (wrote s)"
  shows "\<exists>r'. u = ''wss://'' @ r'"
  using wire_ok_dials [OF wires.inv_reach [OF assms(1)] assms(3)] wsURL_tls [OF assms(2)] by simp

section \<open>Properties\<close>

text \<open>Property C18. A sleeping host is offline, and waking it is never missed. In every interleaving: while
  the client is suspended, no published connection is open and \<open>Send\<close> delivers nothing; and
  whenever the loop waits for a resume although the client is no longer suspended, the wake-up
  signal is already there or the resume that cleared the flag is about to send it.\<close>

theorem suspended_is_offline:
  assumes "sreach c s"
  shows "(suspended s \<longrightarrow> conn s \<noteq> Some Up \<and> (\<forall>wok. \<not> fst (Send wok s))) \<and>
    (pc s = SuspendWait \<and> \<not> suspended s \<longrightarrow> activitySignal s \<or> resuming s > 0)"
  using client.inv_reach [OF assms]
  by (auto simp: sinv_def inv_offline_def inv_wake_def Send_def split: option.splits link.splits)

text \<open>Retries are paced. In every interleaving the back-off lies between its start and its
  maximum, the time waited before a retry is at least the back-off and at most half of it more, and
  the back-off of the token refresh is zero or between one and fifteen minutes. The client gives
  up (goes dormant) only when at least \<open>DormancyTimeout\<close> has passed since it last started afresh.\<close>

theorem backoff_bounded:
  assumes "sreach c s"
  shows "min (startBackoff c) maxBackoff \<le> backoff s \<and> backoff s \<le> max (startBackoff c) maxBackoff \<and>
    (\<forall>t w. pc s = Backoff t w \<longrightarrow> backoff s \<le> w \<and> w \<le> backoff s + backoff s div 2) \<and>
    (failBackoff s = 0 \<or> minBackoff \<le> failBackoff s \<and> failBackoff s \<le> maxRefBackoff) \<and>
    (dormant s \<longrightarrow> lastGood s + DormancyTimeout \<le> now s)"
  using client.inv_reach [OF assms] by (auto simp: sinv_def inv_backoff_def inv_dormant_def)

text \<open>Property C19. A cancelled loop ends. From every reachable state in which the context is cancelled,
  whatever the server does and whichever ready case each \<open>select\<close> takes, seven steps of the loop
  reach its end; and the loop is at its end only if it was cancelled or the server rejected the
  client's credentials for good.\<close>

theorem cancel_terminates:
  assumes "sreach c s"
  shows "(cancelled s \<and> 7 \<le> length es \<longrightarrow> (\<exists>r. pc (run_steps c es s) = Returned r)) \<and>
    (\<forall>r. pc s = Returned r \<longrightarrow> (case r of None \<Rightarrow> cancelled s | Some x \<Rightarrow> permanent x))"
proof -
  note i = client.inv_reach [OF assms]
  have "rank (pc s) \<le> length es" if "7 \<le> length es" using rank_le [of "pc s"] that by simp
  then show ?thesis
    using cancelled_run [OF i] i by (auto simp: sinv_def inv_return_def split: option.splits)
qed

text \<open>A wake-up leads to a connection attempt: from every reachable state in which the loop
  waits (dormant, suspended, between retries) or is about to check, with the activity signal
  pending, not cancelled and not suspended, at most three steps of the loop later it is connecting.\<close>

theorem wake_reconnects:
  assumes "sreach c s" and "activitySignal s" and "\<not> cancelled s" and "\<not> suspended s"
    and "pc s \<in> {Top, DormantWait, SuspendCheck, SuspendWait} \<or> (\<exists>t w. pc s = Backoff t w)"
  shows "\<exists>n\<le>3. pc (run_steps c (take n [e1, e2, e3]) s) = Connect"
proof -
  note i = client.inv_reach [OF assms(1)]
  have sel: "select_case n [(False, Ctx), (True, Signal)] = Some Signal" for n
    by (simp add: select_case_def)
  have tim: "select_case n [(False, Ctx), (True, Signal), (b, Timer)] \<in> {Some Signal, Some Timer}" for n b
    using select_ready [of Signal "[(False, Ctx), (True, Signal), (b, Timer)]" n] select_never(2) [of n True b]
    by (cases "select_case n [(False, Ctx), (True, Signal), (b, Timer)]"; cases "the (select_case n [(False, Ctx), (True, Signal), (b, Timer)])") auto
  have check: "pc (run_step c e t) = Connect" if "pc t = SuspendCheck" "\<not> suspended t" for e t
    using that by (simp add: run_step_def)
  have top: "pc (run_step c e t) = SuspendCheck \<and> \<not> suspended (run_step c e t)"
    if "pc t = Top" "\<not> suspended t" "\<not> cancelled t" "\<not> dormant t" for e t
    using that by (simp add: run_step_def)
  have dw: "pc (run_step c e t) = SuspendCheck \<and> \<not> suspended (run_step c e t)"
    if "pc t = DormantWait" "\<not> suspended t" "\<not> cancelled t" "activitySignal t" for e t
    using that by (simp add: run_step_def sel fresh_window_def)
  consider "pc s = SuspendCheck" | "pc s = DormantWait" | "pc s = Top" "dormant s" | "pc s = Top" "\<not> dormant s"
    | "pc s = SuspendWait" | t w where "pc s = Backoff t w"
    using assms(5) by blast
  then show ?thesis
  proof cases
    case 1
    then show ?thesis using check assms(4) by (intro exI [of _ 1]) simp
  next
    case 2
    then show ?thesis using check dw assms(2-4) by (intro exI [of _ 2]) (simp add: numeral_2_eq_2)
  next
    case 3
    then have "pc (run_step c e1 s) = DormantWait" "activitySignal (run_step c e1 s)" "\<not> suspended (run_step c e1 s)"
      "\<not> cancelled (run_step c e1 s)" using assms(2-4) by (simp_all add: run_step_def)
    then show ?thesis using check dw by (intro exI [of _ 3]) (simp add: numeral_3_eq_3)
  next
    case 4
    then show ?thesis using check top assms(3,4) by (intro exI [of _ 2]) (simp add: numeral_2_eq_2)
  next
    case 5
    then have "pc (run_step c e1 s) = Top" "\<not> suspended (run_step c e1 s)" "\<not> cancelled (run_step c e1 s)" "\<not> dormant (run_step c e1 s)"
      using assms(2-4) sinv_not_dormant [OF i] by (simp_all add: run_step_def sel fresh_window_def)
    then show ?thesis using check top by (intro exI [of _ 3]) (simp add: numeral_3_eq_3)
  next
    case (6 t w)
    have "pc (run_step c e1 s) = Top" "\<not> suspended (run_step c e1 s)" "\<not> cancelled (run_step c e1 s)" "\<not> dormant (run_step c e1 s)"
      using 6 assms(2-4) sinv_not_dormant [OF i] tim [of "s_select e1" "now s - t \<ge> w"]
      by (auto simp: run_step_def fresh_window_def)
    then show ?thesis using check top by (intro exI [of _ 3]) (simp add: numeral_3_eq_3)
  qed
qed

section \<open>Witnesses\<close>

definition demo_scfg :: "string scfg" where
  "demo_scfg = \<lparr>s_ident = demo_ident, s_url = ''https://h'', s_host = ''work'', s_hmac = '''', InitialBackoff = 0, s_parse = Some,
     s_type = (\<lambda>_. ''auth''), jexp = (\<lambda>_. None)\<rparr>"

definition demo_senv :: senv where
  "demo_senv = \<lparr>s_http = demo_httpenv, s_time = 0, s_random = [], s_dial = (\<lambda>_ _. Inr ()), s_authSent = True, s_authReply = AuthData ''a'', s_frame = None,
     s_jitter = 0, s_select = 0\<rparr>"

lemma demo_serverURL [simp]: "serverURL demo_scfg = ''https://h''"
  by (simp add: serverURL_def demo_scfg_def trim_right_def)

lemma demo_fields:
  "s_ident demo_scfg = demo_ident" "s_hmac demo_scfg = ''''" "s_parse demo_scfg = Some" "s_type demo_scfg = (\<lambda>_. ''auth'')"
  "jexp demo_scfg = (\<lambda>_. None)"
  by (simp_all add: demo_scfg_def)

abbreviation demo_client :: "string sclient" where "demo_client \<equiv> NewSignalingClient demo_scfg 0"

lemma demo_start: "sreach demo_scfg demo_client"
  by (rule reach.start) blast

lemma demo_moves: "sstep demo_scfg demo_client s \<Longrightarrow> sreach demo_scfg s"
  using reach.move [OF demo_start] .

lemma sreach_run: "sreach c s \<Longrightarrow> sreach c (run_steps c es s)"
  by (induction es arbitrary: s) (auto intro: reach.move sstep.run)

text \<open>\<open>Close\<close> closes the current socket but does not end the loop: a client that was closed before it
  connected is online five steps later.\<close>

lemma closed_client_reconnects: "\<exists>s. sreach demo_scfg s \<and> shut s \<and> conn s = Some Up"
proof -
  let ?s = "run_steps demo_scfg (replicate 5 demo_senv) (Close_client demo_client)"
  have "sreach demo_scfg ?s" by (rule sreach_run [OF demo_moves [OF sstep.close]])
  moreover have "shut ?s \<and> conn ?s = Some Up"
    using demo_exchange
    by (simp add: numeral_eq_Suc NewSignalingClient_def Close_client_def drop_link_def run_step_def obtain_token_def
        ensureToken_def token_valid_def demo_fields demo_senv_def dial_and_auth_def authenticate_ws_def publish_def Let_def)
  ultimately show ?thesis by blast
qed

theorem suspended_is_offline_witness:
  "suspended (Suspend demo_client) \<and> \<not> fst (Send True (Suspend demo_client))"
proof -
  have "suspended (Suspend demo_client)" by (simp add: Suspend_def drop_link_def NewSignalingClient_def)
  with suspended_is_offline [OF demo_moves [OF sstep.suspend]] show ?thesis by blast
qed

theorem backoff_bounded_witness: "initialBackoff \<le> backoff demo_client \<and> backoff demo_client \<le> maxBackoff"
  using backoff_bounded [OF demo_start]
  by (simp add: startBackoff_def demo_scfg_def initialBackoff_def maxBackoff_def second_def)

theorem cancel_terminates_witness:
  "\<exists>r. pc (run_steps demo_scfg (replicate 7 demo_senv) (cancel demo_client)) = Returned r"
proof -
  have "cancelled (cancel demo_client)" by (simp add: cancel_def drop_link_def)
  with cancel_terminates [OF demo_moves [OF sstep.cancel], of "replicate 7 demo_senv"] show ?thesis by simp
qed

theorem wake_reconnects_witness:
  "\<exists>n. n \<le> 3 \<and> pc (run_steps demo_scfg (take n [demo_senv, demo_senv, demo_senv]) (SignalActivity demo_client)) = Connect"
  using wake_reconnects [OF demo_moves [OF sstep.signal], of demo_senv demo_senv demo_senv]
  by (simp add: SignalActivity_def NewSignalingClient_def)

end
