(* ===== verification/Config.thy ===== *)
theory Config
  imports Go_Text
begin

text \<open>
  The configuration (\<open>internal/config/config.go\<close>): defaults, the overlay of the file and of the
  environment, with and without the record of where each value comes from, validation, the
  values derived from the settings, and the directories. The TOML decoder is the parameter
  \<open>toml\<close>; the environment is a map of variables, the result of reading the file a value of
  \<open>file_read\<close>.
\<close>

section \<open>Settings\<close>

record ServerConfig =
  URL :: string
  APIVersion :: string

record IdentityConfig =
  KeyPath :: string
  SecretBackend :: string

record ConnectionConfig =
  Reconnect :: string
  Keepalive :: string
  MaxMobileConnections :: int
  ForceRelay :: bool

record TmuxConfig =
  SocketName :: string
  TmuxPath :: string

record UpdateConfig =
  Enabled :: bool
  CheckInterval :: string

record PowerConfig =
  KeepAwake :: bool

record Config =
  Name :: string
  LogLevel :: string
  Server :: ServerConfig
  Ident :: IdentityConfig
  Connection :: ConnectionConfig
  Tmux :: TmuxConfig
  Updates :: UpdateConfig
  Power :: PowerConfig

text \<open>The file: where an absent key must be told from a zero value the field is a pointer.\<close>

record fileServerConfig =
  URL_f :: string
  APIVersion_f :: "string option"

record fileConnectionConfig =
  Reconnect_f :: string
  Keepalive_f :: string
  MaxMobileConnections_f :: int
  ForceRelay_f :: "bool option"

record fileUpdateConfig =
  Enabled_f :: "bool option"
  CheckInterval_f :: string

record filePowerConfig =
  KeepAwake_f :: "bool option"

record fileConfig =
  Name_f :: string
  LogLevel_f :: string
  Server_f :: fileServerConfig
  Ident_f :: IdentityConfig
  Connection_f :: fileConnectionConfig
  Tmux_f :: TmuxConfig
  Updates_f :: fileUpdateConfig
  Power_f :: filePowerConfig

datatype configSource = sourceDefault | sourceFile | sourceEnv

definition source_String :: "configSource \<Rightarrow> string" where
  "source_String s = (case s of sourceFile \<Rightarrow> ''file'' | sourceEnv \<Rightarrow> ''env'' | _ \<Rightarrow> ''default'')"

record ConfigSources =
  ServerURL_s :: configSource
  APIVersion_s :: configSource
  KeyPath_s :: configSource
  SecretBackend_s :: configSource
  Reconnect_s :: configSource
  Keepalive_s :: configSource
  MaxMobileConnections_s :: configSource
  ForceRelay_s :: configSource
  SocketName_s :: configSource
  TmuxPath_s :: configSource
  Name_s :: configSource
  LogLevel_s :: configSource
  UpdateEnabled_s :: configSource
  UpdateCheckInterval_s :: configSource
  KeepAwake_s :: configSource

definition no_sources :: ConfigSources where
  "no_sources = \<lparr>ServerURL_s = sourceDefault, APIVersion_s = sourceDefault, KeyPath_s = sourceDefault,
     SecretBackend_s = sourceDefault, Reconnect_s = sourceDefault, Keepalive_s = sourceDefault,
     MaxMobileConnections_s = sourceDefault, ForceRelay_s = sourceDefault, SocketName_s = sourceDefault,
     TmuxPath_s = sourceDefault, Name_s = sourceDefault, LogLevel_s = sourceDefault,
     UpdateEnabled_s = sourceDefault, UpdateCheckInterval_s = sourceDefault, KeepAwake_s = sourceDefault\<rparr>"

definition defaultServerURL :: string where "defaultServerURL = ''https://signal.pmux.io''"

definition Defaults :: Config where
  "Defaults = \<lparr>Name = '''', LogLevel = ''info'',
     Server = \<lparr>URL = defaultServerURL, APIVersion = ''v1''\<rparr>,
     Ident = \<lparr>KeyPath = ''~/.config/pmux/keys/'', SecretBackend = ''auto''\<rparr>,
     Connection = \<lparr>Reconnect = ''5s'', Keepalive = ''30s'', MaxMobileConnections = 1, ForceRelay = False\<rparr>,
     Tmux = \<lparr>SocketName = ''pmux'', TmuxPath = ''''\<rparr>,
     Updates = \<lparr>Enabled = True, CheckInterval = ''24h''\<rparr>,
     Power = \<lparr>KeepAwake = False\<rparr>\<rparr>"

section \<open>Overlays\<close>

text \<open>A value that was given replaces the one below it. The fields are independent, so each
  \<open>if\<close> of the source is the new value of its field.\<close>

definition unless_empty :: "string \<Rightarrow> string \<Rightarrow> string" where
  "unless_empty v old = (if v \<noteq> '''' then v else old)"

definition unless_nil :: "'a option \<Rightarrow> 'a \<Rightarrow> 'a" where
  "unless_nil p old = (case p of None \<Rightarrow> old | Some v \<Rightarrow> v)"

definition mark :: "bool \<Rightarrow> configSource \<Rightarrow> configSource \<Rightarrow> configSource" where
  "mark given src old = (if given then src else old)"

definition overlayFile :: "Config \<Rightarrow> fileConfig \<Rightarrow> Config" where
  "overlayFile cfg f = cfg\<lparr>
     Name := unless_empty (Name_f f) (Name cfg),
     LogLevel := unless_empty (LogLevel_f f) (LogLevel cfg),
     Server := (Server cfg)\<lparr>
       URL := unless_empty (URL_f (Server_f f)) (URL (Server cfg)),
       APIVersion := unless_nil (APIVersion_f (Server_f f)) (APIVersion (Server cfg))\<rparr>,
     Ident := (Ident cfg)\<lparr>
       KeyPath := unless_empty (KeyPath (Ident_f f)) (KeyPath (Ident cfg)),
       SecretBackend := unless_empty (SecretBackend (Ident_f f)) (SecretBackend (Ident cfg))\<rparr>,
     Connection := (Connection cfg)\<lparr>
       Reconnect := unless_empty (Reconnect_f (Connection_f f)) (Reconnect (Connection cfg)),
       Keepalive := unless_empty (Keepalive_f (Connection_f f)) (Keepalive (Connection cfg)),
       MaxMobileConnections := (if MaxMobileConnections_f (Connection_f f) \<noteq> 0
         then MaxMobileConnections_f (Connection_f f) else MaxMobileConnections (Connection cfg)),
       ForceRelay := unless_nil (ForceRelay_f (Connection_f f)) (ForceRelay (Connection cfg))\<rparr>,
     Tmux := (Tmux cfg)\<lparr>
       SocketName := unless_empty (SocketName (Tmux_f f)) (SocketName (Tmux cfg)),
       TmuxPath := unless_empty (TmuxPath (Tmux_f f)) (TmuxPath (Tmux cfg))\<rparr>,
     Updates := (Updates cfg)\<lparr>
       CheckInterval := unless_empty (CheckInterval_f (Updates_f f)) (CheckInterval (Updates cfg)),
       Enabled := unless_nil (Enabled_f (Updates_f f)) (Enabled (Updates cfg))\<rparr>,
     Power := (Power cfg)\<lparr>
       KeepAwake := unless_nil (KeepAwake_f (Power_f f)) (KeepAwake (Power cfg))\<rparr>\<rparr>"

definition overlayFileTracked :: "Config \<Rightarrow> fileConfig \<Rightarrow> ConfigSources \<Rightarrow> Config \<times> ConfigSources" where
  "overlayFileTracked cfg f s =
     (cfg\<lparr>
        Name := unless_empty (Name_f f) (Name cfg),
        LogLevel := unless_empty (LogLevel_f f) (LogLevel cfg),
        Server := (Server cfg)\<lparr>
          URL := unless_empty (URL_f (Server_f f)) (URL (Server cfg)),
          APIVersion := unless_nil (APIVersion_f (Server_f f)) (APIVersion (Server cfg))\<rparr>,
        Ident := (Ident cfg)\<lparr>
          KeyPath := unless_empty (KeyPath (Ident_f f)) (KeyPath (Ident cfg)),
          SecretBackend := unless_empty (SecretBackend (Ident_f f)) (SecretBackend (Ident cfg))\<rparr>,
        Connection := (Connection cfg)\<lparr>
          Reconnect := unless_empty (Reconnect_f (Connection_f f)) (Reconnect (Connection cfg)),
          Keepalive := unless_empty (Keepalive_f (Connection_f f)) (Keepalive (Connection cfg)),
          MaxMobileConnections := (if MaxMobileConnections_f (Connection_f f) \<noteq> 0
            then MaxMobileConnections_f (Connection_f f) else MaxMobileConnections (Connection cfg)),
          ForceRelay := unless_nil (ForceRelay_f (Connection_f f)) (ForceRelay (Connection cfg))\<rparr>,
        Tmux := (Tmux cfg)\<lparr>
          SocketName := unless_empty (SocketName (Tmux_f f)) (SocketName (Tmux cfg)),
          TmuxPath := unless_empty (TmuxPath (Tmux_f f)) (TmuxPath (Tmux cfg))\<rparr>,
        Updates := (Updates cfg)\<lparr>
          CheckInterval := unless_empty (CheckInterval_f (Updates_f f)) (CheckInterval (Updates cfg)),
          Enabled := unless_nil (Enabled_f (Updates_f f)) (Enabled (Updates cfg))\<rparr>,
        Power := (Power cfg)\<lparr>
          KeepAwake := unless_nil (KeepAwake_f (Power_f f)) (KeepAwake (Power cfg))\<rparr>\<rparr>,
      s\<lparr>
        Name_s := mark (Name_f f \<noteq> '''') sourceFile (Name_s s),
        LogLevel_s := mark (LogLevel_f f \<noteq> '''') sourceFile (LogLevel_s s),
        ServerURL_s := mark (URL_f (Server_f f) \<noteq> '''') sourceFile (ServerURL_s s),
        APIVersion_s := mark (APIVersion_f (Server_f f) \<noteq> None) sourceFile (APIVersion_s s),
        KeyPath_s := mark (KeyPath (Ident_f f) \<noteq> '''') sourceFile (KeyPath_s s),
        SecretBackend_s := mark (SecretBackend (Ident_f f) \<noteq> '''') sourceFile (SecretBackend_s s),
        Reconnect_s := mark (Reconnect_f (Connection_f f) \<noteq> '''') sourceFile (Reconnect_s s),
        Keepalive_s := mark (Keepalive_f (Connection_f f) \<noteq> '''') sourceFile (Keepalive_s s),
        MaxMobileConnections_s := mark (MaxMobileConnections_f (Connection_f f) \<noteq> 0) sourceFile (MaxMobileConnections_s s),
        ForceRelay_s := mark (ForceRelay_f (Connection_f f) \<noteq> None) sourceFile (ForceRelay_s s),
        SocketName_s := mark (SocketName (Tmux_f f) \<noteq> '''') sourceFile (SocketName_s s),
        TmuxPath_s := mark (TmuxPath (Tmux_f f) \<noteq> '''') sourceFile (TmuxPath_s s),
        UpdateCheckInterval_s := mark (CheckInterval_f (Updates_f f) \<noteq> '''') sourceFile (UpdateCheckInterval_s s),
        UpdateEnabled_s := mark (Enabled_f (Updates_f f) \<noteq> None) sourceFile (UpdateEnabled_s s),
        KeepAwake_s := mark (KeepAwake_f (Power_f f) \<noteq> None) sourceFile (KeepAwake_s s)\<rparr>)"

type_synonym environ = "string \<Rightarrow> string option"

definition Getenv :: "environ \<Rightarrow> string \<Rightarrow> string" where
  "Getenv env k = (case env k of None \<Rightarrow> '''' | Some v \<Rightarrow> v)"

definition EnvServerURL :: string where "EnvServerURL = ''PMUX_AGENT_SIGNAL_URL''"
definition EnvNewServerURL :: string where "EnvNewServerURL = ''PMUX_SERVER_URL''"
definition EnvAPIVersion :: string where "EnvAPIVersion = ''PMUX_API_VERSION''"
definition EnvKeyPath :: string where "EnvKeyPath = ''PMUX_KEY_PATH''"
definition EnvSocketName :: string where "EnvSocketName = ''PMUX_SOCKET_NAME''"
definition EnvMaxConnections :: string where "EnvMaxConnections = ''PMUX_MAX_CONNECTIONS''"
definition EnvSecretBackend :: string where "EnvSecretBackend = ''PMUX_SECRET_BACKEND''"
definition EnvTmuxPath :: string where "EnvTmuxPath = ''PMUX_TMUX_PATH''"
definition EnvLogLevel :: string where "EnvLogLevel = ''PMUX_LOG_LEVEL''"
definition EnvUpdateEnabled :: string where "EnvUpdateEnabled = ''PMUX_UPDATE_ENABLED''"
definition EnvUpdateInterval :: string where "EnvUpdateInterval = ''PMUX_UPDATE_INTERVAL''"
definition EnvForceRelay :: string where "EnvForceRelay = ''PMUX_FORCE_RELAY''"
definition EnvKeepAwake :: string where "EnvKeepAwake = ''PMUX_KEEP_AWAKE''"

definition truthy :: "string \<Rightarrow> bool" where
  "truthy v \<longleftrightarrow> v = ''true'' \<or> v = ''1'' \<or> v = ''yes''"

definition env_flag :: "environ \<Rightarrow> string \<Rightarrow> bool \<Rightarrow> bool" where
  "env_flag env k old = (if Getenv env k \<noteq> '''' then truthy (Getenv env k) else old)"

definition applyEnvOverrides :: "environ \<Rightarrow> Config \<Rightarrow> Config" where
  "applyEnvOverrides env cfg = cfg\<lparr>
     Server := (Server cfg)\<lparr>
       URL := (if Getenv env EnvNewServerURL \<noteq> '''' then Getenv env EnvNewServerURL
               else if Getenv env EnvServerURL \<noteq> '''' then Getenv env EnvServerURL else URL (Server cfg)),
       APIVersion := unless_nil (env EnvAPIVersion) (APIVersion (Server cfg))\<rparr>,
     Ident := (Ident cfg)\<lparr>
       KeyPath := unless_empty (Getenv env EnvKeyPath) (KeyPath (Ident cfg)),
       SecretBackend := unless_empty (Getenv env EnvSecretBackend) (SecretBackend (Ident cfg))\<rparr>,
     Tmux := (Tmux cfg)\<lparr>
       SocketName := unless_empty (Getenv env EnvSocketName) (SocketName (Tmux cfg)),
       TmuxPath := unless_empty (Getenv env EnvTmuxPath) (TmuxPath (Tmux cfg))\<rparr>,
     Connection := (Connection cfg)\<lparr>
       MaxMobileConnections :=
         (if Getenv env EnvMaxConnections \<noteq> '''' \<and> snd (parse_int (Getenv env EnvMaxConnections)) = None
          then fst (parse_int (Getenv env EnvMaxConnections)) else MaxMobileConnections (Connection cfg)),
       ForceRelay := env_flag env EnvForceRelay (ForceRelay (Connection cfg))\<rparr>,
     LogLevel := unless_empty (Getenv env EnvLogLevel) (LogLevel cfg),
     Updates := (Updates cfg)\<lparr>
       Enabled := env_flag env EnvUpdateEnabled (Enabled (Updates cfg)),
       CheckInterval := unless_empty (Getenv env EnvUpdateInterval) (CheckInterval (Updates cfg))\<rparr>,
     Power := (Power cfg)\<lparr>KeepAwake := env_flag env EnvKeepAwake (KeepAwake (Power cfg))\<rparr>\<rparr>"

definition applyEnvOverridesTracked :: "environ \<Rightarrow> Config \<Rightarrow> ConfigSources \<Rightarrow> Config \<times> ConfigSources" where
  "applyEnvOverridesTracked env cfg s =
     (cfg\<lparr>
        Server := (Server cfg)\<lparr>
          URL := (if Getenv env EnvNewServerURL \<noteq> '''' then Getenv env EnvNewServerURL
                  else if Getenv env EnvServerURL \<noteq> '''' then Getenv env EnvServerURL else URL (Server cfg)),
          APIVersion := unless_nil (env EnvAPIVersion) (APIVersion (Server cfg))\<rparr>,
        Ident := (Ident cfg)\<lparr>
          KeyPath := unless_empty (Getenv env EnvKeyPath) (KeyPath (Ident cfg)),
          SecretBackend := unless_empty (Getenv env EnvSecretBackend) (SecretBackend (Ident cfg))\<rparr>,
        Tmux := (Tmux cfg)\<lparr>
          SocketName := unless_empty (Getenv env EnvSocketName) (SocketName (Tmux cfg)),
          TmuxPath := unless_empty (Getenv env EnvTmuxPath) (TmuxPath (Tmux cfg))\<rparr>,
        Connection := (Connection cfg)\<lparr>
          MaxMobileConnections :=
            (if Getenv env EnvMaxConnections \<noteq> '''' \<and> snd (parse_int (Getenv env EnvMaxConnections)) = None
             then fst (parse_int (Getenv env EnvMaxConnections)) else MaxMobileConnections (Connection cfg)),
          ForceRelay := env_flag env EnvForceRelay (ForceRelay (Connection cfg))\<rparr>,
        LogLevel := unless_empty (Getenv env EnvLogLevel) (LogLevel cfg),
        Updates := (Updates cfg)\<lparr>
          Enabled := env_flag env EnvUpdateEnabled (Enabled (Updates cfg)),
          CheckInterval := unless_empty (Getenv env EnvUpdateInterval) (CheckInterval (Updates cfg))\<rparr>,
        Power := (Power cfg)\<lparr>KeepAwake := env_flag env EnvKeepAwake (KeepAwake (Power cfg))\<rparr>\<rparr>,
      s\<lparr>
        ServerURL_s := mark (Getenv env EnvNewServerURL \<noteq> '''' \<or> Getenv env EnvServerURL \<noteq> '''') sourceEnv (ServerURL_s s),
        APIVersion_s := mark (env EnvAPIVersion \<noteq> None) sourceEnv (APIVersion_s s),
        KeyPath_s := mark (Getenv env EnvKeyPath \<noteq> '''') sourceEnv (KeyPath_s s),
        SocketName_s := mark (Getenv env EnvSocketName \<noteq> '''') sourceEnv (SocketName_s s),
        TmuxPath_s := mark (Getenv env EnvTmuxPath \<noteq> '''') sourceEnv (TmuxPath_s s),
        SecretBackend_s := mark (Getenv env EnvSecretBackend \<noteq> '''') sourceEnv (SecretBackend_s s),
        MaxMobileConnections_s := mark (Getenv env EnvMaxConnections \<noteq> '''' \<and>
          snd (parse_int (Getenv env EnvMaxConnections)) = None) sourceEnv (MaxMobileConnections_s s),
        LogLevel_s := mark (Getenv env EnvLogLevel \<noteq> '''') sourceEnv (LogLevel_s s),
        UpdateEnabled_s := mark (Getenv env EnvUpdateEnabled \<noteq> '''') sourceEnv (UpdateEnabled_s s),
        UpdateCheckInterval_s := mark (Getenv env EnvUpdateInterval \<noteq> '''') sourceEnv (UpdateCheckInterval_s s),
        ForceRelay_s := mark (Getenv env EnvForceRelay \<noteq> '''') sourceEnv (ForceRelay_s s),
        KeepAwake_s := mark (Getenv env EnvKeepAwake \<noteq> '''') sourceEnv (KeepAwake_s s)\<rparr>)"

section \<open>Loading\<close>

datatype file_read = NotExist | ReadFailed | Contents bytes

datatype config_error =
    EReadConfig | EParseConfig
  | EServerURLEmpty | EServerURLScheme string | EAPIVersion string | ESecretBackend string
  | EReconnectInterval duration_error | EKeepaliveInterval duration_error | EKeepaliveNotPositive string
  | EMaxConnections | ESocketName | ECheckInterval duration_error | ECheckIntervalNotPositive string
  | ELogLevel string
  | EHomeDir | EMkdirConfig | EMkdirKeys | EMarshalConfig | EWriteConfig

definition LoadConfig :: "(bytes \<Rightarrow> fileConfig option) \<Rightarrow> environ \<Rightarrow> file_read \<Rightarrow> config_error + Config" where
  "LoadConfig toml env r = (case r of
      NotExist \<Rightarrow> Inr (applyEnvOverrides env Defaults)
    | ReadFailed \<Rightarrow> Inl EReadConfig
    | Contents data \<Rightarrow> (case toml data of
          None \<Rightarrow> Inl EParseConfig
        | Some f \<Rightarrow> Inr (applyEnvOverrides env (overlayFile Defaults f))))"

definition LoadConfigWithSources ::
    "(bytes \<Rightarrow> fileConfig option) \<Rightarrow> environ \<Rightarrow> file_read \<Rightarrow> config_error + Config \<times> ConfigSources" where
  "LoadConfigWithSources toml env r = (case r of
      NotExist \<Rightarrow> Inr (applyEnvOverridesTracked env Defaults no_sources)
    | ReadFailed \<Rightarrow> Inl EReadConfig
    | Contents data \<Rightarrow> (case toml data of
          None \<Rightarrow> Inl EParseConfig
        | Some f \<Rightarrow> (let (cfg, s) = overlayFileTracked Defaults f no_sources
                     in Inr (applyEnvOverridesTracked env cfg s))))"

section \<open>Validation and derived values\<close>

definition Validate_config :: "Config \<Rightarrow> config_error option" where
  "Validate_config c =
     (if URL (Server c) = '''' then Some EServerURLEmpty
      else if \<not> (has_prefix (URL (Server c)) ''ws://'' \<or> has_prefix (URL (Server c)) ''wss://'' \<or>
                 has_prefix (URL (Server c)) ''http://'' \<or> has_prefix (URL (Server c)) ''https://'')
        then Some (EServerURLScheme (URL (Server c)))
      else if APIVersion (Server c) \<noteq> '''' \<and> APIVersion (Server c) \<noteq> ''v1'' then Some (EAPIVersion (APIVersion (Server c)))
      else if SecretBackend (Ident c) \<notin> {''auto'', ''keyring'', ''file''} then Some (ESecretBackend (SecretBackend (Ident c)))
      else case ParseDuration (Reconnect (Connection c)) of
        Inl e \<Rightarrow> Some (EReconnectInterval e)
      | Inr _ \<Rightarrow> (case ParseDuration (Keepalive (Connection c)) of
          Inl e \<Rightarrow> Some (EKeepaliveInterval e)
        | Inr d \<Rightarrow>
            if d \<le> 0 then Some (EKeepaliveNotPositive (Keepalive (Connection c)))
            else if MaxMobileConnections (Connection c) \<noteq> 1 then Some EMaxConnections
            else if SocketName (Tmux c) = '''' then Some ESocketName
            else
              (let check = (if CheckInterval (Updates c) = '''' then None
                 else (case ParseDuration (CheckInterval (Updates c)) of
                   Inl e \<Rightarrow> Some (ECheckInterval e)
                 | Inr u \<Rightarrow> if u \<le> 0 then Some (ECheckIntervalNotPositive (CheckInterval (Updates c))) else None))
               in if check \<noteq> None then check
                  else if to_lower (LogLevel c) \<notin> {''debug'', ''info'', ''warn'', ''error''} then Some (ELogLevel (LogLevel c))
                  else None)))"

definition ReconnectInterval :: "Config \<Rightarrow> int" where
  "ReconnectInterval c = (case ParseDuration (Reconnect (Connection c)) of Inl _ \<Rightarrow> 5 * second_ns | Inr d \<Rightarrow> d)"

definition MaxKeepaliveInterval :: int where "MaxKeepaliveInterval = 45 * second_ns"

definition parsedKeepalive :: "Config \<Rightarrow> int \<times> bool" where
  "parsedKeepalive c = (case ParseDuration (Keepalive (Connection c)) of Inl _ \<Rightarrow> (0, False) | Inr d \<Rightarrow> (d, d > 0))"

definition KeepaliveInterval :: "Config \<Rightarrow> int" where
  "KeepaliveInterval c =
     (let (d, ok) = parsedKeepalive c in
      if \<not> ok then 30 * second_ns else if d > MaxKeepaliveInterval then MaxKeepaliveInterval else d)"

definition KeepaliveClamped :: "Config \<Rightarrow> bool" where
  "KeepaliveClamped c = (let (d, ok) = parsedKeepalive c in ok \<and> d > MaxKeepaliveInterval)"

definition UpdateCheckInterval :: "Config \<Rightarrow> int" where
  "UpdateCheckInterval c = (case ParseDuration (CheckInterval (Updates c)) of
      Inl _ \<Rightarrow> 24 * hour_ns | Inr d \<Rightarrow> if d \<le> 0 then 24 * hour_ns else d)"

definition ServerURL :: "Config \<Rightarrow> string" where "ServerURL c = URL (Server c)"

definition APIBaseURL :: "Config \<Rightarrow> string" where
  "APIBaseURL c =
     (let base = trim_right slash (URL (Server c)) in
      if APIVersion (Server c) = '''' then base else base @ slash # APIVersion (Server c))"

definition ParseLogLevel :: "Config \<Rightarrow> int" where
  "ParseLogLevel c =
     (let l = to_lower (LogLevel c) in
      if l = ''debug'' then - 4 else if l = ''info'' then 0 else if l = ''warn'' then 4
      else if l = ''error'' then 8 else 0)"

definition show_bool :: "bool \<Rightarrow> string" where
  "show_bool b = (if b then ''true'' else ''false'')"

definition setting_line :: "string \<Rightarrow> string \<Rightarrow> configSource \<Rightarrow> string" where
  "setting_line k v s = k @ '' = '' @ v @ ''  ('' @ source_String s @ '')'' @ [CHR 0x0A]"

definition FormatEffective :: "(bytes \<Rightarrow> bool) \<Rightarrow> Config \<Rightarrow> ConfigSources \<Rightarrow> string" where
  "FormatEffective prn c s = concat
     [setting_line ''name'' (quote prn (Name c)) (Name_s s),
      setting_line ''log_level'' (quote prn (LogLevel c)) (LogLevel_s s),
      setting_line ''server.url'' (quote prn (URL (Server c))) (ServerURL_s s),
      setting_line ''server.api_version'' (quote prn (APIVersion (Server c))) (APIVersion_s s),
      setting_line ''identity.key_path'' (quote prn (KeyPath (Ident c))) (KeyPath_s s),
      setting_line ''identity.secret_backend'' (quote prn (SecretBackend (Ident c))) (SecretBackend_s s),
      setting_line ''connection.reconnect_interval'' (quote prn (Reconnect (Connection c))) (Reconnect_s s),
      setting_line ''connection.keepalive_interval''
        (quote prn (Keepalive (Connection c)) @ (if KeepaliveClamped c then '' [clamped to 45s]'' else '''')) (Keepalive_s s),
      setting_line ''connection.max_mobile_connections'' (itoa (MaxMobileConnections (Connection c))) (MaxMobileConnections_s s),
      setting_line ''connection.force_relay'' (show_bool (ForceRelay (Connection c))) (ForceRelay_s s),
      setting_line ''tmux.socket_name'' (quote prn (SocketName (Tmux c))) (SocketName_s s),
      setting_line ''tmux.tmux_path'' (quote prn (TmuxPath (Tmux c))) (TmuxPath_s s),
      setting_line ''update.enabled'' (show_bool (Enabled (Updates c))) (UpdateEnabled_s s),
      setting_line ''update.check_interval'' (quote prn (CheckInterval (Updates c))) (UpdateCheckInterval_s s),
      setting_line ''power.keep_awake'' (show_bool (KeepAwake (Power c))) (KeepAwake_s s)]"

section \<open>Directories\<close>

record Paths =
  ConfigDir :: string
  KeysDir :: string
  PairedDevices :: string
  ConfigFile :: string

text \<open>\<open>os.UserHomeDir\<close> on Unix.\<close>

definition UserHomeDir :: "environ \<Rightarrow> string option" where
  "UserHomeDir env = (let h = Getenv env ''HOME'' in if h = '''' then None else Some h)"

definition DefaultPaths :: "environ \<Rightarrow> config_error + Paths" where
  "DefaultPaths env = (case UserHomeDir env of
      None \<Rightarrow> Inl EHomeDir
    | Some home \<Rightarrow>
        let configDir = Join [home, ''.config'', ''pmux'']
        in Inr \<lparr>ConfigDir = configDir, KeysDir = Join [configDir, ''keys''],
                PairedDevices = Join [configDir, ''paired_devices.json''],
                ConfigFile = Join [configDir, ''config.toml'']\<rparr>)"

definition WithKeyPath :: "environ \<Rightarrow> Paths \<Rightarrow> string \<Rightarrow> config_error + Paths" where
  "WithKeyPath env p keyPath =
     (if keyPath = '''' then Inr p
      else bindE
        (if keyPath = ''~'' \<or> has_prefix keyPath ''~/''
         then (case UserHomeDir env of None \<Rightarrow> Inl EHomeDir | Some home \<Rightarrow> Inr (Join [home, tl keyPath]))
         else Inr keyPath)
        (\<lambda>k. let k' = (if IsAbs k then k else Join [ConfigDir p, k])
             in Inr (p\<lparr>KeysDir := Clean k'\<rparr>)))"

text \<open>\<open>EnsureDirs\<close> with the answers of \<open>os.MkdirAll\<close>; the second component lists the calls.\<close>

definition EnsureDirs :: "(string \<Rightarrow> bool) \<Rightarrow> Paths \<Rightarrow> config_error option \<times> string list" where
  "EnsureDirs mkdir p =
     (if \<not> mkdir (ConfigDir p) then (Some EMkdirConfig, [ConfigDir p])
      else if \<not> mkdir (KeysDir p) then (Some EMkdirKeys, [ConfigDir p, KeysDir p])
      else (None, [ConfigDir p, KeysDir p]))"

text \<open>\<open>saveConfig\<close> with the TOML encoder as a parameter; the second component is the file afterwards
  if the write succeeded.\<close>

definition saveConfig :: "(Config \<Rightarrow> bytes option) \<Rightarrow> bool \<Rightarrow> Config \<Rightarrow> config_error option \<times> bytes option" where
  "saveConfig marshal wok cfg = (case marshal cfg of
      None \<Rightarrow> (Some EMarshalConfig, None)
    | Some data \<Rightarrow> if wok then (None, Some data) else (Some EWriteConfig, None))"

definition DefaultHostName :: "string option \<Rightarrow> string" where
  "DefaultHostName host = (case host of None \<Rightarrow> ''my-host'' | Some n \<Rightarrow> n)"

section \<open>Precedence of environment, file and default\<close>

text \<open>The specification: every setting has a value in the environment, a value in the file and a
  default; the first that is given counts.\<close>

fun first_given :: "'a option list \<Rightarrow> 'a \<Rightarrow> 'a" where
  "first_given [] d = d"
| "first_given (None # os) d = first_given os d"
| "first_given (Some v # os) d = v"

fun first_source :: "'a option \<Rightarrow> 'a option \<Rightarrow> configSource" where
  "first_source (Some _) _ = sourceEnv"
| "first_source None (Some _) = sourceFile"
| "first_source None None = sourceDefault"

definition given :: "string \<Rightarrow> string option" where
  "given s = (if s = '''' then None else Some s)"

definition given_env :: "environ \<Rightarrow> string \<Rightarrow> string option" where
  "given_env env k = given (Getenv env k)"

definition given_flag :: "environ \<Rightarrow> string \<Rightarrow> bool option" where
  "given_flag env k = map_option truthy (given_env env k)"

definition given_url :: "environ \<Rightarrow> string option" where
  "given_url env = (if given_env env EnvNewServerURL \<noteq> None then given_env env EnvNewServerURL else given_env env EnvServerURL)"

definition given_count :: "environ \<Rightarrow> int option" where
  "given_count env = (case given_env env EnvMaxConnections of None \<Rightarrow> None
     | Some v \<Rightarrow> if snd (parse_int v) = None then Some (fst (parse_int v)) else None)"

definition effective :: "environ \<Rightarrow> fileConfig \<Rightarrow> Config" where
  "effective env f = \<lparr>
     Name = first_given [given (Name_f f)] '''',
     LogLevel = first_given [given_env env EnvLogLevel, given (LogLevel_f f)] ''info'',
     Server = \<lparr>
       URL = first_given [given_url env, given (URL_f (Server_f f))] defaultServerURL,
       APIVersion = first_given [env EnvAPIVersion, APIVersion_f (Server_f f)] ''v1''\<rparr>,
     Ident = \<lparr>
       KeyPath = first_given [given_env env EnvKeyPath, given (KeyPath (Ident_f f))] ''~/.config/pmux/keys/'',
       SecretBackend = first_given [given_env env EnvSecretBackend, given (SecretBackend (Ident_f f))] ''auto''\<rparr>,
     Connection = \<lparr>
       Reconnect = first_given [given (Reconnect_f (Connection_f f))] ''5s'',
       Keepalive = first_given [given (Keepalive_f (Connection_f f))] ''30s'',
       MaxMobileConnections = first_given [given_count env,
         (if MaxMobileConnections_f (Connection_f f) = 0 then None else Some (MaxMobileConnections_f (Connection_f f)))] 1,
       ForceRelay = first_given [given_flag env EnvForceRelay, ForceRelay_f (Connection_f f)] False\<rparr>,
     Tmux = \<lparr>
       SocketName = first_given [given_env env EnvSocketName, given (SocketName (Tmux_f f))] ''pmux'',
       TmuxPath = first_given [given_env env EnvTmuxPath, given (TmuxPath (Tmux_f f))] ''''\<rparr>,
     Updates = \<lparr>
       Enabled = first_given [given_flag env EnvUpdateEnabled, Enabled_f (Updates_f f)] True,
       CheckInterval = first_given [given_env env EnvUpdateInterval, given (CheckInterval_f (Updates_f f))] ''24h''\<rparr>,
     Power = \<lparr>KeepAwake = first_given [given_flag env EnvKeepAwake, KeepAwake_f (Power_f f)] False\<rparr>\<rparr>"

definition origins :: "environ \<Rightarrow> fileConfig \<Rightarrow> ConfigSources" where
  "origins env f = \<lparr>
     ServerURL_s = first_source (given_url env) (given (URL_f (Server_f f))),
     APIVersion_s = first_source (env EnvAPIVersion) (APIVersion_f (Server_f f)),
     KeyPath_s = first_source (given_env env EnvKeyPath) (given (KeyPath (Ident_f f))),
     SecretBackend_s = first_source (given_env env EnvSecretBackend) (given (SecretBackend (Ident_f f))),
     Reconnect_s = first_source None (given (Reconnect_f (Connection_f f))),
     Keepalive_s = first_source None (given (Keepalive_f (Connection_f f))),
     MaxMobileConnections_s = first_source (given_count env)
       (if MaxMobileConnections_f (Connection_f f) = 0 then None else Some (MaxMobileConnections_f (Connection_f f))),
     ForceRelay_s = first_source (given_flag env EnvForceRelay) (ForceRelay_f (Connection_f f)),
     SocketName_s = first_source (given_env env EnvSocketName) (given (SocketName (Tmux_f f))),
     TmuxPath_s = first_source (given_env env EnvTmuxPath) (given (TmuxPath (Tmux_f f))),
     Name_s = first_source None (given (Name_f f)),
     LogLevel_s = first_source (given_env env EnvLogLevel) (given (LogLevel_f f)),
     UpdateEnabled_s = first_source (given_flag env EnvUpdateEnabled) (Enabled_f (Updates_f f)),
     UpdateCheckInterval_s = first_source (given_env env EnvUpdateInterval) (given (CheckInterval_f (Updates_f f))),
     KeepAwake_s = first_source (given_flag env EnvKeepAwake) (KeepAwake_f (Power_f f))\<rparr>"

text \<open>An empty file gives nothing.\<close>

definition empty_file :: fileConfig where
  "empty_file = \<lparr>Name_f = '''', LogLevel_f = '''', Server_f = \<lparr>URL_f = '''', APIVersion_f = None\<rparr>,
     Ident_f = \<lparr>KeyPath = '''', SecretBackend = ''''\<rparr>,
     Connection_f = \<lparr>Reconnect_f = '''', Keepalive_f = '''', MaxMobileConnections_f = 0, ForceRelay_f = None\<rparr>,
     Tmux_f = \<lparr>SocketName = '''', TmuxPath = ''''\<rparr>,
     Updates_f = \<lparr>Enabled_f = None, CheckInterval_f = ''''\<rparr>, Power_f = \<lparr>KeepAwake_f = None\<rparr>\<rparr>"

lemma layer_simps:
  "unless_empty v old = first_given [given v] old"
  "unless_nil p x = first_given [p] x"
  "env_flag env k b = first_given [given_flag env k] b"
  by (simp_all add: unless_empty_def unless_nil_def given_def env_flag_def given_flag_def given_env_def
      split: option.split)

lemma first_given_nest: "first_given [a] (first_given os d) = first_given (a # os) d"
  by (cases a) simp_all

lemma url_layer:
  "(if Getenv env EnvNewServerURL \<noteq> '''' then Getenv env EnvNewServerURL
    else if Getenv env EnvServerURL \<noteq> '''' then Getenv env EnvServerURL else u) = first_given [given_url env] u"
  by (simp add: given_url_def given_env_def given_def)

lemma count_layer:
  "(if Getenv env EnvMaxConnections \<noteq> '''' \<and> snd (parse_int (Getenv env EnvMaxConnections)) = None
    then fst (parse_int (Getenv env EnvMaxConnections)) else n) = first_given [given_count env] n"
  "(if n \<noteq> 0 then n else k) = first_given [if n = 0 then None else Some n] k"
  by (simp_all add: given_count_def given_env_def given_def)

lemma first_source_cases:
  "first_source a b = (case a of Some _ \<Rightarrow> sourceEnv | None \<Rightarrow> (case b of Some _ \<Rightarrow> sourceFile | None \<Rightarrow> sourceDefault))"
  by (cases a; cases b) simp_all

lemma mark_layer:
  "mark (v \<noteq> '''') sourceFile sourceDefault = first_source None (given v)"
  "mark (p \<noteq> None) sourceFile sourceDefault = first_source None p"
  "mark (n \<noteq> 0) sourceFile sourceDefault = first_source None (if n = 0 then None else Some n)"
  "mark (Getenv env k \<noteq> '''') sourceEnv (first_source None x) = first_source (given_env env k) x"
  "mark (Getenv env k \<noteq> '''') sourceEnv (first_source None y) = first_source (given_flag env k) y"
  "mark (q \<noteq> None) sourceEnv (first_source None z) = first_source q z"
  "mark (Getenv env EnvNewServerURL \<noteq> '''' \<or> Getenv env EnvServerURL \<noteq> '''') sourceEnv (first_source None w) = first_source (given_url env) w"
  "mark (Getenv env EnvMaxConnections \<noteq> '''' \<and> snd (parse_int (Getenv env EnvMaxConnections)) = None)
     sourceEnv (first_source None i) = first_source (given_count env) i"
  by (simp_all add: first_source_cases mark_def given_def given_env_def given_flag_def given_url_def given_count_def
      split: option.split)



lemma LoadConfig_file:
  "applyEnvOverrides env (overlayFile Defaults f) = effective env f"
  by (simp add: applyEnvOverrides_def overlayFile_def Defaults_def effective_def
      layer_simps url_layer count_layer first_given_nest given_env_def)

lemma tracked_config:
  "fst (overlayFileTracked c f s) = overlayFile c f"
  "fst (applyEnvOverridesTracked env c s) = applyEnvOverrides env c"
  by (simp_all add: overlayFileTracked_def overlayFile_def applyEnvOverridesTracked_def applyEnvOverrides_def)

lemma tracked_sources:
  "snd (applyEnvOverridesTracked env c (snd (overlayFileTracked Defaults f no_sources))) = origins env f"
  by (simp add: overlayFileTracked_def applyEnvOverridesTracked_def no_sources_def origins_def mark_layer
      del: not_None_eq disj_not1)

lemma overlay_nothing: "overlayFileTracked Defaults empty_file no_sources = (Defaults, no_sources)"
  by (simp add: overlayFileTracked_def empty_file_def Defaults_def no_sources_def unless_empty_def unless_nil_def mark_def)

text \<open>Property C27. Every setting takes its value from the environment if it is given there,
  else from the configuration file, else from the defaults, with or without a configuration
  file, and the source the command \<open>config\<close> prints for it names where the value came from.
  Reading and parsing errors are reported as such, and only those.\<close>

theorem config_precedence:
  "LoadConfig toml env r = (case r of
      NotExist \<Rightarrow> Inr (effective env empty_file)
    | ReadFailed \<Rightarrow> Inl EReadConfig
    | Contents data \<Rightarrow> (case toml data of None \<Rightarrow> Inl EParseConfig | Some f \<Rightarrow> Inr (effective env f)))
   \<and> LoadConfigWithSources toml env r = (case r of
      NotExist \<Rightarrow> Inr (effective env empty_file, origins env empty_file)
    | ReadFailed \<Rightarrow> Inl EReadConfig
    | Contents data \<Rightarrow> (case toml data of None \<Rightarrow> Inl EParseConfig | Some f \<Rightarrow> Inr (effective env f, origins env f)))"
proof -
  have "overlayFile Defaults empty_file = Defaults"
    using overlay_nothing tracked_config(1) [of Defaults empty_file no_sources] by simp
  then have none: "applyEnvOverrides env Defaults = effective env empty_file"
    using LoadConfig_file [of env empty_file] by simp
  have tr: "applyEnvOverridesTracked env (fst (overlayFileTracked Defaults f no_sources))
      (snd (overlayFileTracked Defaults f no_sources)) = (effective env f, origins env f)" for f
    by (rule prod_eqI) (simp_all add: tracked_config tracked_sources LoadConfig_file)
  from tr [of empty_file] have "applyEnvOverridesTracked env Defaults no_sources = (effective env empty_file, origins env empty_file)"
    by (simp add: overlay_nothing)
  with none tr show ?thesis
    by (auto simp: LoadConfig_def LoadConfigWithSources_def LoadConfig_file case_prod_unfold Let_def
        split: file_read.splits option.splits)
qed

lemmas interval_defs = KeepaliveInterval_def parsedKeepalive_def UpdateCheckInterval_def KeepaliveClamped_def
  MaxKeepaliveInterval_def second_ns_def hour_ns_def min_def Let_def

lemma Validate_keepalive:
  assumes "Validate_config c = None"
  shows "\<exists>d. ParseDuration (Keepalive (Connection c)) = Inr d \<and> 0 < d"
proof (cases "ParseDuration (Keepalive (Connection c))")
  case (Inl e)
  with assms show ?thesis by (simp add: Validate_config_def split: if_splits sum.splits del: insert_iff)
next
  case (Inr d)
  with assms show ?thesis by (cases "0 < d") (simp_all add: Validate_config_def split: if_splits sum.splits del: insert_iff)
qed

text \<open>Property C35. The intervals the agent starts tickers with are positive for every configuration,
  valid or not; the heartbeat is at most 45 seconds, half of the 90 seconds after which the server
  takes the host for offline, and it is the configured value unless the display says it was
  clamped. For a configuration that passes validation the interval is the configured one, capped.\<close>

theorem intervals_safe:
  "0 < KeepaliveInterval c \<and> KeepaliveInterval c \<le> MaxKeepaliveInterval \<and> 2 * MaxKeepaliveInterval = 90 * second_ns
   \<and> 0 < UpdateCheckInterval c
   \<and> (Validate_config c = None \<longrightarrow>
        (\<exists>d. ParseDuration (Keepalive (Connection c)) = Inr d \<and> 0 < d \<and>
             KeepaliveInterval c = min d MaxKeepaliveInterval \<and> (KeepaliveClamped c \<longleftrightarrow> KeepaliveInterval c \<noteq> d)))"
proof (intro conjI impI)
  assume "Validate_config c = None"
  then obtain d where d: "ParseDuration (Keepalive (Connection c)) = Inr d" "0 < d"
    using Validate_keepalive by blast
  then have "KeepaliveInterval c = min d MaxKeepaliveInterval \<and> (KeepaliveClamped c \<longleftrightarrow> KeepaliveInterval c \<noteq> d)"
    by (auto simp: interval_defs)
  with d show "\<exists>d. ParseDuration (Keepalive (Connection c)) = Inr d \<and> 0 < d \<and>
      KeepaliveInterval c = min d MaxKeepaliveInterval \<and> (KeepaliveClamped c \<longleftrightarrow> KeepaliveInterval c \<noteq> d)"
    by blast
qed (auto simp: interval_defs split: sum.splits)

theorem intervals_safe_witness:
  "Validate_config (Defaults\<lparr>Connection := (Connection Defaults)\<lparr>Keepalive := ''2m''\<rparr>\<rparr>) = None
   \<and> KeepaliveInterval (Defaults\<lparr>Connection := (Connection Defaults)\<lparr>Keepalive := ''2m''\<rparr>\<rparr>) = 45 * second_ns"
proof -
  let ?c = "Defaults\<lparr>Connection := (Connection Defaults)\<lparr>Keepalive := ''2m''\<rparr>\<rparr>"
  have v: "Validate_config ?c = None"
    by (simp add: Validate_config_def Defaults_def defaultServerURL_def duration_eval lower_char_def Let_def)
  from intervals_safe [of ?c] v obtain d where
    d: "ParseDuration (Keepalive (Connection ?c)) = Inr d" "KeepaliveInterval ?c = min d MaxKeepaliveInterval"
    by blast
  moreover have "d = 120 * second_ns"
    using d(1) by (simp add: duration_eval)
  ultimately have "KeepaliveInterval ?c = 45 * second_ns"
    by (simp add: MaxKeepaliveInterval_def second_ns_def)
  with v show ?thesis by simp
qed

section \<open>Where the keys are\<close>

lemma Join_Cons: "a \<noteq> '''' \<Longrightarrow> Join (a # b # es) = Clean (a @ slash # join_with slash (b # es))"
  by (simp add: Join_def)

lemma Join_nested:
  assumes "IsAbs h"
  shows "Join [Join [h, a, b], c] = Clean (h @ slash # (a @ slash # b @ slash # c))"
proof -
  have "Join [Join [h, a, b], c] = Clean (Clean (h @ slash # (a @ slash # b)) @ slash # c)"
    using assms IsAbs_nonempty [OF IsAbs_Clean [OF IsAbs_append [OF assms]]] by (simp add: Join_Cons IsAbs_nonempty)
  also have "\<dots> = Clean ((h @ slash # (a @ slash # b)) @ slash # c)"
    by (rule Clean_append) (rule IsAbs_append [OF assms])
  finally show ?thesis by simp
qed

lemma DefaultPaths_abs:
  assumes "UserHomeDir env = Some h" "IsAbs h" "DefaultPaths env = Inr p"
  shows "IsAbs (ConfigDir p)" "IsAbs (KeysDir p)" "IsAbs (PairedDevices p)" "IsAbs (ConfigFile p)"
    "Clean (KeysDir p) = KeysDir p" "KeysDir p = Clean (h @ slash # ''.config/pmux/keys'')"
proof -
  have p: "p = \<lparr>ConfigDir = Join [h, ''.config'', ''pmux''], KeysDir = Join [Join [h, ''.config'', ''pmux''], ''keys''],
      PairedDevices = Join [Join [h, ''.config'', ''pmux''], ''paired_devices.json''],
      ConfigFile = Join [Join [h, ''.config'', ''pmux''], ''config.toml'']\<rparr>"
    using assms by (simp add: DefaultPaths_def Let_def)
  show "IsAbs (ConfigDir p)" "IsAbs (KeysDir p)" "IsAbs (PairedDevices p)" "IsAbs (ConfigFile p)"
    using assms(2) by (simp_all add: p IsAbs_Join)
  show k: "KeysDir p = Clean (h @ slash # ''.config/pmux/keys'')"
    using Join_nested [OF assms(2), of "''.config''" "''pmux''" "''keys''"] by (simp add: p slash_def)
  show "Clean (KeysDir p) = KeysDir p"
    by (simp add: k Clean_Clean IsAbs_append assms(2))
qed

lemma WithKeyPath_abs:
  assumes "UserHomeDir env = Some h" "IsAbs h" "IsAbs (ConfigDir p)" "IsAbs (KeysDir p)" "Clean (KeysDir p) = KeysDir p"
  shows "\<exists>q. WithKeyPath env p k = Inr q \<and> q = p\<lparr>KeysDir := KeysDir q\<rparr> \<and> IsAbs (KeysDir q) \<and> Clean (KeysDir q) = KeysDir q"
  using assms by (auto simp: WithKeyPath_def Let_def IsAbs_Clean IsAbs_Join Clean_Clean)

lemma default_key_path:
  assumes "UserHomeDir env = Some h" "IsAbs h" "DefaultPaths env = Inr p"
  shows "WithKeyPath env p (KeyPath (Ident Defaults)) = Inr p"
proof -
  let ?k = "Join [h, ''/.config/pmux/keys/'']"
  have abs: "IsAbs ?k" "IsAbs (h @ slash # ''/.config/pmux/keys/'')" "IsAbs (h @ slash # ''.config/pmux/keys'')"
    using assms(2) by (simp_all add: IsAbs_Join IsAbs_append)
  have sp: "split_on slash ''/.config/pmux/keys/'' = ['''', ''.config'', ''pmux'', ''keys'', '''']"
    "split_on slash ''.config/pmux/keys'' = [''.config'', ''pmux'', ''keys'']"
    by (simp_all add: slash_def)
  have "root_elems (h @ slash # ''/.config/pmux/keys/'') = root_elems (h @ slash # ''.config/pmux/keys'')"
    unfolding root_elems_append sp by simp
  then have "Clean (h @ slash # ''/.config/pmux/keys/'') = Clean (h @ slash # ''.config/pmux/keys'')"
    using Clean_root [OF abs(2)] Clean_root [OF abs(3)] by simp
  moreover have "Clean ?k = Clean (h @ slash # ''/.config/pmux/keys/'')"
    using abs by (simp add: Join_Cons IsAbs_nonempty assms(2) Clean_Clean)
  ultimately have "Clean ?k = KeysDir p"
    using DefaultPaths_abs(6) [OF assms] by simp
  with abs show ?thesis
    by (simp add: WithKeyPath_def Defaults_def assms(1))
qed

text \<open>With an absolute home directory every path of the agent is absolute and the keys
  directory is in canonical form, whatever \<open>identity.key_path\<close> says: a relative one is taken below the
  configuration directory, never below the current directory, so every command and the
  agent agree on it. Nothing but the keys directory depends on the setting, and its default value
  means the default directory.\<close>

theorem keys_dir_canonical:
  assumes "UserHomeDir env = Some h" "IsAbs h"
  shows "\<exists>p. DefaultPaths env = Inr p \<and> IsAbs (ConfigDir p) \<and> IsAbs (PairedDevices p) \<and> IsAbs (ConfigFile p) \<and>
    WithKeyPath env p (KeyPath (Ident Defaults)) = Inr p \<and>
    (\<forall>k. \<exists>q. WithKeyPath env p k = Inr q \<and> q = p\<lparr>KeysDir := KeysDir q\<rparr> \<and>
       IsAbs (KeysDir q) \<and> Clean (KeysDir q) = KeysDir q)"
proof -
  obtain p where p: "DefaultPaths env = Inr p"
    using assms(1) by (simp add: DefaultPaths_def Let_def)
  note a = DefaultPaths_abs [OF assms p]
  show ?thesis
    using p a default_key_path [OF assms p] WithKeyPath_abs [OF assms a(1) a(2) a(5)] by blast
qed

theorem keys_dir_canonical_witness:
  "\<exists>p q. DefaultPaths [''HOME'' \<mapsto> ''/root''] = Inr p \<and> WithKeyPath [''HOME'' \<mapsto> ''/root''] p ''keys/../x'' = Inr q \<and>
     KeysDir q = ''/root/.config/pmux/x''"
proof -
  have h: "UserHomeDir [''HOME'' \<mapsto> ''/root''] = Some ''/root''" "IsAbs ''/root''"
    by (simp_all add: UserHomeDir_def Getenv_def IsAbs_def slash_def)
  from keys_dir_canonical [OF h] obtain p q where
    "DefaultPaths [''HOME'' \<mapsto> ''/root''] = Inr p" "WithKeyPath [''HOME'' \<mapsto> ''/root''] p ''keys/../x'' = Inr q" by blast
  moreover from this have "KeysDir q = ''/root/.config/pmux/x''"
    by (auto simp: DefaultPaths_def WithKeyPath_def h Let_def Join_def IsAbs_def Clean_def slash_def)
  ultimately show ?thesis by blast
qed

end
