(* ===== verification/Signal_Link.thy ===== *)
theory Signal_Link
  imports Signaling Config
begin

text \<open>
  The timing of one open connection of \<open>internal/webrtc/signaling.go\<close>: the heartbeat
  (\<open>presenceLoop\<close>), the rolling read deadline of \<open>readLoop\<close> and the pong handler that moves it. Times
  are in nanoseconds. The socket is part of the world: whether a write succeeds, when a frame or a
  pong arrives and when a goroutine gets to run are arguments of the steps. As documented for
  the WebSocket library, only the pong handler set here moves the deadline; a ping of the server is
  answered inside the read without touching it.

  Shown here: a connection on which nothing is heard is given up after the read timeout, at most
  100 seconds for every configuration, and never earlier; a connection whose pings are answered in time
  is never given up, and the server hears a heartbeat within the 90 seconds after which it takes
  the host for offline.
\<close>

section \<open>The connection\<close>

definition DefaultPresenceInterval :: int where "DefaultPresenceInterval = 30 * second"
definition DefaultReadDeadlineGrace :: int where "DefaultReadDeadlineGrace = 10 * second"

text \<open>\<open>lk_deadline\<close> is the read deadline of the socket, \<open>lk_next\<close> when the ticker fires next, \<open>lk_beating\<close>
  whether \<open>presenceLoop\<close> still runs, \<open>lk_pings\<close> when the unanswered pings were sent, \<open>lk_beats\<close> when
  heartbeats were written, \<open>lk_reading\<close> whether \<open>readLoop\<close> still runs and \<open>lk_heard\<close> when it last
  read a frame or a pong (the code does not store this).\<close>

record linkst =
  lk_now :: int
  lk_deadline :: int
  lk_next :: int
  lk_beating :: bool
  lk_pings :: "int list"
  lk_beats :: "int list"
  lk_reading :: bool
  lk_heard :: int

record lcfg =
  PresenceInterval :: int
  ReadDeadlineGrace :: int

definition default_lcfg :: lcfg where
  "default_lcfg = \<lparr>PresenceInterval = DefaultPresenceInterval, ReadDeadlineGrace = DefaultReadDeadlineGrace\<rparr>"

definition readTimeout :: "lcfg \<Rightarrow> int" where
  "readTimeout g = 2 * PresenceInterval g + ReadDeadlineGrace g"

text \<open>The connection is published at time \<open>t\<close>: the ticker starts and the first read is armed. The
  authentication just before counts as the first heartbeat.\<close>

definition link_up :: "lcfg \<Rightarrow> int \<Rightarrow> linkst" where
  "link_up g t = \<lparr>lk_now = t, lk_deadline = t + readTimeout g, lk_next = t + PresenceInterval g, lk_beating = True,
     lk_pings = [], lk_beats = [t], lk_reading = True, lk_heard = t\<rparr>"

text \<open>Go's ticker keeps its grid and drops ticks a slow receiver missed.\<close>

definition next_tick :: "int \<Rightarrow> int \<Rightarrow> int \<Rightarrow> int" where
  "next_tick period due t = due + period * ((t - due) div period + 1)"

text \<open>One round of \<open>presenceLoop\<close>: the presence message, then a ping; the first failed write ends the
  loop, but does not close the connection.\<close>

definition presence_round :: "lcfg \<Rightarrow> bool \<Rightarrow> bool \<Rightarrow> linkst \<Rightarrow> linkst" where
  "presence_round g wrote_msg wrote_ping s =
     (if \<not> lk_beating s \<or> lk_now s < lk_next s then s
      else
        let s1 = s\<lparr>lk_next := next_tick (PresenceInterval g) (lk_next s) (lk_now s)\<rparr> in
        if \<not> wrote_msg then s1\<lparr>lk_beating := False\<rparr>
        else
          let s2 = s1\<lparr>lk_beats := lk_beats s1 @ [lk_now s1]\<rparr> in
          if \<not> wrote_ping then s2\<lparr>lk_beating := False\<rparr>
          else s2\<lparr>lk_pings := lk_pings s2 @ [lk_now s2]\<rparr>)"

definition arm_read :: "lcfg \<Rightarrow> linkst \<Rightarrow> linkst" where
  "arm_read g s = s\<lparr>lk_deadline := lk_now s + readTimeout g, lk_heard := lk_now s\<rparr>"

text \<open>A frame is read before the deadline and the loop arms the next read; a pong, asked for or not, is
  handled inside the read; at the deadline the read fails.\<close>

definition frame_read :: "lcfg \<Rightarrow> linkst \<Rightarrow> linkst" where
  "frame_read g s = (if lk_reading s \<and> lk_now s < lk_deadline s then arm_read g s else s)"

definition pong_read :: "lcfg \<Rightarrow> linkst \<Rightarrow> linkst" where
  "pong_read g s = (if lk_reading s \<and> lk_now s < lk_deadline s
     then (arm_read g s)\<lparr>lk_pings := tl (lk_pings s)\<rparr> else s)"

definition read_expires :: "linkst \<Rightarrow> linkst" where
  "read_expires s = (if lk_deadline s \<le> lk_now s then s\<lparr>lk_reading := False, lk_beating := False\<rparr> else s)"

definition elapse :: "int \<Rightarrow> linkst \<Rightarrow> linkst" where
  "elapse d s = s\<lparr>lk_now := lk_now s + d\<rparr>"

inductive lstep :: "lcfg \<Rightarrow> linkst \<Rightarrow> linkst \<Rightarrow> bool" for g where
  beat: "lstep g s (presence_round g a b s)"
| frame: "lstep g s (frame_read g s)"
| pong: "lstep g s (pong_read g s)"
| expire: "lstep g s (read_expires s)"
| pass: "0 \<le> d \<Longrightarrow> lstep g s (elapse d s)"

abbreviation lreach :: "lcfg \<Rightarrow> linkst \<Rightarrow> bool" where
  "lreach g \<equiv> reach (\<lambda>s. \<exists>t. s = link_up g t) (lstep g)"

lemmas link_defs = presence_round_def frame_read_def pong_read_def read_expires_def elapse_def arm_read_def link_up_def Let_def

section \<open>A silent connection\<close>

definition inv_deadline :: "lcfg \<Rightarrow> linkst \<Rightarrow> bool" where
  "inv_deadline g s \<longleftrightarrow> lk_deadline s = lk_heard s + readTimeout g \<and> lk_heard s \<le> lk_now s \<and>
     (\<not> lk_reading s \<longrightarrow> lk_heard s + readTimeout g \<le> lk_now s)"

interpretation deadline: machine "\<lambda>s. \<exists>t. s = link_up g t" "lstep g" "inv_deadline g" for g
proof unfold_locales
  show "inv_deadline g s" if "\<exists>t. s = link_up g t" for s
    using that by (auto simp: inv_deadline_def link_defs)
  show "inv_deadline g t" if "inv_deadline g s" "lstep g s t" for s t
    using that(2,1) by cases (auto simp: inv_deadline_def link_defs)
qed

section \<open>A healthy connection\<close>

text \<open>Every write succeeds, a tick is served at most \<open>late\<close> after it fires and a ping is answered at
  most \<open>rtt\<close> after it is sent: time passes only that far.\<close>

inductive hlstep :: "lcfg \<Rightarrow> int \<Rightarrow> int \<Rightarrow> linkst \<Rightarrow> linkst \<Rightarrow> bool" for g late rtt where
  beat: "hlstep g late rtt s (presence_round g True True s)"
| frame: "hlstep g late rtt s (frame_read g s)"
| pong: "hlstep g late rtt s (pong_read g s)"
| expire: "hlstep g late rtt s (read_expires s)"
| pass: "0 \<le> d \<Longrightarrow> lk_now s + d \<le> lk_next s + late \<Longrightarrow> \<forall>p \<in> set (lk_pings s). lk_now s + d \<le> p + rtt
    \<Longrightarrow> hlstep g late rtt s (elapse d s)"

abbreviation hlreach :: "lcfg \<Rightarrow> int \<Rightarrow> int \<Rightarrow> linkst \<Rightarrow> bool" where
  "hlreach g late rtt \<equiv> reach (\<lambda>s. \<exists>t. s = link_up g t) (hlstep g late rtt)"

text \<open>From the last thing heard to the pings in flight and on to the next tick, no gap is longer than the
  interval and the delay.\<close>

fun chain :: "int \<Rightarrow> int \<Rightarrow> int \<Rightarrow> int list \<Rightarrow> int \<Rightarrow> bool" where
  "chain period late a [] n \<longleftrightarrow> n \<le> a + period"
| "chain period late a (p # ps) n \<longleftrightarrow> p \<le> a + period + late \<and> chain period late p ps n"

lemma chain_mono: "chain period late a ps n \<Longrightarrow> a \<le> b \<Longrightarrow> chain period late b ps n"
  by (cases ps) auto

lemma chain_snoc:
  assumes "chain period late a ps n" "t \<le> n + late" "n' \<le> t + period"
  shows "chain period late a (ps @ [t]) n'"
  using assms by (induction ps arbitrary: a) auto

definition inv_healthy :: "lcfg \<Rightarrow> int \<Rightarrow> int \<Rightarrow> linkst \<Rightarrow> bool" where
  "inv_healthy g late rtt s \<longleftrightarrow> lk_reading s \<and> lk_beating s \<and>
     lk_deadline s = lk_heard s + readTimeout g \<and>
     chain (PresenceInterval g) late (lk_heard s) (lk_pings s) (lk_next s) \<and>
     lk_now s \<le> lk_next s + late \<and> (\<forall>p \<in> set (lk_pings s). p \<le> lk_now s \<and> lk_now s \<le> p + rtt) \<and>
     lk_beats s \<noteq> [] \<and> lk_next s \<le> last (lk_beats s) + PresenceInterval g \<and> lk_heard s \<le> lk_now s"

lemma next_tick_bounds:
  assumes "0 < period" "due \<le> t" shows "t < next_tick period due t" "next_tick period due t \<le> t + period"
proof -
  have "(t - due) mod period < period" "0 \<le> (t - due) mod period" using assms by simp_all
  moreover have "period * ((t - due) div period) = (t - due) - (t - due) mod period" by (simp add: minus_mod_eq_mult_div)
  ultimately show "t < next_tick period due t" "next_tick period due t \<le> t + period"
    by (simp_all add: next_tick_def distrib_left)
qed

lemma healthy_before_deadline:
  assumes "inv_healthy g late rtt s" "0 \<le> rtt" "late + rtt < PresenceInterval g + ReadDeadlineGrace g"
  shows "lk_now s < lk_deadline s"
  using assms by (cases "lk_pings s") (auto simp: inv_healthy_def readTimeout_def)

lemma healthy_beat:
  assumes "inv_healthy g late rtt s" "0 < PresenceInterval g" "0 \<le> late" "0 \<le> rtt"
  shows "inv_healthy g late rtt (presence_round g True True s)"
proof (cases "lk_now s < lk_next s")
  case True
  then show ?thesis using assms(1) by (simp add: presence_round_def)
next
  case False
  then have n: "lk_now s < next_tick (PresenceInterval g) (lk_next s) (lk_now s)"
    "next_tick (PresenceInterval g) (lk_next s) (lk_now s) \<le> lk_now s + PresenceInterval g"
    using next_tick_bounds [OF assms(2)] by auto
  have "chain (PresenceInterval g) late (lk_heard s) (lk_pings s @ [lk_now s])
      (next_tick (PresenceInterval g) (lk_next s) (lk_now s))"
    by (rule chain_snoc [of _ _ _ _ "lk_next s"]) (use assms(1) n in \<open>auto simp: inv_healthy_def\<close>)
  then show ?thesis using assms n False by (auto simp: inv_healthy_def presence_round_def Let_def)
qed

lemma healthy_heard:
  assumes "inv_healthy g late rtt s"
  shows "inv_healthy g late rtt (frame_read g s)" "inv_healthy g late rtt (pong_read g s)"
proof -
  have c: "chain (PresenceInterval g) late (lk_now s) (lk_pings s) (lk_next s)"
    using assms chain_mono by (auto simp: inv_healthy_def)
  then show "inv_healthy g late rtt (frame_read g s)"
    using assms by (auto simp: inv_healthy_def frame_read_def arm_read_def)
  have "chain (PresenceInterval g) late (lk_now s) (tl (lk_pings s)) (lk_next s)"
    using assms c chain_mono by (cases "lk_pings s") (auto simp: inv_healthy_def)
  then show "inv_healthy g late rtt (pong_read g s)"
    using assms by (cases "lk_pings s") (auto simp: inv_healthy_def pong_read_def arm_read_def)
qed

text \<open>The timing assumptions under which the connection is kept, as an interface: the machine below is
  proved for every choice that satisfies them.\<close>

locale responsive =
  fixes g :: lcfg and late rtt :: int
  assumes interval: "0 < PresenceInterval g"
    and delays: "0 \<le> late" "0 \<le> rtt" "late + rtt < PresenceInterval g + ReadDeadlineGrace g"
begin

lemma healthy_step: "inv_healthy g late rtt s \<Longrightarrow> hlstep g late rtt s t \<Longrightarrow> inv_healthy g late rtt t"
proof -
  assume i: "inv_healthy g late rtt s" and st: "hlstep g late rtt s t"
  from st show ?thesis
  proof cases
    case expire
    then show ?thesis using i healthy_before_deadline [OF i] delays by (auto simp: read_expires_def)
  next
    case (pass d)
    then show ?thesis using i by (auto simp: inv_healthy_def elapse_def)
  qed (use i healthy_beat healthy_heard interval delays in auto)
qed

lemma healthy_init: "inv_healthy g late rtt (link_up g t)"
  using interval delays by (auto simp: inv_healthy_def link_up_def)

lemma healthy_reach: "hlreach g late rtt s \<Longrightarrow> inv_healthy g late rtt s"
  by (induction rule: reach.induct) (auto intro: healthy_init healthy_step)

lemma kept: "hlreach g late rtt s \<Longrightarrow> lk_reading s \<and> lk_now s < lk_deadline s \<and>
    lk_now s \<le> last (lk_beats s) + PresenceInterval g + late"
  using healthy_reach [of s] healthy_before_deadline [of g late rtt s] delays by (auto simp: inv_healthy_def)

end

section \<open>With the configured interval\<close>

text \<open>The settings \<open>Run\<close> gives the client: the configured heartbeat and the default grace.\<close>

definition link_settings :: "Config \<Rightarrow> lcfg" where
  "link_settings cfg = default_lcfg\<lparr>PresenceInterval := KeepaliveInterval cfg\<rparr>"

lemma link_settings_bounds:
  "0 < PresenceInterval (link_settings cfg)" "PresenceInterval (link_settings cfg) \<le> 45 * second"
  "ReadDeadlineGrace (link_settings cfg) = 10 * second"
  by (auto simp: link_settings_def default_lcfg_def DefaultReadDeadlineGrace_def interval_defs second_def split: sum.splits)

interpretation configured: responsive "link_settings cfg" "5 * second" "5 * second" for cfg
  by unfold_locales (use link_settings_bounds [of cfg] in \<open>simp_all add: second_def\<close>)

lemma silent_link_dropped:
  assumes "lreach g s" "lk_reading s"
  shows "lk_reading (read_expires s) \<longleftrightarrow> lk_now s < lk_heard s + readTimeout g"
  using deadline.inv_reach [OF assms(1)] assms(2) by (auto simp: inv_deadline_def read_expires_def)

lemma prompt_link_kept:
  "hlreach (link_settings cfg) (5 * second) (5 * second) s \<Longrightarrow> lk_reading s \<and> lk_now s \<le> last (lk_beats s) + 50 * second"
  using configured.kept [of cfg s] link_settings_bounds [of cfg] by auto


text \<open>The first heartbeat under the default settings, answered after a second.\<close>

definition demo_link :: linkst where
  "demo_link = pong_read (link_settings Defaults) (elapse second
     (presence_round (link_settings Defaults) True True (elapse (30 * second) (link_up (link_settings Defaults) 0))))"

lemma default_interval: "KeepaliveInterval Defaults = 30 * second"
  by (simp add: KeepaliveInterval_def parsedKeepalive_def Defaults_def duration_eval MaxKeepaliveInterval_def
      second_ns_def second_def Let_def)

lemma default_settings: "PresenceInterval (link_settings Defaults) = 30 * second" "ReadDeadlineGrace (link_settings Defaults) = 10 * second"
  using link_settings_bounds(3) [of Defaults] by (simp_all add: link_settings_def default_interval)

lemma demo_link_reach: "hlreach (link_settings Defaults) second (2 * second) demo_link"
proof -
  let ?g = "link_settings Defaults"
  let ?s1 = "elapse (30 * second) (link_up ?g 0)"
  let ?s2 = "presence_round ?g True True ?s1"
  have "hlreach ?g second (2 * second) (link_up ?g 0)" by (rule reach.start) blast
  moreover have "hlstep ?g second (2 * second) (link_up ?g 0) ?s1"
    by (rule hlstep.pass) (simp_all add: link_defs default_settings second_def)
  ultimately have r: "hlreach ?g second (2 * second) ?s2" by (metis reach.move hlstep.beat)
  have "hlstep ?g second (2 * second) ?s2 (elapse second ?s2)"
    by (rule hlstep.pass) (simp_all add: link_defs default_settings next_tick_def second_def)
  then show ?thesis unfolding demo_link_def using r by (metis reach.move hlstep.pong)
qed


end
