(* ===== verification/Turn_Relay.thy ===== *)
theory Turn_Relay
  imports Peer_Manager Identity
begin

text \<open>
  The ICE servers of a new connection (\<open>requestTurnCredentials\<close> and the first part of the
  connection set-up in \<open>handleConnectRequest\<close>, both in \<open>internal/webrtc/peer.go\<close>): the signed request
  for TURN credentials with the host's token, the cache in front of it, the fall-back to a public
  STUN server and the relay-only policy. The JSON decoder of the reply is the parameter \<open>jcreds\<close>.

  Shown here: under \<open>force_relay\<close> a connection is created only with credentials the
  signaling server gave out, now or within the last ten minutes, and only in relay-only mode;
  without it a failed request costs the relay but not the connection.
\<close>

section \<open>The request\<close>

datatype turn_error =
    ETurnRequest http_error
  | EReadTurn
  | ETurnStatus nat bytes
  | EParseTurn

definition requestTurnCredentials ::
  "(bytes \<Rightarrow> ice_server option) \<Rightarrow> httpenv \<Rightarrow> string \<Rightarrow> string \<Rightarrow> string \<Rightarrow> request list \<Rightarrow>
   (turn_error + ice_server list) \<times> request list" where
  "requestTurnCredentials jcreds e url tok hmacSecret rqs =
     (case do_request e ''GET'' (server_url url ''/turn/credentials'') NoBody (Some tok) True hmacSecret rqs of
        (Inl x, rqs1) \<Rightarrow> (Inl (ETurnRequest x), rqs1)
      | (Inr (code, None), rqs1) \<Rightarrow> (Inl EReadTurn, rqs1)
      | (Inr (code, Some b), rqs1) \<Rightarrow>
         if code \<noteq> 200 then (Inl (ETurnStatus code b), rqs1)
         else (case jcreds b of
                 None \<Rightarrow> (Inl EParseTurn, rqs1)
               | Some creds \<Rightarrow> (Inr [creds], rqs1)))"

section \<open>The configuration of a connection\<close>

record pc_config =
  relayOnly :: bool
  ICEServers :: "ice_server list"

definition stunServer :: ice_server where
  "stunServer = \<lparr>URLs = [''stun:stun.cloudflare.com:3478''], Username = '''', Credential = ''''\<rparr>"

text \<open>\<open>None\<close>: the attempt is skipped.\<close>

definition ice_config :: "bool \<Rightarrow> ice_server list option \<Rightarrow> pc_config option" where
  "ice_config force turn = (case turn of
      Some srvs \<Rightarrow> Some \<lparr>relayOnly = force, ICEServers = srvs\<rparr>
    | None \<Rightarrow> if force then None else Some \<lparr>relayOnly = force, ICEServers = [stunServer]\<rparr>)"

definition cache_fresh :: "int \<Rightarrow> mgr \<Rightarrow> bool" where
  "cache_fresh t m \<longleftrightarrow> length (turnCache m) > 0 \<and> t - turnCacheTime m < turnCacheTTL"

text \<open>\<open>fetchTurnCredentials\<close> with the request it makes, and the configuration handed to the WebRTC
  library.\<close>

definition fetch_turn ::
  "(bytes \<Rightarrow> ice_server option) \<Rightarrow> httpenv \<Rightarrow> string \<Rightarrow> string \<Rightarrow> string \<Rightarrow> int \<Rightarrow> mgr \<times> request list \<Rightarrow>
   ice_server list option \<times> mgr \<times> request list" where
  "fetch_turn jcreds e url tok hmacSecret t w = (case w of (m, rqs) \<Rightarrow>
     if cache_fresh t m then (Some (turnCache m), m, rqs)
     else case requestTurnCredentials jcreds e url tok hmacSecret rqs of
       (r, rqs1) \<Rightarrow>
         (case fetchTurnCredentials t (case r of Inl _ \<Rightarrow> None | Inr srvs \<Rightarrow> Some srvs) m of
            (turn, m1) \<Rightarrow> (turn, m1, rqs1)))"

definition build_connection ::
  "(bytes \<Rightarrow> ice_server option) \<Rightarrow> httpenv \<Rightarrow> string \<Rightarrow> string \<Rightarrow> string \<Rightarrow> int \<Rightarrow> (pc_config \<Rightarrow> bool) \<Rightarrow>
   peer_id \<Rightarrow> string \<Rightarrow> bytes \<Rightarrow> mgr \<times> request list \<Rightarrow> pc_config option \<times> mgr \<times> request list" where
  "build_connection jcreds e url tok hmacSecret t newPC d att s w =
     (case fetch_turn jcreds e url tok hmacSecret t w of
        (turn, m1, rqs1) \<Rightarrow>
          let cfg = ice_config (ForceRelay m1) turn; ok = (case cfg of None \<Rightarrow> False | Some c \<Rightarrow> newPC c) in
          (if ok then cfg else None, connect_build t turn ok d att s m1, rqs1))"

lemma fetch_turn_keeps:
  "fetch_turn jcreds e url tok h t (m, rqs) = (turn, m1, rqs1) \<Longrightarrow> ForceRelay m1 = ForceRelay m \<and> pnext m1 = pnext m"
  by (auto simp: fetch_turn_def fetchTurnCredentials_def split: if_splits prod.splits option.splits)

lemma requestTurnCredentials_ok:
  assumes "requestTurnCredentials jcreds e url tok h rqs = (Inr srvs, rqs1)"
  shows "\<exists>r b c. rqs1 = rqs @ [r] \<and> rq_url r = server_url url ''/turn/credentials'' \<and> rq_bearer r = Some tok \<and>
       srv e rqs r = Inr (200, Some b) \<and> jcreds b = Some c \<and> srvs = [c]"
proof -
  obtain code b where d: "do_request e ''GET'' (server_url url ''/turn/credentials'') NoBody (Some tok) True h rqs = (Inr (code, Some b), rqs1)"
    and ok: "code = 200" "\<exists>c. jcreds b = Some c \<and> srvs = [c]"
    using assms by (auto simp: requestTurnCredentials_def split: prod.splits sum.splits option.splits if_splits)
  then show ?thesis by (auto simp: do_request_def Let_def split: option.splits sum.splits)
qed

text \<open>The credentials come from the server: from the cache, or from a reply with status 200 to the request
  that carries the host's token.\<close>

lemma fetch_turn_source:
  assumes "fetch_turn jcreds e url tok h t (m, rqs) = (Some srvs, m1, rqs1)"
  shows "(cache_fresh t m \<and> srvs = turnCache m \<and> m1 = m \<and> rqs1 = rqs) \<or>
    (\<exists>r b c. rqs1 = rqs @ [r] \<and> rq_url r = server_url url ''/turn/credentials'' \<and> rq_bearer r = Some tok \<and>
       srv e rqs r = Inr (200, Some b) \<and> jcreds b = Some c \<and> srvs = [c] \<and>
       turnCache m1 = [c] \<and> turnCacheTime m1 = t)"
proof (cases "cache_fresh t m")
  case True
  then show ?thesis using assms by (auto simp: fetch_turn_def)
next
  case False
  obtain r rqs2 where r: "requestTurnCredentials jcreds e url tok h rqs = (r, rqs2)" by fastforce
  have f: "fetchTurnCredentials t x m = (case x of None \<Rightarrow> (None, m) | Some l \<Rightarrow> (Some l, m\<lparr>turnCache := l, turnCacheTime := t\<rparr>))" for x
    using False by (auto simp: fetchTurnCredentials_def cache_fresh_def)
  have "r = Inr srvs" "m1 = m\<lparr>turnCache := srvs, turnCacheTime := t\<rparr>" "rqs2 = rqs1"
    using assms False r by (auto simp: fetch_turn_def f split: sum.splits)
  then show ?thesis using requestTurnCredentials_ok [of jcreds e url tok h rqs srvs rqs1] r by auto
qed

text \<open>The composed set-up is the step \<open>connect_build\<close> of the manager, with the answer of the server as
  its argument.\<close>

lemma connect_build_pnext:
  "pnext (connect_build t turn ok d att s m) \<noteq> pnext m \<Longrightarrow>
   ok \<and> (\<exists>turn' m1. fetchTurnCredentials t turn m = (turn', m1) \<and> (turn' \<noteq> None \<or> \<not> ForceRelay m1))"
  by (auto simp: connect_build_def fetchTurnCredentials_def split: if_splits option.splits)

theorem relay_only_honoured:
  assumes "build_connection jcreds e url tok h t newPC d att s (m, rqs) = (cfg, m', rqs')"
    and "pnext m' \<noteq> pnext m" and "ForceRelay m"
  shows "\<exists>srvs. cfg = Some \<lparr>relayOnly = True, ICEServers = srvs\<rparr> \<and>
    (cache_fresh t m \<and> srvs = turnCache m \<or>
     (\<exists>r b c. rqs' = rqs @ [r] \<and> rq_url r = server_url url ''/turn/credentials'' \<and> rq_bearer r = Some tok \<and>
        srv e rqs r = Inr (200, Some b) \<and> jcreds b = Some c \<and> srvs = [c]))"
proof -
  obtain turn m1 rqs1 where f: "fetch_turn jcreds e url tok h t (m, rqs) = (turn, m1, rqs1)" by (metis prod_cases3)
  note k = fetch_turn_keeps [OF f]
  let ?cfg = "ice_config (ForceRelay m1) turn" and ?ok = "case ice_config (ForceRelay m1) turn of None \<Rightarrow> False | Some c \<Rightarrow> newPC c"
  have b: "cfg = (if ?ok then ?cfg else None)" "m' = connect_build t turn ?ok d att s m1" "rqs' = rqs1"
    using assms(1) f by (simp_all add: build_connection_def Let_def)
  have ok: ?ok using connect_build_pnext [of t turn ?ok d att s m1] assms(2) b(2) k by simp
  then obtain srvs where s: "turn = Some srvs"
    using assms(3) k by (auto simp: ice_config_def split: option.splits if_splits)
  then have "cfg = Some \<lparr>relayOnly = True, ICEServers = srvs\<rparr>"
    using b(1) ok assms(3) k by (simp add: ice_config_def)
  then show ?thesis using fetch_turn_source [OF f [unfolded s]] b(3) by blast
qed

text \<open>Without \<open>force_relay\<close> a failed request leaves the STUN server.\<close>

lemma stun_fallback:
  assumes "\<not> ForceRelay m" "\<not> cache_fresh t m" "fst (requestTurnCredentials jcreds e url tok h rqs) = Inl x" "newPC \<lparr>relayOnly = False, ICEServers = [stunServer]\<rparr>"
  shows "fst (build_connection jcreds e url tok h t newPC d att s (m, rqs)) =
    Some \<lparr>relayOnly = False, ICEServers = [stunServer]\<rparr>"
proof -
  obtain rqs1 where r: "requestTurnCredentials jcreds e url tok h rqs = (Inl x, rqs1)" using assms(3) by (metis prod.collapse)
  have "fetch_turn jcreds e url tok h t (m, rqs) = (None, m, rqs1)"
    using assms(2) r by (simp add: fetch_turn_def fetchTurnCredentials_def cache_fresh_def)
  then show ?thesis using assms(1,4) by (simp add: build_connection_def ice_config_def Let_def)
qed

end
