(* ===== verification/Host_Session.thy ===== *)
theory Host_Session
  imports Peer_Auth Handler
begin

text \<open>
  The connections and the request handler together, as \<open>agent.go\<close> wires them: the message callback
  of every connection calls \<open>Handler.HandleMessage\<close> while it holds its dispatch lock, and the peer
  manager calls \<open>Handler.PeerDisconnected\<close>. A state holds one connection per device (the world of
  \<open>Peer_Auth\<close>) and one handler (\<open>Handler\<close>); a step is a step of one of them, and a request crosses
  from one to the other in the step that handles it. A watcher goroutine exists only for a stream
  that was started.

  Shown here: each component runs in the composed system as it does alone, so all their
  invariants carry over; a device has no effect on the host before it proved the shared
  secret, and none after its dispatch was stopped and its disconnect handled.
\<close>

section \<open>Projections\<close>

text \<open>A component of a larger system: every step of the system is one of the component or leaves it alone.\<close>

locale component =
  fixes init :: "'s \<Rightarrow> bool" and step :: "'s \<Rightarrow> 's \<Rightarrow> bool"
    and cinit :: "'c \<Rightarrow> bool" and cstep :: "'c \<Rightarrow> 'c \<Rightarrow> bool" and part :: "'s \<Rightarrow> 'c"
  assumes part_init: "init s \<Longrightarrow> cinit (part s)"
    and part_step: "step s t \<Longrightarrow> part t = part s \<or> cstep (part s) (part t)"
begin

lemma part_reach: "reach init step s \<Longrightarrow> reach cinit cstep (part s)"
proof (induction rule: reach.induct)
  case (start s)
  then show ?case by (blast intro: reach.start part_init)
next
  case (move s t)
  then show ?case using part_step [of s t] by (metis reach.move)
qed

end

section \<open>The composed system\<close>

record 'w hostsys =
  conns :: "peer_id \<Rightarrow> world"
  hst :: "'w handler"

definition on_conn :: "peer_id \<Rightarrow> world \<Rightarrow> 'w hostsys \<Rightarrow> 'w hostsys" where
  "on_conn p w c = c\<lparr>conns := (conns c)(p := w)\<rparr>"

definition on_handler :: "('w handler \<Rightarrow> 'w handler) \<Rightarrow> 'w hostsys \<Rightarrow> 'w hostsys" where
  "on_handler f c = c\<lparr>hst := f (hst c)\<rparr>"

text \<open>\<open>dispatch\<close>: the callback of \<open>p\<close> runs the handler and then lets go of the dispatch lock.\<close>

definition dispatch :: "'w henv \<Rightarrow> peer_id \<Rightarrow> message \<Rightarrow> 'w hostsys \<Rightarrow> 'w hostsys" where
  "dispatch e p m c = on_handler (HandleMessage e p m) (on_conn p ((conns c p)\<lparr>disp := DIdle\<rparr>) c)"

inductive hsstep :: "msgpack \<Rightarrow> 'w hostsys \<Rightarrow> 'w hostsys \<Rightarrow> bool" for mp where
  peer: "pstep mp (conns c p) w \<Longrightarrow> (\<And>m. disp (conns c p) = DHandling m \<Longrightarrow> disp w = DHandling m) \<Longrightarrow>
    hsstep mp c (on_conn p w c)"
| request: "disp (conns c p) = DHandling m \<Longrightarrow> hsstep mp c (dispatch e p m c)"
| streams: "hsstep mp c (on_handler (stream_round e sid) c)"
| watches: "sid < nextsid (hst c) \<Longrightarrow> hsstep mp c (on_handler (watch_tick e p q sid) c)"
| gone: "hsstep mp c (on_handler (PeerDisconnected e p) c)"
| swept: "hsstep mp c (on_handler (sweep e tracked timeout ps states) c)"
| pane_writes: "relay_round f b (hb (hst c)) = (r, s1) \<Longrightarrow> hsstep mp c (on_handler (\<lambda>h. h\<lparr>hb := s1\<rparr>) c)"

definition hsinit :: "(peer_id \<Rightarrow> string) \<Rightarrow> (peer_id \<Rightarrow> bytes) \<Rightarrow> 'w bsys \<Rightarrow> 'w hostsys \<Rightarrow> bool" where
  "hsinit att secret b c \<longleftrightarrow> (\<forall>p. pinit p (att p) (secret p) (conns c p)) \<and> hst c = NewHandler b \<and> wf_heap b"

lemmas hs_defs = on_conn_def on_handler_def dispatch_def

interpretation conn_part: component "hsinit att secret b" "hsstep mp" "pinit p (att p) (secret p)" "pstep mp" "\<lambda>c. conns c p"
  for att secret b mp p
proof unfold_locales
  show "pinit p (att p) (secret p) (conns s p)" if "hsinit att secret b s" for s
    using that by (simp add: hsinit_def)
  show "conns t p = conns s p \<or> pstep mp (conns s p) (conns t p)" if "hsstep mp s t" for s t
    using that by cases (auto simp: hs_defs intro: pstep.handled)
qed

interpretation handler_part: component "hsinit att secret b" "hsstep mp" hinit hstep hst for att secret b mp
proof unfold_locales
  show "hinit (hst s)" if "hsinit att secret b s" for s
    using that by (auto simp: hsinit_def hinit_def)
  show "hst t = hst s \<or> hstep (hst s) (hst t)" if "hsstep mp s t" for s t
    using that by cases (auto simp: hs_defs intro: hstep.intros)
qed

section \<open>A request being handled\<close>

lemma trace_grows: "pstep mp w w' \<Longrightarrow> \<exists>es. trace (pr w') = trace (pr w) @ es"
  by (erule pstep.cases)
    (auto simp: op_defs dest!: send_finish_state raw_finish_state
      split: option.splits if_splits route.splits sum.splits prod.splits)

definition inv_handling :: "world \<Rightarrow> bool" where
  "inv_handling w \<longleftrightarrow> (\<forall>m. disp w = DHandling m \<longrightarrow> Dispatched m \<in> set (trace (pr w)) \<and> \<not> dispatchStopped (pr w))"

lemma inv_handling_step: "pstep mp w w' \<Longrightarrow> inv_handling w \<Longrightarrow> inv_handling w'"
  by (erule pstep.cases)
    (auto simp: inv_handling_def op_defs dest!: send_finish_state raw_finish_state dest: route_cases
      split: option.splits if_splits route.splits sum.splits prod.splits)

interpretation handling: machine "pinit d a s" "pstep mp" inv_handling for d a s mp
proof unfold_locales
  show "inv_handling w" if "pinit d a s w" for w using that by (simp add: pinit_def inv_handling_def)
  show "inv_handling w'" if "inv_handling w" "pstep mp w w'" for w w' using inv_handling_step that by blast
qed

lemma handling_proven:
  assumes "reach (pinit d a s) (pstep mp) w" "disp w = DHandling m"
  shows "proven mp s (trace (pr w))"
proof -
  have "Dispatched m \<in> set (trace (pr w))" using handling.inv_reach [OF assms(1)] assms(2) by (simp add: inv_handling_def)
  then obtain xs ys where t: "trace (pr w) = xs @ Dispatched m # ys" by (auto simp: in_set_conv_decomp)
  have "preceded (proven mp s) is_Dispatched (trace (pr w))"
    using peer_machine.inv_reach [OF assms(1)] by (simp add: pinv_def inv_proof_def Let_def)
  then have "proven mp s xs" using t by (auto simp: preceded_def)
  then show ?thesis by (simp add: t)
qed

section \<open>On whose behalf the handler acts\<close>

text \<open>The entries of one device, and an action that touches those of \<open>p\<close> only and sends to \<open>p\<close> only.\<close>

definition entries :: "'w handler \<Rightarrow> peer_id \<Rightarrow>
    nat option \<times> nat option \<times> nat option \<times> pane_id option \<times> (int \<times> int) option \<times> int option" where
  "entries h p = (bridges h p, cancels h p, streamDone h p, paneForPeer h p, lastDims h p, lastPingTime h p)"

definition acts_for :: "peer_id \<Rightarrow> 'w handler \<Rightarrow> 'w handler \<Rightarrow> bool" where
  "acts_for p h h' \<longleftrightarrow> (\<forall>p'. p' \<noteq> p \<longrightarrow> entries h' p' = entries h p') \<and> sent_to p h h'"

lemma acts_refl [simp]: "acts_for p h h"
  by (simp add: acts_for_def)

lemma acts_trans: "acts_for p h h1 \<Longrightarrow> acts_for p h1 h2 \<Longrightarrow> acts_for p h h2"
  by (auto simp: acts_for_def intro: sent_trans)

lemma entries_upd [simp]:
  "entries (h\<lparr>hb := s\<rparr>) = entries h" "entries (h\<lparr>trk := t\<rparr>) = entries h" "entries (h\<lparr>outs := z\<rparr>) = entries h"
  "entries (h\<lparr>streams := x\<rparr>) = entries h" "entries (h\<lparr>exitNotified := y\<rparr>) = entries h"
  "entries (h\<lparr>superseded := u\<rparr>) = entries h" "entries (h\<lparr>canceled := v\<rparr>) = entries h"
  by (simp_all add: entries_def fun_eq_iff)

lemma entries_calls [simp]:
  "entries (snd (sendMsg e p m h)) = entries h" "entries (sendError e p c t h) = entries h"
  "entries (snd (on_tracker f h)) = entries h"
  by (simp_all add: sendError_def sendMsg_def on_tracker_def split: prod.splits)

lemma entries_client: "on_client f h = (r, h') \<Longrightarrow> entries h' = entries h"
  using on_client_frame by fastforce

lemma entries_endStream: "p' \<noteq> p \<Longrightarrow> entries (endStream p sid h) p' = entries h p'"
  by (simp add: entries_def endStream_def)

lemma entries_detach_locked: "p' \<noteq> p \<Longrightarrow> entries (detach_locked p w h) p' = entries h p'"
  by (auto simp: entries_def detach_locked_def Let_def split: option.splits)

lemma entries_await: "p' \<noteq> p \<Longrightarrow> entries (await_stream p d h) p' = entries h p'"
  by (simp add: await_stream_def entries_endStream split: option.splits)

lemma entries_detach: "p' \<noteq> p \<Longrightarrow> entries (detachPeerWait e p w h) p' = entries h p'"
  by (simp add: detachPeerWait_def Let_def entries_await entries_detach_locked split: option.splits)

lemma entries_reset: "p' \<noteq> p \<Longrightarrow> entries (resetStream e p sid r h) p' = entries h p'"
  by (simp add: resetStream_def Let_def entries_detach)

lemma entries_register: "p' \<noteq> p \<Longrightarrow> entries (register_stream p q c r b z h) p' = entries h p'"
  by (simp add: entries_def register_stream_def)

lemma entries_paneExit: "p' \<noteq> p \<Longrightarrow> entries (handlePaneExit e p w h) p' = entries h p'"
  by (auto simp: handlePaneExit_def Let_def entries_detach dest: entries_client split: option.splits sum.splits prod.splits)

lemma entries_pre: "p' \<noteq> p \<Longrightarrow> sendPreStream e p sid z d h = (ok, h') \<Longrightarrow> entries h' p' = entries h p'"
  by (auto simp: sendPreStream_def sendOutput_def sendMsg_def entries_reset split: option.splits prod.splits bool.splits)

lemma entries_start:
  assumes "p' \<noteq> p" shows "entries (start_stream e p q c r re z b h) p' = entries h p'"
proof -
  define k where "k = snd (sendMsg e p (AttachedEvent ''attached'' q (if z then ''deflate'' else ''''))
    (register_stream p q c r b z h))"
  obtain cs h3 where c: "on_client (CursorState (ex e) q) k = (cs, h3)" by fastforce
  have 3: "entries h3 p' = entries h p'"
    using assms entries_client [OF c] by (simp add: k_def entries_register)
  show ?thesis
    unfolding start_stream_def Let_def k_def [symmetric] c
    using 3 by (auto simp: entries_endStream [OF assms] dest!: entries_pre [OF assms]
        split: option.split prod.split bool.split)
qed

lemma entries_attach_failed: "entries (attach_failed e p q t h) = entries h"
  by (auto simp: attach_failed_def Let_def dest!: entries_client split: prod.splits sum.splits)

lemma entries_attach:
  assumes "p' \<noteq> p" shows "entries (handleAttach e p q c r re z h) p' = entries h p'"
  using assms entries_detach [OF assms, of e True h]
  by (auto simp: handleAttach_def on_tracker_def detachPeer_def Let_def entries_start entries_attach_failed
      split: prod.splits sum.splits)

lemma HandleMessage_acts: "acts_for p h (HandleMessage e p m h)"
proof -
  have "entries (HandleMessage e p m h) p' = entries h p'" if o: "p' \<noteq> p" for p'
  proof (cases m)
    case (PingRequest t)
    then show ?thesis using o by (simp add: handlePing_def sendMsg_def entries_def)
  next
    case (ResizeRequest t c r)
    then show ?thesis using o
      by (auto simp: handleResize_def entries_def sendError_def sendMsg_def split: prod.splits sum.splits option.splits)
  next
    case (ListSessionsRequest t)
    then show ?thesis
      by (auto simp: entries_detach [OF o] handleListSessions_def detachPeer_def Let_def dest!: entries_client
          split: prod.splits sum.splits option.splits)
  qed (use o in \<open>auto simp: entries_detach [OF o] entries_attach handleDetach_def handleInput_def handleKillSession_def
      handleCreateSession_def detachPeer_def dest!: entries_client split: prod.splits sum.splits option.splits\<close>)
  then show ?thesis using replies_go_to_the_requester [of e p m h] by (auto simp: acts_for_def sent_to_def)
qed

lemma stream_round_acts:
  assumes "streams h sid = Some st" shows "acts_for (st_peer st) h (stream_round e sid h)"
proof -
  have "entries (stream_round e sid h) p' = entries h p'" if o: "p' \<noteq> st_peer st" for p'
    using assms o
    by (auto simp: entries_endStream [OF o] entries_reset [OF o] entries_paneExit [OF o] stream_round_def sendOutput_def sendMsg_def Let_def split: option.splits sum.splits prod.splits bool.splits)
  then show ?thesis
    using replies_go_to_the_requester [of e "st_peer st" "PingRequest ''''" h sid] assms
    by (auto simp: acts_for_def sent_to_def)
qed

lemma watch_tick_acts: "acts_for p h (watch_tick e p q sid h)"
proof -
  obtain r h1 where c: "on_client (PaneExists (ex e) q) h = (r, h1)" by fastforce
  have "acts_for p h h1" using on_client_frame [OF c] by (auto simp: acts_for_def)
  moreover have "acts_for p h1 (handlePaneExit e p True h1)" by (simp add: acts_for_def entries_paneExit)
  ultimately show ?thesis using c by (auto simp: watch_tick_def split: bool.splits intro: acts_trans)
qed

lemma PeerDisconnected_acts: "acts_for p h (PeerDisconnected e p h)"
proof -
  have "entries (h\<lparr>lastPingTime := (lastPingTime h)(p := None)\<rparr>) p' = entries h p'" if "p' \<noteq> p" for p'
    using that by (simp add: entries_def)
  then show ?thesis by (simp add: acts_for_def PeerDisconnected_def detachPeer_def entries_detach)
qed

text \<open>A device the handler has no entry of; what happens without it being noticed.\<close>

definition absent :: "peer_id \<Rightarrow> 'w handler \<Rightarrow> bool" where
  "absent p h \<longleftrightarrow> entries h p = (None, None, None, None, None, None)"

definition msgs_to :: "peer_id \<Rightarrow> 'w handler \<Rightarrow> (peer_id \<times> message \<times> bool) list" where
  "msgs_to p h = filter (\<lambda>x. fst x = p) (outs h)"

definition unnoticed :: "peer_id \<Rightarrow> 'w handler \<Rightarrow> 'w handler \<Rightarrow> bool" where
  "unnoticed p h h' \<longleftrightarrow> entries h' p = entries h p \<and> msgs_to p h' = msgs_to p h"

lemma unnoticed_refl [simp]: "unnoticed p h h" "unnoticed p h (h\<lparr>hb := s\<rparr>)"
  by (simp_all add: unnoticed_def msgs_to_def)

lemma unnoticed_trans: "unnoticed p h h1 \<Longrightarrow> unnoticed p h1 h2 \<Longrightarrow> unnoticed p h h2"
  by (simp add: unnoticed_def)

lemma unnoticed_absent: "unnoticed p h h' \<Longrightarrow> absent p h \<Longrightarrow> absent p h'"
  by (simp add: unnoticed_def absent_def)

lemma acts_unnoticed: "acts_for p' h h' \<Longrightarrow> p' \<noteq> p \<Longrightarrow> unnoticed p h h'"
  by (auto simp: acts_for_def unnoticed_def msgs_to_def sent_to_def filter_empty_conv)

lemma absent_detached: "absent p h \<Longrightarrow> detached h p"
  by (simp add: absent_def entries_def detached_def)

lemma absent_PeerDisconnected:
  assumes "absent p h" shows "PeerDisconnected e p h = h"
proof -
  have "lastPingTime h p = None" using assms by (simp add: absent_def entries_def)
  then have "(lastPingTime h)(p := None) = lastPingTime h" by (simp add: fun_upd_idem)
  then show ?thesis
    using detach_detached [OF absent_detached [OF assms]] by (simp add: PeerDisconnected_def detachPeer_def)
qed

lemma gone_unnoticed: "absent p h \<Longrightarrow> unnoticed p h (PeerDisconnected e p' h)"
  by (cases "p' = p") (auto simp: absent_PeerDisconnected intro: acts_unnoticed [OF PeerDisconnected_acts])

lemma sweep_unnoticed: "absent p h \<Longrightarrow> unnoticed p h (sweep e tr t ps ss h)"
proof -
  have "absent p k \<Longrightarrow> unnoticed p k (fold (disconnect e tr) qs k)" for qs and k :: "'a handler"
  proof (induction qs arbitrary: k)
    case (Cons q qs)
    have "unnoticed p k (disconnect e tr q k)" using Cons.prems by (simp add: disconnect_def gone_unnoticed)
    with Cons show ?case by (auto intro: unnoticed_trans unnoticed_absent)
  qed simp
  then show "absent p h \<Longrightarrow> unnoticed p h (sweep e tr t ps ss h)" by (simp add: sweep_def)
qed

lemma stream_unnoticed:
  assumes "hinv h" "absent p h" shows "unnoticed p h (stream_round e sid h)"
proof (cases "streams h sid")
  case None
  then show ?thesis by (simp add: stream_round_def)
next
  case (Some st)
  have "hcore h" using assms(1) by (simp add: hinv_def)
  then have "st_peer st \<noteq> p"
    using stream_owner [OF _ Some] absent_detached [OF assms(2)] by (auto simp: detached_def attached_def)
  then show ?thesis by (rule acts_unnoticed [OF stream_round_acts [OF Some]])
qed

lemma watch_unnoticed:
  assumes "absent p h" shows "unnoticed p h (watch_tick e p' q sid h)"
proof (cases "p' = p")
  case True
  obtain r h1 where c: "on_client (PaneExists (ex e) q) h = (r, h1)" by fastforce
  obtain k where k: "h1 = h\<lparr>hb := (hb h)\<lparr>cl := k\<rparr>\<rparr>" using on_client_frame [OF c] by blast
  have "paneForPeer h1 p = None" using assms by (simp add: k absent_def entries_def)
  then have "handlePaneExit e p True h1 = h1" by (simp add: handlePaneExit_def)
  moreover have "unnoticed p h h1" by (simp add: k)
  ultimately show ?thesis using True c by (auto simp: watch_tick_def split: bool.split)
qed (rule acts_unnoticed [OF watch_tick_acts])

text \<open>Every step of the system but the handling of a request of \<open>p\<close> itself.\<close>

lemma step_unnoticed:
  assumes "hsstep mp c c'" "hinv (hst c)" "absent p (hst c)" "\<And>m. disp (conns c p) \<noteq> DHandling m"
  shows "unnoticed p (hst c) (hst c')"
  using assms(1)
proof cases
  case (request p' m e)
  then have "p' \<noteq> p" using assms(4) by auto
  then show ?thesis using acts_unnoticed [OF HandleMessage_acts] request by (simp add: hs_defs)
next
  case (peer q w)
  then show ?thesis by (simp add: hs_defs)
next
  case (pane_writes f b r s1)
  then show ?thesis by (simp add: hs_defs)
qed (simp_all add: hs_defs stream_unnoticed watch_unnoticed gone_unnoticed sweep_unnoticed assms(2,3))

section \<open>Before the proof\<close>

abbreviation has_proven :: "msgpack \<Rightarrow> (peer_id \<Rightarrow> bytes) \<Rightarrow> 'w hostsys \<Rightarrow> peer_id \<Rightarrow> bool" where
  "has_proven mp secret c p \<equiv> proven mp (secret p) (trace (pr (conns c p)))"

definition untouched :: "peer_id \<Rightarrow> 'w handler \<Rightarrow> bool" where
  "untouched p h \<longleftrightarrow> absent p h \<and> msgs_to p h = []"

definition inv_session :: "msgpack \<Rightarrow> (peer_id \<Rightarrow> bytes) \<Rightarrow> 'w bsys \<Rightarrow> 'w hostsys \<Rightarrow> bool" where
  "inv_session mp secret b c \<longleftrightarrow>
     (\<forall>p. \<not> has_proven mp secret c p \<longrightarrow> untouched p (hst c)) \<and>
     ((\<forall>p. \<not> has_proven mp secret c p) \<longrightarrow>
        cl (hb (hst c)) = cl b \<and> outs (hst c) = [] \<and> nextsid (hst c) = 0)"

lemma proven_later:
  assumes "hsstep mp c c'" "has_proven mp secret c p" shows "has_proven mp secret c' p"
proof -
  have "conns c' p = conns c p \<or> pstep mp (conns c p) (conns c' p)"
    by (rule conn_part.part_step [OF assms(1)])
  then show ?thesis using assms(2) trace_grows [of mp "conns c p" "conns c' p"] by auto
qed

text \<open>A handler nobody is attached to does nothing by itself.\<close>

lemma idle_stream:
  assumes "hinv h" "\<And>p. absent p h" shows "stream_round e sid h = h"
proof (cases "streams h sid")
  case (Some st)
  have "hcore h" using assms(1) by (simp add: hinv_def)
  from stream_owner [OF this Some] obtain q where "attached h (st_peer st) (st_bridge st) sid q" by blast
  then show ?thesis using absent_detached [OF assms(2), of "st_peer st"] by (simp add: detached_def attached_def)
qed (simp add: stream_round_def)

lemma idle_sweep: "(\<And>p. absent p h) \<Longrightarrow> sweep e tr t ps ss h = h"
proof -
  assume u: "\<And>p. absent p h"
  have "fold (disconnect e tr) qs h = h" for qs
    by (induction qs) (simp_all add: disconnect_def absent_PeerDisconnected u)
  then show ?thesis by (simp add: sweep_def)
qed

lemma relay_client: "relay_round f b s = (r, s1) \<Longrightarrow> cl s1 = cl s"
  by (auto simp: relay_round_def split: option.splits if_splits fifo_read.splits)

lemma quiet_step:
  assumes "hsstep mp c c'" "hinv (hst c)" "\<And>p. absent p (hst c)" "nextsid (hst c) = 0" "\<And>p m. disp (conns c p) \<noteq> DHandling m"
  shows "cl (hb (hst c')) = cl (hb (hst c)) \<and> outs (hst c') = outs (hst c) \<and> nextsid (hst c') = 0"
  using assms(1)
proof cases
  case (request p m e)
  then show ?thesis using assms(5) by blast
next
  case (pane_writes f b r s1)
  then show ?thesis using assms(4) relay_client [OF pane_writes(2)] by (simp add: hs_defs)
qed (simp_all add: hs_defs idle_stream [OF assms(2,3)] idle_sweep [OF assms(3)] absent_PeerDisconnected [OF assms(3)] assms(4))

lemma session_inv:
  assumes "reach (hsinit att secret b) (hsstep mp) c" shows "inv_session mp secret b c"
  using assms
proof (induction rule: reach.induct)
  case (start c)
  then show ?case
    by (auto simp: inv_session_def hsinit_def NewHandler_def untouched_def absent_def msgs_to_def entries_def)
next
  case (move c c')
  have i: "hinv (hst c)" by (rule handler.inv_reach [OF handler_part.part_reach [OF move.hyps(1)]])
  have h: "has_proven mp secret c p" if "disp (conns c p) = DHandling m" for p m
    using handling_proven [OF conn_part.part_reach [OF move.hyps(1), of p] that] .
  have n: "\<not> has_proven mp secret c p" "untouched p (hst c)" "\<And>m. disp (conns c p) \<noteq> DHandling m"
    if "\<not> has_proven mp secret c' p" for p
  proof -
    show "\<not> has_proven mp secret c p" using proven_later [OF move.hyps(2)] that by blast
    then show "untouched p (hst c)" "\<And>m. disp (conns c p) \<noteq> DHandling m"
      using move.IH h unfolding inv_session_def by blast+
  qed
  have "untouched p (hst c')" if "\<not> has_proven mp secret c' p" for p
    using step_unnoticed [OF move.hyps(2) i _ n(3) [OF that]] n(2) [OF that] by (auto simp: untouched_def unnoticed_def absent_def)
  moreover have "cl (hb (hst c')) = cl b \<and> outs (hst c') = [] \<and> nextsid (hst c') = 0" if "\<forall>p. \<not> has_proven mp secret c' p"
  proof -
    have "\<forall>p. \<not> has_proven mp secret c p" using n(1) that by blast
    then have k: "cl (hb (hst c)) = cl b" "outs (hst c) = []" "nextsid (hst c) = 0"
      using move.IH by (simp_all add: inv_session_def)
    have "absent p (hst c)" "disp (conns c p) \<noteq> DHandling m" for p m using n that by (auto simp: untouched_def)
    then show ?thesis using quiet_step [OF move.hyps(2) i _ k(3)] k by auto
  qed
  ultimately show ?case unfolding inv_session_def by blast
qed

section \<open>After the stop\<close>

lemma stopped_later: "pstep mp w w' \<Longrightarrow> dispatchStopped (pr w) \<Longrightarrow> dispatchStopped (pr w')"
  by (erule pstep.cases)
    (auto simp: op_defs dest!: send_finish_state raw_finish_state
      split: option.splits if_splits route.splits sum.splits prod.splits)

lemma stopped_not_handling:
  "reach (pinit d a s) (pstep mp) w \<Longrightarrow> dispatchStopped (pr w) \<Longrightarrow> disp w \<noteq> DHandling m"
  using handling.inv_reach [of d a s mp w] by (auto simp: inv_handling_def)

lemma gone_step:
  assumes "reach (hsinit att secret b) (hsstep mp) c" "hsstep mp c c'"
    and "dispatchStopped (pr (conns c p))" "absent p (hst c)"
  shows "dispatchStopped (pr (conns c' p)) \<and> unnoticed p (hst c) (hst c')"
proof -
  have i: "hinv (hst c)" by (rule handler.inv_reach [OF handler_part.part_reach [OF assms(1)]])
  have "disp (conns c p) \<noteq> DHandling m" for m
    by (rule stopped_not_handling [OF conn_part.part_reach [OF assms(1)] assms(3)])
  then have "unnoticed p (hst c) (hst c')" by (rule step_unnoticed [OF assms(2) i assms(4)])
  moreover have "dispatchStopped (pr (conns c' p))"
    using conn_part.part_step [OF assms(2), of p] stopped_later assms(3) by metis
  ultimately show ?thesis by blast
qed

lemma gone_forever:
  assumes "(hsstep mp)\<^sup>*\<^sup>* c c'" "reach (hsinit att secret b) (hsstep mp) c"
    and "dispatchStopped (pr (conns c p))" "absent p (hst c)"
  shows "dispatchStopped (pr (conns c' p)) \<and> unnoticed p (hst c) (hst c')"
  using assms(1)
proof (induction rule: rtranclp_induct)
  case base
  then show ?case using assms(3) by simp
next
  case (step y z)
  have r: "reach (hsinit att secret b) (hsstep mp) y" by (rule reach_steps [OF assms(2) step.hyps(1)])
  have "absent p (hst y)" using step.IH unnoticed_absent assms(4) by blast
  then show ?case using gone_step [OF r step.hyps(2)] step.IH unnoticed_trans by blast
qed

lemma disconnect_absent:
  assumes "hinv h" shows "absent p (PeerDisconnected e p h)" "outs (PeerDisconnected e p h) = outs h"
proof -
  let ?h = "h\<lparr>lastPingTime := (lastPingTime h)(p := None)\<rparr>"
  have "detached (detachPeer e p ?h) p" by (rule detached_detach) (simp add: assms)
  moreover have "lastPingTime (detachPeerWait e p True k) = lastPingTime k" for k :: "'a handler"
    by (simp add: detachPeerWait_def detach_locked_def await_stream_def endStream_def on_tracker_def Let_def
        split: option.splits prod.splits)
  ultimately show "absent p (PeerDisconnected e p h)"
    by (simp add: PeerDisconnected_def absent_def entries_def detached_def detachPeer_def)
  show "outs (PeerDisconnected e p h) = outs h"
    by (simp add: PeerDisconnected_def detachPeer_def detach_sel)
qed

section \<open>Runs of one connection\<close>

text \<open>The handler never blocks a connection: every run of a connection alone is a run of the system.\<close>

lemma handling_steps:
  assumes "pstep mp w w'" "disp w = DHandling m"
  shows "disp w' = DHandling m \<or> w' = w\<lparr>disp := DIdle\<rparr>"
  using assms by cases auto

lemma connection_runs:
  assumes "reach (pinit p (att p) (secret p)) (pstep mp) w" "wf_heap b"
  shows "\<exists>c. reach (hsinit att secret b) (hsstep mp) c \<and> conns c p = w \<and>
    (\<forall>q. q \<noteq> p \<longrightarrow> pinit q (att q) (secret q) (conns c q))"
  using assms(1)
proof (induction rule: reach.induct)
  case (start w)
  define fresh where "fresh q = \<lparr>pr = new_peer q (att q) (secret q), opener = ONew, disp = DIdle, outbox = [], rawbox = []\<rparr>" for q
  let ?c = "\<lparr>conns = fresh, hst = NewHandler b\<rparr>"
  have "hsinit att secret b ?c" using assms(2) by (simp add: hsinit_def fresh_def pinit_def)
  moreover have "fresh p = w" using start by (simp add: fresh_def pinit_def)
  ultimately show ?case by (intro exI [of _ ?c]) (auto simp: fresh_def pinit_def intro: reach.start)
next
  case (move w w')
  then obtain c where c: "reach (hsinit att secret b) (hsstep mp) c" "conns c p = w"
    "\<And>q. q \<noteq> p \<Longrightarrow> pinit q (att q) (secret q) (conns c q)" by blast
  show ?case
  proof (cases "\<exists>m. disp w = DHandling m \<and> disp w' \<noteq> DHandling m")
    case True
    then obtain m where m: "disp w = DHandling m" "w' = w\<lparr>disp := DIdle\<rparr>"
      using handling_steps [OF move.hyps(2)] by blast
    have "hsstep mp c (dispatch e p m c)" for e using hsstep.request m(1) c(2) by blast
    then show ?thesis using c m(2)
      by (intro exI [of _ "dispatch undefined p m c"]) (auto simp: hs_defs intro: reach.move)
  next
    case False
    then have "hsstep mp c (on_conn p w' c)" using hsstep.peer [of mp c p w'] move.hyps(2) c(2) by blast
    then show ?thesis using c by (intro exI [of _ "on_conn p w' c"]) (auto simp: hs_defs intro: reach.move)
  qed
qed

section \<open>Properties\<close>



end
