(* ===== verification/Idle_Cleaner.thy ===== *)
theory Idle_Cleaner
  imports Host_Session Peer_Manager
begin

text \<open>
  \<open>internal/agent/cleanup.go\<close> with both of its collaborators: the connection cleaner asks the handler
  for stale peers and the peer manager for dead connections, and tears each of them down through the
  manager, or in the handler alone when the manager does not track the peer. What the WebRTC library
  says about a connection is the argument \<open>cst\<close>; the orders in which Go visits the two maps are
  arguments as well.

  Shown here: the sweep acts on the handler exactly as \<open>Handler.sweep\<close> and on the manager only by
  scheduling tear-downs; after it every idle or dead peer is being torn down or gone, and no
  other is; a peer that stops pinging is swept within 90 seconds.
\<close>

section \<open>The cleaner\<close>

definition DefaultCleanupInterval :: int where "DefaultCleanupInterval = 30 * 10 ^ 9"
definition DefaultIdleTimeout :: int where "DefaultIdleTimeout = 60 * 10 ^ 9"

record cleaner =
  cc_interval :: int
  cc_timeout :: int
  cc_stateChecker :: bool

definition NewConnectionCleaner :: cleaner where
  "NewConnectionCleaner =
     \<lparr>cc_interval = DefaultCleanupInterval, cc_timeout = DefaultIdleTimeout, cc_stateChecker = False\<rparr>"

definition WithInterval :: "int \<Rightarrow> cleaner \<Rightarrow> cleaner" where "WithInterval d cc = cc\<lparr>cc_interval := d\<rparr>"
definition WithTimeout :: "int \<Rightarrow> cleaner \<Rightarrow> cleaner" where "WithTimeout d cc = cc\<lparr>cc_timeout := d\<rparr>"
definition WithStateChecker :: "cleaner \<Rightarrow> cleaner" where "WithStateChecker cc = cc\<lparr>cc_stateChecker := True\<rparr>"

text \<open>\<open>PeerStates\<close>: device and state name for every entry of the table, \<open>devs\<close> listing its devices.\<close>

fun state_name :: "pc_state \<Rightarrow> string" where
  "state_name PCNew = ''new''"
| "state_name PCConnecting = ''connecting''"
| "state_name PCConnected = ''connected''"
| "state_name PCDisconnected = ''disconnected''"
| "state_name PCFailed = ''failed''"
| "state_name PCClosed = ''closed''"

definition PeerStates :: "(nat \<Rightarrow> pc_state) \<Rightarrow> peer_id list \<Rightarrow> mgr \<Rightarrow> (peer_id \<times> string) list" where
  "PeerStates cst devs m =
     List.map_filter (\<lambda>d. map_option (\<lambda>a. (d, state_name (cst a))) (peers m d)) devs"

section \<open>Sweeping\<close>

definition cleaner_disconnect :: "'w henv \<Rightarrow> peer_id \<Rightarrow> mgr \<times> 'w handler \<Rightarrow> mgr \<times> 'w handler" where
  "cleaner_disconnect e p w = (case w of (m, h) \<Rightarrow>
     (case DisconnectPeer p m of
        (True, m1) \<Rightarrow> (m1, h)
      | (False, m1) \<Rightarrow> (m1, PeerDisconnected e p h)))"

definition cleaner_sweep ::
  "cleaner \<Rightarrow> 'w henv \<Rightarrow> (nat \<Rightarrow> pc_state) \<Rightarrow> peer_id list \<Rightarrow> peer_id list \<Rightarrow> mgr \<times> 'w handler \<Rightarrow> mgr \<times> 'w handler" where
  "cleaner_sweep cc e cst pinged devs w =
     (let stale = GetStalePeers (clock e) (cc_timeout cc) pinged (snd w);
          w1 = fold (cleaner_disconnect e) stale w
      in if \<not> cc_stateChecker cc then w1
         else fold (cleaner_disconnect e)
                (map fst (filter (\<lambda>(p, s). p \<notin> set stale \<and> (s = ''failed'' \<or> s = ''closed'')) (PeerStates cst devs (fst w1)))) w1)"

text \<open>\<open>Run\<close>: a sweep per tick, until the context is done.\<close>

primrec cleaner_run ::
  "cleaner \<Rightarrow> ('w henv \<times> (nat \<Rightarrow> pc_state) \<times> peer_id list \<times> peer_id list) list \<Rightarrow> mgr \<times> 'w handler \<Rightarrow> mgr \<times> 'w handler" where
  "cleaner_run cc [] w = w"
| "cleaner_run cc (t # ts) w = (case t of (e, cst, pinged, devs) \<Rightarrow> cleaner_run cc ts (cleaner_sweep cc e cst pinged devs w))"

section \<open>The two sides of a sweep\<close>

text \<open>In the manager a sweep only schedules tear-downs, so the table stays.\<close>

definition schedule :: "peer_id \<Rightarrow> mgr \<Rightarrow> mgr" where
  "schedule p m = snd (DisconnectPeer p m)"

lemma DisconnectPeer_fst: "fst (DisconnectPeer p m) \<longleftrightarrow> peers m p \<noteq> None"
  by (simp add: DisconnectPeer_def split: option.split)

lemma schedule_peers [simp]: "peers (schedule p m) = peers m"
  by (auto simp: schedule_def DisconnectPeer_def scheduleCleanup_def goCleanup_def split: option.split)

lemma schedule_fold_peers [simp]: "peers (fold schedule ps m) = peers m"
  by (induction ps arbitrary: m) simp_all

lemma cleaner_disconnect_split:
  "cleaner_disconnect e p (m, h) = (schedule p m, disconnect e (\<lambda>d. peers m d \<noteq> None) p h)"
  using DisconnectPeer_fst [of p m]
  by (auto simp: cleaner_disconnect_def schedule_def disconnect_def split: prod.split bool.split)

lemma cleaner_fold_split:
  "fold (cleaner_disconnect e) ps (m, h) = (fold schedule ps m, fold (disconnect e (\<lambda>d. peers m d \<noteq> None)) ps h)"
  by (induction ps arbitrary: m h) (simp_all add: cleaner_disconnect_split)

definition observed :: "cleaner \<Rightarrow> (nat \<Rightarrow> pc_state) \<Rightarrow> peer_id list \<Rightarrow> mgr \<Rightarrow> (peer_id \<times> string) list" where
  "observed cc cst devs m = (if cc_stateChecker cc then PeerStates cst devs m else [])"

lemma PeerStates_table: "peers m = peers m' \<Longrightarrow> PeerStates cst devs m = PeerStates cst devs m'"
  by (simp add: PeerStates_def)

theorem cleaner_sweep_refines:
  "cleaner_sweep cc e cst pinged devs (m, h) =
     (fold schedule (sweep_targets (clock e) (cc_timeout cc) pinged (observed cc cst devs m) h) m,
      sweep e (\<lambda>d. peers m d \<noteq> None) (cc_timeout cc) pinged (observed cc cst devs m) h)"
proof -
  have "PeerStates cst devs (fold schedule ps m) = PeerStates cst devs m" for ps
    by (rule PeerStates_table) simp
  then show ?thesis
    by (simp add: cleaner_sweep_def Let_def cleaner_fold_split sweep_def sweep_targets_def observed_def)
qed

section \<open>Who is swept\<close>

lemma schedule_jobs:
  assumes "\<not> mclosed m" "p \<in> set ps" "peers m p = Some a"
  shows "JTeardown a \<in> set (jobs (fold schedule ps m))"
proof -
  have mono: "set (jobs m) \<subseteq> set (jobs (fold schedule qs m)) \<and> mclosed (fold schedule qs m) = mclosed m" for qs m
  proof (induction qs arbitrary: m)
    case (Cons q qs)
    have "set (jobs m) \<subseteq> set (jobs (schedule q m)) \<and> mclosed (schedule q m) = mclosed m"
      by (auto simp: schedule_def DisconnectPeer_def scheduleCleanup_def split: option.split)
    with Cons [of "schedule q m"] show ?case by auto
  qed simp
  obtain us vs where ps: "ps = us @ p # vs" using assms(2) by (auto simp: in_set_conv_decomp)
  let ?m = "fold schedule us m"
  have "JTeardown a \<in> set (jobs (schedule p ?m))"
    using assms(1,3) mono [of m us] by (simp add: schedule_def DisconnectPeer_def scheduleCleanup_def)
  then show ?thesis using mono [of "schedule p ?m" vs] by (auto simp: ps)
qed

lemma disconnect_hinv: "hinv h \<Longrightarrow> hinv (disconnect e tr p h)"
  by (simp add: disconnect_def hinv_PeerDisconnected)

lemma fold_disconnect:
  assumes "hinv h"
  shows "p \<in> set ps \<Longrightarrow> \<not> tr p \<Longrightarrow> absent p (fold (disconnect e tr) ps h)"
    and "p \<notin> set ps \<Longrightarrow> unnoticed p h (fold (disconnect e tr) ps h)"
proof -
  have kept: "absent p k \<Longrightarrow> absent p (fold (disconnect e tr) qs k)" for qs k
  proof (induction qs arbitrary: k)
    case (Cons q qs)
    have "absent p (disconnect e tr q k)"
      using gone_unnoticed [OF Cons.prems, of e q] unnoticed_absent Cons.prems by (auto simp: disconnect_def)
    with Cons.IH show ?case by simp
  qed simp
  show "p \<in> set ps \<Longrightarrow> \<not> tr p \<Longrightarrow> absent p (fold (disconnect e tr) ps h)"
    using assms
  proof (induction ps arbitrary: h)
    case (Cons q qs)
    show ?case
    proof (cases "q = p")
      case True
      then have "absent p (disconnect e tr q h)" using Cons.prems disconnect_absent(1) by (simp add: disconnect_def)
      then show ?thesis using kept by simp
    next
      case False
      then show ?thesis using Cons.IH [OF _ _ disconnect_hinv [OF Cons.prems(3)]] Cons.prems(1,2) by simp
    qed
  qed simp
  show "p \<notin> set ps \<Longrightarrow> unnoticed p h (fold (disconnect e tr) ps h)"
  proof (induction ps arbitrary: h)
    case (Cons q qs)
    then have "unnoticed p h (disconnect e tr q h)"
      using acts_unnoticed [OF PeerDisconnected_acts, of q p h e] by (auto simp: disconnect_def)
    with Cons show ?case by (auto intro: unnoticed_trans)
  qed simp
qed

text \<open>What a sweep by the running agent achieves: a peer that has not pinged for the timeout, or whose
  connection failed, is on its way out in the manager, or gone from the handler; all others keep
  what they have.\<close>

theorem sweep_disconnects_idle:
  assumes "hinv h" "\<not> mclosed m" "cleaner_sweep cc e cst pinged devs (m, h) = (m', h')"
  shows "p \<in> set (sweep_targets (clock e) (cc_timeout cc) pinged (observed cc cst devs m) h) \<Longrightarrow>
      (case peers m p of Some a \<Rightarrow> JTeardown a \<in> set (jobs m') | None \<Rightarrow> absent p h')"
    and "p \<notin> set (sweep_targets (clock e) (cc_timeout cc) pinged (observed cc cst devs m) h) \<Longrightarrow>
      entries h' p = entries h p \<and> peers m' p = peers m p"
  using assms(3) schedule_jobs [OF assms(2), of p] fold_disconnect [OF assms(1), of p]
  by (auto simp: cleaner_sweep_refines sweep_def unnoticed_def split: option.split)

lemma idle_is_target:
  "p \<in> set pinged \<Longrightarrow> lastPingTime h p = Some t \<Longrightarrow> timeout < time - t \<Longrightarrow> p \<in> set (sweep_targets time timeout pinged st h)"
  by (simp add: sweep_targets_def GetStalePeers_def is_stale_peer_def Let_def)

text \<open>With the default settings a peer silent since \<open>t\<close> meets a sweep in time.\<close>

lemma idle_swept_in_time:
  assumes "start \<le> t"
  shows "\<exists>k. DefaultIdleTimeout < (start + k * DefaultCleanupInterval) - t \<and>
    (start + k * DefaultCleanupInterval) - t \<le> 90 * 10 ^ 9"
proof -
  let ?i = DefaultCleanupInterval and ?d = "t + DefaultIdleTimeout - start"
  have "?d div ?i * ?i = ?d - ?d mod ?i" "0 \<le> ?d mod ?i" "?d mod ?i < ?i"
    by (simp_all add: minus_mod_eq_div_mult DefaultCleanupInterval_def)
  then show ?thesis
    by (intro exI [of _ "?d div ?i + 1"]) (auto simp: distrib_right DefaultCleanupInterval_def DefaultIdleTimeout_def)
qed

end
