(* ===== verification/Supervisor.thy ===== *)
theory Supervisor
  imports Identity Config
begin

text \<open>
  The process side of the agent: the PID file (\<open>pidfile.go\<close>), how a process is recognised as an
  agent (\<open>procargs_*.go\<close>), starting and stopping the background agent (\<open>supervisor.go\<close>) and the
  commands \<open>agent start\<close>, \<open>stop\<close>, \<open>restart\<close> and \<open>status\<close> (\<open>agent_*.go\<close>), all in
  \<open>internal/agent\<close>. What the operating system answered is the record \<open>sup_env\<close>; \<open>sup\<close> is the PID file,
  the signals sent, the agents started and the text printed. The last part splits \<open>EnsureRunning\<close>
  at its system calls and interleaves any number of callers on a file system with inodes, where
  the lock belongs to the inode and not to the name.
\<close>

section \<open>The world\<close>

datatype os_signal = SIGTERM | SIGKILL | SIGUSR1 | SIGUSR2

record sup =
  agentPid :: file_read
  sent :: "(int \<times> os_signal) list"
  children :: "int list"
  printed :: "string list"

text \<open>\<open>running\<close> is the answer to signal 0, \<open>polls\<close> what it answers at the ticks of a stop loop
  before the deadline fires, \<open>gone\<close> that the process is gone when it is asked after a failed signal.
  \<open>deliver\<close> is whether a signal is delivered. A PID file that could not be written has the contents
  \<open>pidLeft\<close>.\<close>

record sup_env =
  findOK :: bool
  running :: "int \<Rightarrow> bool"
  argvOf :: "int \<Rightarrow> string list option"
  deliver :: "os_signal \<Rightarrow> bool"
  polls :: "bool list"
  gone :: bool
  removeOK :: bool
  getpid :: int
  tmpWriteOK :: bool
  pidRenameOK :: bool
  openOK :: bool
  flockOK :: bool
  exeOK :: bool
  childPid :: "int option"
  pidWriteOK :: bool
  pidLeft :: file_read

datatype pid_error = EPidNotExist | EPidRead | EPidParse num_error | EPidInvalid int | EPidWrite | EPidRename

datatype sup_error =
    EIdent id_error
  | EOpenPid | EFlock | EExecutable | EStartAgent | EWritePidFile
  | EFindProcess int | ESigterm int | ESigkill int | ErrAgentNotRunning
  | EStillRunning int

section \<open>The PID file\<close>

definition print_line :: "string \<Rightarrow> sup \<Rightarrow> sup" where
  "print_line t w = w\<lparr>printed := printed w @ [t]\<rparr>"

definition ReadPIDFile :: "file_read \<Rightarrow> pid_error + int" where
  "ReadPIDFile f = (case f of
      NotExist \<Rightarrow> Inl EPidNotExist
    | ReadFailed \<Rightarrow> Inl EPidRead
    | Contents data \<Rightarrow>
       (case parse_int (trim_space data) of
          (_, Some e) \<Rightarrow> Inl (EPidParse e)
        | (pid, None) \<Rightarrow> if pid \<le> 0 then Inl (EPidInvalid pid) else Inr pid))"

definition WritePIDFile :: "sup_env \<Rightarrow> sup \<Rightarrow> (pid_error + unit) \<times> sup" where
  "WritePIDFile e w =
     (if \<not> tmpWriteOK e then (Inl EPidWrite, w)
      else if \<not> pidRenameOK e then (Inl EPidRename, w)
      else (Inr (), w\<lparr>agentPid := Contents (itoa (getpid e))\<rparr>))"

definition RemovePIDFile :: "sup_env \<Rightarrow> sup \<Rightarrow> sup" where
  "RemovePIDFile e w = (if removeOK e then w\<lparr>agentPid := NotExist\<rparr> else w)"

text \<open>\<open>readProcArgs\<close>: \<open>/proc/<pid>/cmdline\<close> on Linux, the output of \<open>ps\<close> on macOS.\<close>

definition nul :: char where "nul = CHR 0x00"

definition readProcArgs_linux :: "bytes option \<Rightarrow> string list option" where
  "readProcArgs_linux r = (case r of
      None \<Rightarrow> None
    | Some data \<Rightarrow>
       let trimmed = (if data \<noteq> [] \<and> last data = nul then butlast data else data)
       in if trimmed = '''' then None else Some (split_on nul trimmed))"

definition readProcArgs_darwin :: "bytes option \<Rightarrow> string list option" where
  "readProcArgs_darwin r = (case r of
      None \<Rightarrow> None
    | Some out \<Rightarrow> let trimmed = trim_space out in if trimmed = '''' then None else Some (Fields trimmed))"

definition IsProcessRunning :: "sup_env \<Rightarrow> int \<Rightarrow> bool" where
  "IsProcessRunning e pid \<longleftrightarrow> findOK e \<and> running e pid"

definition is_agent_argv :: "string list \<Rightarrow> bool" where
  "is_agent_argv argv \<longleftrightarrow>
     (let n = length argv in
      n \<ge> 3 \<and> argv ! (n - 2) = ''agent'' \<and> argv ! (n - 1) = ''run'' \<and>
      Base (join_with (CHR '' '') (take (n - 2) argv)) = ''pmux'')"

definition IsAgentProcess :: "sup_env \<Rightarrow> int \<Rightarrow> bool" where
  "IsAgentProcess e pid \<longleftrightarrow> IsProcessRunning e pid \<and>
     (case argvOf e pid of None \<Rightarrow> False | Some argv \<Rightarrow> is_agent_argv argv)"

definition CleanStalePIDFile :: "sup_env \<Rightarrow> sup \<Rightarrow> (sup_error + unit) \<times> sup" where
  "CleanStalePIDFile e w = (case ReadPIDFile (agentPid w) of
      Inl x \<Rightarrow> if x = EPidNotExist then (Inr (), w) else (Inr (), RemovePIDFile e w)
    | Inr pid \<Rightarrow> if IsProcessRunning e pid then (Inl (EStillRunning pid), w) else (Inr (), RemovePIDFile e w))"

section \<open>Starting\<close>

definition send_signal :: "sup_env \<Rightarrow> int \<Rightarrow> os_signal \<Rightarrow> sup \<Rightarrow> sup" where
  "send_signal e pid sg w = (if deliver e sg then w\<lparr>sent := sent w @ [(pid, sg)]\<rparr> else w)"

definition signalActivity :: "sup_env \<Rightarrow> int \<Rightarrow> sup \<Rightarrow> sup" where
  "signalActivity e pid w = (if findOK e then send_signal e pid SIGUSR1 w else w)"

definition signalReloadPairing :: "sup_env \<Rightarrow> int \<Rightarrow> sup \<Rightarrow> sup" where
  "signalReloadPairing e pid w = (if findOK e then send_signal e pid SIGUSR2 w else w)"

definition spawn_agent :: "sup_env \<Rightarrow> sup \<Rightarrow> (sup_error + unit) \<times> sup" where
  "spawn_agent e w =
     (if \<not> exeOK e then (Inl EExecutable, w)
      else case childPid e of
        None \<Rightarrow> (Inl EStartAgent, w)
      | Some pid \<Rightarrow>
         let w1 = w\<lparr>children := children w @ [pid]\<rparr> in
         if \<not> pidWriteOK e then (Inl EWritePidFile, w1\<lparr>agentPid := pidLeft e\<rparr>)
         else (Inr (), w1\<lparr>agentPid := Contents (itoa pid)\<rparr>))"

definition create_pid :: "sup \<Rightarrow> sup" where
  "create_pid w = (if agentPid w = NotExist then w\<lparr>agentPid := Contents ''''\<rparr> else w)"

definition EnsureRunning :: "'s store \<Rightarrow> kio \<Rightarrow> sup_env \<Rightarrow> 's keys \<Rightarrow> sup \<Rightarrow> (sup_error + unit) \<times> 's keys \<times> sup" where
  "EnsureRunning st io e k w = (case CheckIdentity st io k of
      (Inl x, k1) \<Rightarrow> (Inl (EIdent x), k1, w)
    | (Inr _, k1) \<Rightarrow>
       if \<not> openOK e then (Inl EOpenPid, k1, w)
       else let w1 = create_pid w in
         if \<not> flockOK e then (Inl EFlock, k1, w1)
         else (case ReadPIDFile (agentPid w1) of
                 Inr pid \<Rightarrow>
                   if IsAgentProcess e pid then (Inr (), k1, signalActivity e pid w1)
                   else (case spawn_agent e w1 of (r, w2) \<Rightarrow> (r, k1, w2))
               | Inl _ \<Rightarrow> (case spawn_agent e w1 of (r, w2) \<Rightarrow> (r, k1, w2))))"

section \<open>Stopping\<close>

text \<open>The loop of \<open>StopRunning\<close>: a tick finds the process gone, or the deadline fires and it is killed.\<close>

fun stop_poll :: "sup_env \<Rightarrow> int \<Rightarrow> bool list \<Rightarrow> sup \<Rightarrow> sup" where
  "stop_poll e pid [] w = RemovePIDFile e (send_signal e pid SIGKILL w)"
| "stop_poll e pid (alive # ticks) w = (if \<not> alive then RemovePIDFile e w else stop_poll e pid ticks w)"

definition StopRunning :: "sup_env \<Rightarrow> sup \<Rightarrow> (sup_error + unit) \<times> sup" where
  "StopRunning e w = (case ReadPIDFile (agentPid w) of
      Inl _ \<Rightarrow> (Inr (), w)
    | Inr pid \<Rightarrow>
       if \<not> IsAgentProcess e pid then (Inr (), RemovePIDFile e w)
       else if \<not> findOK e then (Inl (EFindProcess pid), w)
       else if \<not> deliver e SIGTERM then
         (if gone e then (Inr (), RemovePIDFile e w) else (Inl (ESigterm pid), w))
       else (Inr (), stop_poll e pid (polls e) (send_signal e pid SIGTERM w)))"

fun agent_stop_poll :: "sup_env \<Rightarrow> int \<Rightarrow> bool list \<Rightarrow> sup \<Rightarrow> (sup_error + unit) \<times> sup" where
  "agent_stop_poll e pid [] w =
     (if \<not> deliver e SIGKILL then
        (if gone e then (Inr (), RemovePIDFile e (print_line ''Agent stopped'' w)) else (Inl (ESigkill pid), w))
      else (Inr (), RemovePIDFile e (print_line ''Agent forcefully killed'' (send_signal e pid SIGKILL w))))"
| "agent_stop_poll e pid (alive # ticks) w =
     (if \<not> alive then (Inr (), RemovePIDFile e (print_line ''Agent stopped'' w))
      else agent_stop_poll e pid ticks w)"

definition RunAgentStop :: "sup_env \<Rightarrow> sup \<Rightarrow> (sup_error + unit) \<times> sup" where
  "RunAgentStop e w = (case ReadPIDFile (agentPid w) of
      Inl _ \<Rightarrow> (Inl ErrAgentNotRunning, w)
    | Inr pid \<Rightarrow>
       if \<not> IsAgentProcess e pid
       then (Inr (), RemovePIDFile e (print_line ''Agent is not running (stale PID file cleaned up)'' w))
       else if \<not> findOK e then (Inl (EFindProcess pid), w)
       else if \<not> deliver e SIGTERM then (Inl (ESigterm pid), w)
       else agent_stop_poll e pid (polls e) (send_signal e pid SIGTERM w))"

section \<open>The commands start, restart and status\<close>

definition RunAgentStart :: "'s store \<Rightarrow> kio \<Rightarrow> sup_env \<Rightarrow> 's keys \<Rightarrow> sup \<Rightarrow> (sup_error + unit) \<times> 's keys \<times> sup" where
  "RunAgentStart st io e k w =
     (let go = (case EnsureRunning st io e k w of
                  (Inl x, k1, w1) \<Rightarrow> (Inl x, k1, w1)
                | (Inr _, k1, w1) \<Rightarrow> (Inr (), k1, print_line ''Agent started'' w1))
      in case ReadPIDFile (agentPid w) of
           Inl _ \<Rightarrow> go
         | Inr pid \<Rightarrow>
            if IsAgentProcess e pid
            then (Inr (), k, print_line (''Agent is already running (PID '' @ itoa pid @ '')'') w)
            else go)"

text \<open>The second environment is what the operating system answers to the start phase.\<close>

definition RunAgentRestart ::
  "'s store \<Rightarrow> kio \<Rightarrow> sup_env \<Rightarrow> kio \<Rightarrow> sup_env \<Rightarrow> 's keys \<Rightarrow> sup \<Rightarrow> (sup_error + unit) \<times> 's keys \<times> sup" where
  "RunAgentRestart st io e io2 e2 k w = (case CheckIdentity st io k of
      (Inl x, k1) \<Rightarrow> (Inl (EIdent x), k1, w)
    | (Inr _, k1) \<Rightarrow>
       (case RunAgentStop e w of
          (Inr _, w1) \<Rightarrow> RunAgentStart st io2 e2 k1 w1
        | (Inl x, w1) \<Rightarrow>
            if x = ErrAgentNotRunning then RunAgentStart st io2 e2 k1 (print_line ''Agent was not running'' w1)
            else (Inl x, k1, w1)))"

text \<open>\<open>bufio.Scanner\<close> over lines: the terminator and a carriage return before it are removed, a last
  line without terminator counts, a line of 64 KiB or more ends the scan with an error.\<close>

definition maxToken :: nat where "maxToken = 65536"

definition drop_cr :: "string \<Rightarrow> string" where
  "drop_cr l = (if l \<noteq> [] \<and> last l = CHR 0x0D then butlast l else l)"

fun scan_tokens :: "string list \<Rightarrow> string list \<times> bool" where
  "scan_tokens [] = ([], True)"
| "scan_tokens (l # ls) =
     (if length l \<ge> maxToken then ([], False)
      else if ls = [] \<and> l = '''' then ([], True)
      else let (r, ok) = scan_tokens ls in (drop_cr l # r, ok))"

definition scan_log :: "bytes \<Rightarrow> string list \<times> bool" where
  "scan_log data = scan_tokens (split_on (CHR 0x0A) data)"

fun keep_last :: "nat \<Rightarrow> string list \<Rightarrow> string list \<Rightarrow> string list" where
  "keep_last n acc [] = acc"
| "keep_last n acc (l # ls) =
     (let a = acc @ [l] in keep_last n (if length a > n then tl a else a) ls)"

text \<open>\<open>tailFile\<close>: the lines kept, and whether the scan ended without an error.\<close>

definition tailFile :: "bytes option \<Rightarrow> nat \<Rightarrow> (string list \<times> bool) option" where
  "tailFile file n = (case file of
      None \<Rightarrow> None
    | Some data \<Rightarrow> (let (ls, ok) = scan_log data in Some (keep_last n [] ls, ok)))"

definition RunAgentDetail :: "string \<Rightarrow> sup_env \<Rightarrow> bytes option \<Rightarrow> bytes option \<Rightarrow> sup \<Rightarrow> (sup_error + unit) \<times> sup" where
  "RunAgentDetail version e ps logFile w =
     (let w0 = print_line (''pmux '' @ version) w in
      case ReadPIDFile (agentPid w) of
        Inl _ \<Rightarrow> (Inl ErrAgentNotRunning, print_line ''Agent is not running'' w0)
      | Inr pid \<Rightarrow>
         if \<not> IsProcessRunning e pid
         then (Inl ErrAgentNotRunning, snd (CleanStalePIDFile e (print_line ''Agent is not running (stale PID file)'' w0)))
         else
           let w1 = print_line (''Agent is running (PID '' @ itoa pid @ '')'') w0;
               w2 = (case ps of
                       None \<Rightarrow> w1
                     | Some out \<Rightarrow> let uptime = trim_space out in
                         if uptime \<noteq> '''' then print_line (''Uptime: '' @ uptime) w1 else w1);
               w3 = (case tailFile logFile 5 of
                       Some (ls, True) \<Rightarrow>
                         if ls \<noteq> [] then w2\<lparr>printed := printed w2 @ ['''', ''Recent log:''] @ map ((@) ''  '') ls\<rparr> else w2
                     | _ \<Rightarrow> w2)
           in (Inr (), w3))"

section \<open>Facts about the commands\<close>

lemma space_runes_heads:
  "\<forall>w \<in> set space_runes. w \<noteq> [] \<and> digit_val (hd w) = None \<and> digit_val (last w) = None"
  by code_simp

lemma has_prefix_hd: "has_prefix (c # s) w \<Longrightarrow> w \<noteq> [] \<Longrightarrow> c = hd w"
  by (cases w) auto

lemma digit_not_space:
  assumes "digit_val c \<noteq> None"
  shows "find (\<lambda>w. has_prefix (c # s) w) space_runes = None"
    "find (\<lambda>w. has_prefix (c # s) w) (map rev space_runes) = None"
  using assms space_runes_heads has_prefix_hd [of c s]
  by (auto simp: find_None_iff) (metis hd_rev option.distinct(1) rev_is_Nil_conv)+

lemma trim_digits:
  assumes "s \<noteq> []" "\<And>c. c \<in> set s \<Longrightarrow> digit_val c \<noteq> None"
  shows "trim_space s = s"
proof -
  obtain c t where s: "s = c # t" using assms(1) by (cases s) auto
  obtain d u where r: "rev s = d # u" using assms(1) by (cases "rev s") auto
  have "digit_val c \<noteq> None" "digit_val d \<noteq> None"
    using assms(2) s r by (metis list.set_intros(1), metis list.set_intros(1) set_rev)
  then have "strip_prefixes (length s) space_runes s = s"
    and "strip_prefixes (length s) (map rev space_runes) (rev s) = rev s"
    using digit_not_space [of c t] digit_not_space [of d u] unfolding r unfolding s
    by (simp_all del: length_map)
  then show ?thesis by (simp add: trim_space_def Let_def)
qed

lemma ReadPIDFile_itoa: "0 < p \<Longrightarrow> p \<le> max_int64 \<Longrightarrow> ReadPIDFile (Contents (itoa p)) = Inr p"
proof -
  assume p: "0 < p" "p \<le> max_int64"
  then have "trim_space (itoa p) = itoa p"
    using nat_digits_chars by (intro trim_digits) (auto simp: itoa_def)
  with p show ?thesis
    using parse_int_itoa [of p] by (simp add: ReadPIDFile_def min_int64_def)
qed

lemma ReadPIDFile_empty [simp]: "ReadPIDFile (Contents []) = Inl (EPidParse ErrSyntax)"
  by (simp add: ReadPIDFile_def trim_space_def parse_int_def parse_uint_def Let_def)

lemma ReadPIDFile_create: "ReadPIDFile (agentPid w) = Inl x \<Longrightarrow> \<exists>y. ReadPIDFile (agentPid (create_pid w)) = Inl y"
  by (cases "agentPid w = NotExist") (simp_all add: create_pid_def)

lemma create_pid_frame [simp]: "sent (create_pid w) = sent w" "children (create_pid w) = children w"
  by (simp_all add: create_pid_def)

lemma ReadPIDFile_create_Inr: "ReadPIDFile (agentPid (create_pid w)) = Inr p \<Longrightarrow> ReadPIDFile (agentPid w) = Inr p"
  by (cases "agentPid w = NotExist") (simp_all add: create_pid_def)

lemma sup_frame [simp]:
  "sent (RemovePIDFile e w) = sent w" "children (RemovePIDFile e w) = children w"
  "sent (print_line t w) = sent w" "children (print_line t w) = children w" "agentPid (print_line t w) = agentPid w"
  "children (send_signal e p s w) = children w" "agentPid (send_signal e p s w) = agentPid w"
  by (simp_all add: RemovePIDFile_def print_line_def send_signal_def)

text \<open>What an operation adds to the signals goes to the agent the PID file names.\<close>

definition only_to_agent :: "sup_env \<Rightarrow> sup \<Rightarrow> sup \<Rightarrow> bool" where
  "only_to_agent e w w' \<longleftrightarrow> (\<exists>new. sent w' = sent w @ new \<and>
     (\<forall>x \<in> set new. ReadPIDFile (agentPid w) = Inr (fst x) \<and> IsAgentProcess e (fst x)))"

lemma only_to_agent_refl [simp]: "sent w' = sent w \<Longrightarrow> only_to_agent e w w'"
  by (simp add: only_to_agent_def)

lemma only_to_agent_send:
  assumes "ReadPIDFile (agentPid w) = Inr p" "IsAgentProcess e p" "only_to_agent e w w1"
    and "sent w2 = sent w1 \<or> sent w2 = sent (send_signal e p s w1)"
  shows "only_to_agent e w w2"
proof -
  obtain new where new: "sent w1 = sent w @ new"
    "\<forall>x \<in> set new. ReadPIDFile (agentPid w) = Inr (fst x) \<and> IsAgentProcess e (fst x)"
    using assms(3) by (auto simp: only_to_agent_def)
  have "sent w2 = sent w @ new \<or> sent w2 = sent w @ (new @ [(p, s)])"
    using assms(4) new(1) by (auto simp: send_signal_def)
  moreover have "\<forall>x \<in> set (new @ [(p, s)]). ReadPIDFile (agentPid w) = Inr (fst x) \<and> IsAgentProcess e (fst x)"
    using new(2) assms(1,2) by simp
  ultimately show ?thesis using new(2) unfolding only_to_agent_def by blast
qed

lemma stop_poll_sent: "sent (stop_poll e p ts w) = sent w \<or> sent (stop_poll e p ts w) = sent (send_signal e p SIGKILL w)"
  by (induction ts) auto

lemma agent_stop_poll_sent:
  "sent (snd (agent_stop_poll e p ts w)) = sent w \<or> sent (snd (agent_stop_poll e p ts w)) = sent (send_signal e p SIGKILL w)"
  by (induction ts) auto

lemma StopRunning_signals: "only_to_agent e w (snd (StopRunning e w))"
proof (cases "ReadPIDFile (agentPid w)")
  case (Inr p)
  show ?thesis
  proof (cases "IsAgentProcess e p \<and> findOK e \<and> deliver e SIGTERM")
    case True
    let ?w1 = "send_signal e p SIGTERM w"
    have w1: "only_to_agent e w ?w1"
      by (rule only_to_agent_send [OF Inr, of e w _ SIGTERM]) (use True in auto)
    have "only_to_agent e w (stop_poll e p (polls e) ?w1)"
      by (rule only_to_agent_send [OF Inr _ w1 stop_poll_sent]) (use True in simp)
    with True Inr show ?thesis by (simp add: StopRunning_def)
  qed (auto simp: StopRunning_def Inr)
qed (simp add: StopRunning_def)

lemma RunAgentStop_signals: "only_to_agent e w (snd (RunAgentStop e w))"
proof (cases "ReadPIDFile (agentPid w)")
  case (Inr p)
  show ?thesis
  proof (cases "IsAgentProcess e p \<and> findOK e \<and> deliver e SIGTERM")
    case True
    let ?w1 = "send_signal e p SIGTERM w"
    have w1: "only_to_agent e w ?w1"
      by (rule only_to_agent_send [OF Inr, of e w _ SIGTERM]) (use True in auto)
    have "only_to_agent e w (snd (agent_stop_poll e p (polls e) ?w1))"
      by (rule only_to_agent_send [OF Inr _ w1 agent_stop_poll_sent]) (use True in simp)
    with True Inr show ?thesis by (simp add: RunAgentStop_def)
  qed (auto simp: RunAgentStop_def Inr)
qed (simp add: RunAgentStop_def)

lemma spawn_sent: "spawn_agent e w = (r, w1) \<Longrightarrow> sent w1 = sent w"
  by (auto simp: spawn_agent_def Let_def split: option.splits if_splits)

lemma EnsureRunning_signals: "only_to_agent e w (snd (snd (EnsureRunning st io e k w)))"
proof -
  have sg: "only_to_agent e w (signalActivity e p (create_pid w))"
    if "ReadPIDFile (agentPid (create_pid w)) = Inr p" "IsAgentProcess e p" for p
    using only_to_agent_send [OF ReadPIDFile_create_Inr [OF that(1)] that(2), of "create_pid w"]
    by (auto simp: signalActivity_def)
  show ?thesis
    by (auto simp: EnsureRunning_def Let_def sg dest: spawn_sent split: prod.splits sum.splits)
qed

lemma RunAgentStart_signals: "only_to_agent e w (snd (snd (RunAgentStart st io e k w)))"
  using EnsureRunning_signals [of e w st io k]
  by (auto simp: RunAgentStart_def Let_def only_to_agent_def split: prod.splits sum.splits)

text \<open>Property C8. Stopping, starting and waking the agent sends signals only to the process the PID file
  names, and only after its arguments showed that it is an agent: a process that got
  the number of a dead agent is never signalled.\<close>

theorem only_agents_signalled:
  "only_to_agent e w (snd (StopRunning e w)) \<and> only_to_agent e w (snd (RunAgentStop e w)) \<and>
   only_to_agent e w (snd (snd (EnsureRunning st io e k w))) \<and> only_to_agent e w (snd (snd (RunAgentStart st io e k w)))"
  by (simp add: StopRunning_signals RunAgentStop_signals EnsureRunning_signals RunAgentStart_signals)

text \<open>A stop that reports success removed the PID file and told a running agent to end.\<close>

lemma agent_stop_poll_done:
  assumes "agent_stop_poll e p ts w = (Inr (), w')" "removeOK e"
  shows "agentPid w' = NotExist \<and> children w' = children w \<and> set (sent w) \<subseteq> set (sent w') \<and>
    ((p, SIGKILL) \<in> set (sent w') \<or> False \<in> set ts \<or> gone e)"
  using assms
  by (induction ts) (auto simp: RemovePIDFile_def print_line_def send_signal_def split: if_splits)

lemma RunAgentStop_done:
  assumes "RunAgentStop e w = (Inr (), w')" "removeOK e"
  shows "agentPid w' = NotExist \<and> children w' = children w \<and>
    (\<exists>p. ReadPIDFile (agentPid w) = Inr p \<and>
       (\<not> IsAgentProcess e p \<or>
        (p, SIGTERM) \<in> set (sent w') \<and> ((p, SIGKILL) \<in> set (sent w') \<or> False \<in> set (polls e) \<or> gone e)))"
proof -
  obtain p where p: "ReadPIDFile (agentPid w) = Inr p"
    using assms by (cases "ReadPIDFile (agentPid w)") (auto simp: RunAgentStop_def)
  show ?thesis
  proof (cases "IsAgentProcess e p")
    case False
    with assms p show ?thesis by (auto simp: RunAgentStop_def RemovePIDFile_def print_line_def)
  next
    case True
    then have t: "agent_stop_poll e p (polls e) (send_signal e p SIGTERM w) = (Inr (), w')" "deliver e SIGTERM"
      using assms p by (auto simp: RunAgentStop_def split: if_splits)
    then have "(p, SIGTERM) \<in> set (sent (send_signal e p SIGTERM w))" by (simp add: send_signal_def)
    with agent_stop_poll_done [OF t(1) assms(2)] p show ?thesis by auto
  qed
qed

lemma spawn_fresh: "spawn_agent e w = (Inr (), w') \<Longrightarrow> \<exists>c. childPid e = Some c \<and> children w' = children w @ [c] \<and> agentPid w' = Contents (itoa c)"
  by (auto simp: spawn_agent_def Let_def split: option.splits if_splits)

lemma start_fresh:
  assumes "ReadPIDFile (agentPid w) = Inl x" "RunAgentStart st io e k w = (Inr (), k', w')"
  shows "\<exists>c. childPid e = Some c \<and> children w' = children w @ [c] \<and> agentPid w' = Contents (itoa c) \<and> sent w' = sent w"
proof -
  obtain y where y: "ReadPIDFile (agentPid (create_pid w)) = Inl y" using ReadPIDFile_create [OF assms(1)] ..
  obtain w1 where w1: "EnsureRunning st io e k w = (Inr (), k', w1)" "w' = print_line ''Agent started'' w1"
    using assms by (auto simp: RunAgentStart_def Let_def split: sum.splits prod.splits)
  then have "spawn_agent e (create_pid w) = (Inr (), w1)"
    using y by (auto simp: EnsureRunning_def Let_def split: prod.splits sum.splits if_splits)
  from spawn_fresh [OF this] spawn_sent [OF this] w1(2) show ?thesis by auto
qed

text \<open>A restart that reports success stopped the agent the PID file named, if it was one,
  and started a fresh one whose number the PID file now holds. A restart without an
  identity, or one whose stop phase fails, starts nothing; without an identity it stops nothing either.\<close>

theorem restart_is_fresh:
  assumes "RunAgentRestart st io e io2 e2 k w = (r, k', w')" "removeOK e"
  shows "(r = Inr () \<longrightarrow> (\<exists>c. childPid e2 = Some c \<and> children w' = children w @ [c] \<and> agentPid w' = Contents (itoa c)) \<and>
      (\<forall>p. ReadPIDFile (agentPid w) = Inr p \<longrightarrow> IsAgentProcess e p \<longrightarrow> (p, SIGTERM) \<in> set (sent w')))
    \<and> (\<not> isOK (fst (CheckIdentity st io k)) \<longrightarrow> w' = w \<and> \<not> isOK r)
    \<and> (\<forall>x. fst (RunAgentStop e w) = Inl x \<longrightarrow> x \<noteq> ErrAgentNotRunning \<longrightarrow> children w' = children w \<and> \<not> isOK r)"
proof -
  obtain q k1 where q: "CheckIdentity st io k = (q, k1)" by fastforce
  obtain s w1 where s: "RunAgentStop e w = (s, w1)" by fastforce
  have nochild: "children (snd (RunAgentStop e w)) = children w"
  proof -
    have "children (snd (agent_stop_poll e p ts v)) = children v" for p ts v
      by (induction ts) auto
    then show ?thesis by (auto simp: RunAgentStop_def split: sum.split)
  qed
  show ?thesis
  proof (cases q)
    case (Inl x)
    with assms q show ?thesis
      using s nochild by (auto simp: RunAgentRestart_def)
  next
    case q': (Inr u)
    show ?thesis
    proof (cases s)
      case (Inr v)
      with s have stop: "RunAgentStop e w = (Inr (), w1)" by simp
      note d = RunAgentStop_done [OF stop assms(2)]
      have st: "RunAgentStart st io2 e2 k1 w1 = (r, k', w')"
        using assms q q' s Inr by (simp add: RunAgentRestart_def)
      have "ReadPIDFile (agentPid w1) = Inl EPidNotExist" using d by (simp add: ReadPIDFile_def)
      from start_fresh [OF this] st d show ?thesis
        using q q' stop by fastforce
    next
      case (Inl x)
      show ?thesis
      proof (cases "x = ErrAgentNotRunning")
        case True
        have rd: "\<exists>y. ReadPIDFile (agentPid w) = Inl y" "w1 = w"
        proof -
          have "agent_stop_poll e p ts v \<noteq> (Inl ErrAgentNotRunning, w1)" for p ts v by (induction ts) auto
          then show "\<exists>y. ReadPIDFile (agentPid w) = Inl y" "w1 = w"
            using s Inl True by (auto simp: RunAgentStop_def split: sum.splits if_splits)
        qed
        then obtain y where y: "ReadPIDFile (agentPid (print_line ''Agent was not running'' w)) = Inl y" by auto
        have st: "RunAgentStart st io2 e2 k1 (print_line ''Agent was not running'' w) = (r, k', w')"
          using assms q q' s Inl True rd by (simp add: RunAgentRestart_def)
        from start_fresh [OF y] st rd(1) show ?thesis
          using q q' s Inl True by fastforce
      next
        case False
        with assms q q' s Inl have "r = Inl x" "w' = w1" by (auto simp: RunAgentRestart_def)
        with q q' s nochild show ?thesis by auto
      qed
    qed
  qed
qed

text \<open>The tail of the log is its last lines.\<close>

lemma keep_last_drop: "length acc \<le> n \<Longrightarrow> keep_last n acc ls = drop (length (acc @ ls) - n) (acc @ ls)"
proof (induction ls arbitrary: acc)
  case (Cons l ls)
  show ?case
  proof (cases "length acc < n")
    case True
    with Cons.IH [of "acc @ [l]"] show ?thesis by (simp add: Let_def)
  next
    case False
    with Cons.prems have n: "length acc = n" by simp
    have "keep_last n acc (l # ls) = keep_last n (tl (acc @ [l])) ls" by (simp add: Let_def n)
    also have "\<dots> = drop (length (tl (acc @ [l]) @ ls) - n) (tl (acc @ [l]) @ ls)"
      by (rule Cons.IH) (simp add: n)
    also have "\<dots> = drop (length (acc @ l # ls) - n) (acc @ l # ls)"
      using n by (cases acc) auto
    finally show ?thesis .
  qed
qed simp

lemma tailFile_last: "tailFile (Some data) n = (case scan_log data of (ls, ok) \<Rightarrow> Some (drop (length ls - n) ls, ok))"
  by (simp add: tailFile_def keep_last_drop split: prod.split)

text \<open>The status command takes any process with the recorded number for the agent, the start command
  does not: the two disagree when the number was reused.\<close>

lemma status_ignores_reuse:
  assumes "ReadPIDFile (agentPid w) = Inr p" "IsProcessRunning e p" "\<not> IsAgentProcess e p"
  shows "fst (RunAgentDetail v e ps l w) = Inr ()"
    "fst (RunAgentStop e w) = Inr () \<and> sent (snd (RunAgentStop e w)) = sent w"
  using assms by (simp_all add: RunAgentDetail_def RunAgentStop_def Let_def)

section \<open>Concurrent callers\<close>

text \<open>The directory entry of the PID file, the contents of the inodes, who holds_lock the lock of an inode,
  the agents that run, and where each caller of \<open>EnsureRunning\<close> is. A caller that started an agent
  truncates the file and writes the number in two steps, as \<open>os.WriteFile\<close> does.\<close>

datatype cpc =
    CIdle
  | COpened nat
  | CLocked nat
  | CStarted nat int
  | CTruncated nat nat int
  | CDone

record pidfs =
  dirent :: "nat option"
  idata :: "nat \<Rightarrow> bytes"
  ifresh :: nat
  holder :: "nat \<Rightarrow> nat option"
  live :: "int list"
  callers :: "nat \<Rightarrow> cpc"

definition open_entry :: "pidfs \<Rightarrow> nat \<times> pidfs" where
  "open_entry s = (case dirent s of
      Some i \<Rightarrow> (i, s)
    | None \<Rightarrow> (ifresh s, s\<lparr>dirent := Some (ifresh s), idata := (idata s)(ifresh s := ''''), ifresh := Suc (ifresh s)\<rparr>))"

definition at_path :: "pidfs \<Rightarrow> file_read" where
  "at_path s = (case dirent s of None \<Rightarrow> NotExist | Some i \<Rightarrow> Contents (idata s i))"

definition found_agent :: "pidfs \<Rightarrow> bool" where
  "found_agent s = (case ReadPIDFile (at_path s) of Inl _ \<Rightarrow> False | Inr p \<Rightarrow> p \<in> set (live s))"

definition ensure_open :: "nat \<Rightarrow> pidfs \<Rightarrow> pidfs" where
  "ensure_open c s = (case open_entry s of (i, t) \<Rightarrow> t\<lparr>callers := (callers t)(c := COpened i)\<rparr>)"

definition ensure_lock :: "nat \<Rightarrow> nat \<Rightarrow> pidfs \<Rightarrow> pidfs" where
  "ensure_lock c i s = s\<lparr>holder := (holder s)(i \<mapsto> c), callers := (callers s)(c := CLocked i)\<rparr>"

definition ensure_leave :: "nat \<Rightarrow> nat \<Rightarrow> pidfs \<Rightarrow> pidfs" where
  "ensure_leave c i s = s\<lparr>holder := (holder s)(i := None), callers := (callers s)(c := CDone)\<rparr>"

definition ensure_start :: "nat \<Rightarrow> nat \<Rightarrow> int \<Rightarrow> pidfs \<Rightarrow> pidfs" where
  "ensure_start c i p s = s\<lparr>live := p # live s, callers := (callers s)(c := CStarted i p)\<rparr>"

definition spawn_truncate :: "nat \<Rightarrow> nat \<Rightarrow> int \<Rightarrow> pidfs \<Rightarrow> pidfs" where
  "spawn_truncate c i p s = (case open_entry s of
      (j, t) \<Rightarrow> t\<lparr>idata := (idata t)(j := ''''), callers := (callers t)(c := CTruncated i j p)\<rparr>)"

definition spawn_write :: "nat \<Rightarrow> nat \<Rightarrow> nat \<Rightarrow> int \<Rightarrow> pidfs \<Rightarrow> pidfs" where
  "spawn_write c i j p s = ensure_leave c i (s\<lparr>idata := (idata s)(j := itoa p)\<rparr>)"

inductive caller_step :: "pidfs \<Rightarrow> pidfs \<Rightarrow> bool" where
  open_step: "callers s c = CIdle \<Longrightarrow> caller_step s (ensure_open c s)"
| lock_step: "callers s c = COpened i \<Longrightarrow> holder s i = None \<Longrightarrow> caller_step s (ensure_lock c i s)"
| found_step: "callers s c = CLocked i \<Longrightarrow> found_agent s \<Longrightarrow> caller_step s (ensure_leave c i s)"
| start_step: "callers s c = CLocked i \<Longrightarrow> \<not> found_agent s \<Longrightarrow> 0 < p \<Longrightarrow> p \<le> max_int64 \<Longrightarrow> p \<notin> set (live s) \<Longrightarrow>
    caller_step s (ensure_start c i p s)"
| fail_step: "callers s c = CLocked i \<Longrightarrow> \<not> found_agent s \<Longrightarrow> caller_step s (ensure_leave c i s)"
| trunc_step: "callers s c = CStarted i p \<Longrightarrow> caller_step s (spawn_truncate c i p s)"
| write_step: "callers s c = CTruncated i j p \<Longrightarrow> caller_step s (spawn_write c i j p s)"

text \<open>An agent that runs \<open>WritePIDFile\<close> gives the name to a new inode; one that ends removes the name.\<close>

definition agent_write :: "int \<Rightarrow> pidfs \<Rightarrow> pidfs" where
  "agent_write p s = s\<lparr>dirent := Some (ifresh s), idata := (idata s)(ifresh s := itoa p), ifresh := Suc (ifresh s)\<rparr>"

definition agent_exit :: "int \<Rightarrow> pidfs \<Rightarrow> pidfs" where
  "agent_exit p s = s\<lparr>live := removeAll p (live s), dirent := None\<rparr>"

inductive pid_step :: "pidfs \<Rightarrow> pidfs \<Rightarrow> bool" where
  caller: "caller_step s t \<Longrightarrow> pid_step s t"
| replace: "p \<in> set (live s) \<Longrightarrow> pid_step s (agent_write p s)"
| leave: "p \<in> set (live s) \<Longrightarrow> pid_step s (agent_exit p s)"

text \<open>The agent replaces the file only after the caller that started it has written the number.\<close>

definition recorded :: "int \<Rightarrow> pidfs \<Rightarrow> bool" where
  "recorded p s \<longleftrightarrow> (\<forall>c i j. callers s c \<noteq> CStarted i p \<and> callers s c \<noteq> CTruncated i j p)"

inductive orderly_step :: "pidfs \<Rightarrow> pidfs \<Rightarrow> bool" where
  caller: "caller_step s t \<Longrightarrow> orderly_step s t"
| replace: "p \<in> set (live s) \<Longrightarrow> recorded p s \<Longrightarrow> orderly_step s (agent_write p s)"

definition pid_init :: "pidfs \<Rightarrow> bool" where
  "pid_init s \<longleftrightarrow> live s = [] \<and> (\<forall>c. callers s c = CIdle) \<and> (\<forall>i. holder s i = None) \<and>
     (\<forall>i. dirent s = Some i \<longrightarrow> i < ifresh s)"

subsection \<open>The invariant\<close>

text \<open>The inode a caller has open, and whether it is between starting an agent and recording it.\<close>

fun inode_of :: "cpc \<Rightarrow> nat option" where
  "inode_of (COpened i) = Some i"
| "inode_of (CLocked i) = Some i"
| "inode_of (CStarted i p) = Some i"
| "inode_of (CTruncated i j p) = Some i"
| "inode_of _ = None"

fun holds_lock :: "cpc \<Rightarrow> nat \<Rightarrow> bool" where
  "holds_lock (CLocked i) k \<longleftrightarrow> i = k"
| "holds_lock (CStarted i p) k \<longleftrightarrow> i = k"
| "holds_lock (CTruncated i j p) k \<longleftrightarrow> i = k"
| "holds_lock _ k \<longleftrightarrow> False"

fun starting :: "cpc \<Rightarrow> int option" where
  "starting (CStarted i p) = Some p"
| "starting (CTruncated i j p) = Some p"
| "starting _ = None"

definition locks_ok :: "pidfs \<Rightarrow> bool" where
  "locks_ok s \<longleftrightarrow> (\<forall>c i. holds_lock (callers s c) i \<longrightarrow> holder s i = Some c)"

definition one_file :: "pidfs \<Rightarrow> bool" where
  "one_file s \<longleftrightarrow> (\<forall>c i. inode_of (callers s c) = Some i \<longrightarrow> dirent s = Some i) \<and>
     (\<forall>c i j p. callers s c = CTruncated i j p \<longrightarrow> j = i)"

definition nobody_starting :: "pidfs \<Rightarrow> bool" where
  "nobody_starting s \<longleftrightarrow> (\<forall>c. starting (callers s c) = None)"

definition somebody_starting :: "int \<Rightarrow> pidfs \<Rightarrow> bool" where
  "somebody_starting p s \<longleftrightarrow> (\<exists>c. starting (callers s c) = Some p) \<and> (\<forall>c q. starting (callers s c) = Some q \<longrightarrow> q = p)"

definition pid_inv :: "pidfs \<Rightarrow> bool" where
  "pid_inv s \<longleftrightarrow> locks_ok s \<and>
     ((live s = [] \<and> one_file s \<and> nobody_starting s)
    \<or> (\<exists>p. live s = [p] \<and> 0 < p \<and> p \<le> max_int64 \<and>
        ((one_file s \<and> somebody_starting p s) \<or> (nobody_starting s \<and> at_path s = Contents (itoa p)))))"

lemma starting_holds: "starting x = Some p \<Longrightarrow> \<exists>i. holds_lock x i \<and> inode_of x = Some i"
  by (cases x) auto

lemma holds_inode: "holds_lock x i \<Longrightarrow> inode_of x = Some i"
  by (cases x) auto

lemma one_fileD: "one_file s \<Longrightarrow> inode_of (callers s c) = Some i \<Longrightarrow> dirent s = Some i"
  unfolding one_file_def by blast

lemma one_fileT: "one_file s \<Longrightarrow> callers s c = CTruncated i j p \<Longrightarrow> j = i"
  unfolding one_file_def by blast

lemma locksD: "locks_ok s \<Longrightarrow> holds_lock (callers s c) i \<Longrightarrow> holder s i = Some c"
  unfolding locks_ok_def by blast

lemma one_file_upd:
  assumes "one_file s" "dirent t = dirent s" "callers t = (callers s)(c := x)"
    and "inode_of x = None \<or> inode_of x = dirent s" "\<And>i j p. x = CTruncated i j p \<Longrightarrow> j = i"
  shows "one_file t"
  unfolding one_file_def
proof (intro conjI allI impI)
  fix d i assume "inode_of (callers t d) = Some i"
  then show "dirent t = Some i" using assms one_fileD [OF assms(1), of d i] by (cases "d = c") auto
next
  fix d i j p assume "callers t d = CTruncated i j p"
  then show "j = i" using assms one_fileT [OF assms(1), of d i j p] by (cases "d = c") auto
qed

lemma locks_upd:
  assumes "locks_ok s" "callers t = (callers s)(c := x)" "\<And>i. holds_lock x i \<Longrightarrow> holder t i = Some c"
    and "\<And>i d. d \<noteq> c \<Longrightarrow> holder s i = Some d \<Longrightarrow> holder t i = Some d"
  shows "locks_ok t"
  unfolding locks_ok_def
proof (intro allI impI)
  fix d i assume "holds_lock (callers t d) i"
  then show "holder t i = Some d" using assms locksD [OF assms(1), of d i] by (cases "d = c") auto
qed

lemma starting_upd:
  assumes "callers t = (callers s)(c := x)" "starting x = starting (callers s c)"
  shows "nobody_starting t \<longleftrightarrow> nobody_starting s" "somebody_starting p t \<longleftrightarrow> somebody_starting p s"
proof -
  have "starting (callers t d) = starting (callers s d)" for d using assms by simp
  then show "nobody_starting t \<longleftrightarrow> nobody_starting s" "somebody_starting p t \<longleftrightarrow> somebody_starting p s"
    by (simp_all add: nobody_starting_def somebody_starting_def)
qed

text \<open>A step that starts no agent, records none and leaves the file alone.\<close>

lemma inv_quiet:
  assumes "pid_inv s" "locks_ok t" "callers t = (callers s)(c := x)" "starting x = starting (callers s c)"
    and "live t = live s" "at_path t = at_path s" "dirent t = dirent s"
    and "one_file s \<Longrightarrow> inode_of x = None \<or> inode_of x = dirent s" "\<And>i j p. x = CTruncated i j p \<Longrightarrow> j = i"
  shows "pid_inv t"
proof -
  have "one_file s \<Longrightarrow> one_file t" using one_file_upd [OF _ assms(7,3)] assms(8,9) by blast
  then show ?thesis
    using assms(1,2,5,6) starting_upd [OF assms(3,4)] unfolding pid_inv_def by metis
qed

lemma critical_unique:
  assumes "locks_ok s" "one_file s" "holds_lock (callers s c) i" "starting (callers s d) = Some q"
  shows "d = c"
proof -
  obtain k where k: "holds_lock (callers s d) k" "inode_of (callers s d) = Some k"
    using starting_holds [OF assms(4)] by blast
  have "dirent s = Some i" "dirent s = Some k"
    using one_fileD [OF assms(2) holds_inode [OF assms(3)]] one_fileD [OF assms(2) k(2)] by simp_all
  then show ?thesis
    using locksD [OF assms(1,3)] locksD [OF assms(1) k(1)] by simp
qed

lemma found_agent_recorded: "at_path s = Contents (itoa p) \<Longrightarrow> p \<in> set (live s) \<Longrightarrow> 0 < p \<Longrightarrow> p \<le> max_int64 \<Longrightarrow> found_agent s"
  by (simp add: found_agent_def ReadPIDFile_itoa)

lemma pid_inv_locks: "pid_inv s \<Longrightarrow> locks_ok s"
  by (simp add: pid_inv_def)

lemma inv_open_new:
  assumes "pid_inv s" "callers s c = CIdle" "dirent s = None"
  shows "pid_inv (ensure_open c s)"
proof -
  let ?i = "ifresh s"
  have t: "ensure_open c s = s\<lparr>dirent := Some ?i, idata := (idata s)(?i := []), ifresh := Suc ?i, callers := (callers s)(c := COpened ?i)\<rparr>"
    using assms(3) by (simp add: ensure_open_def open_entry_def)
  have one: "one_file s" using assms(1,3) by (auto simp: pid_inv_def at_path_def)
  have no: "inode_of (callers s d) = None" for d
    using one_fileD [OF one, of d] assms(3) by (cases "inode_of (callers s d)") auto
  have nost: "starting (callers s d) = None" for d
    using starting_holds [of "callers s d"] no [of d] by (cases "starting (callers s d)") auto
  have "live s = []" using assms(1,3) nost by (auto simp: pid_inv_def somebody_starting_def at_path_def)
  moreover have "locks_ok (ensure_open c s)"
    by (rule locks_upd [OF pid_inv_locks [OF assms(1)], of _ c "COpened ?i"]) (simp_all add: t)
  moreover have "one_file (ensure_open c s)"
  proof -
    have tr: "callers s d \<noteq> CTruncated a b p" for d a b p using no [of d] by (cases "callers s d") auto
    show ?thesis unfolding one_file_def using no tr by (simp add: t)
  qed
  moreover have "nobody_starting (ensure_open c s)" using nost by (simp add: t nobody_starting_def)
  ultimately show ?thesis by (simp add: pid_inv_def t)
qed

lemma inv_open:
  assumes "pid_inv s" "callers s c = CIdle"
  shows "pid_inv (ensure_open c s)"
proof (cases "dirent s")
  case (Some i)
  have t: "ensure_open c s = s\<lparr>callers := (callers s)(c := COpened i)\<rparr>"
    using Some by (simp add: ensure_open_def open_entry_def)
  have "locks_ok (ensure_open c s)"
    by (rule locks_upd [OF pid_inv_locks [OF assms(1)], of _ c "COpened i"]) (simp_all add: t)
  then show ?thesis
    by (rule inv_quiet [OF assms(1), of _ c "COpened i"]) (simp_all add: t at_path_def Some assms(2))
qed (rule inv_open_new [OF assms])

lemma inv_lock:
  assumes "pid_inv s" "callers s c = COpened i" "holder s i = None"
  shows "pid_inv (ensure_lock c i s)"
proof -
  have "locks_ok (ensure_lock c i s)"
    by (rule locks_upd [OF pid_inv_locks [OF assms(1)], of _ c "CLocked i"]) (use assms(3) in \<open>auto simp: ensure_lock_def\<close>)
  moreover have "one_file s \<Longrightarrow> dirent s = Some i" using one_fileD [of s c i] assms(2) by simp
  ultimately show ?thesis
    by (intro inv_quiet [OF assms(1), of _ c "CLocked i"]) (simp_all add: ensure_lock_def at_path_def assms(2) split: option.split)
qed

lemma locks_leave: "locks_ok s \<Longrightarrow> holds_lock (callers s c) i \<Longrightarrow> locks_ok (ensure_leave c i s)"
  by (rule locks_upd [of s _ c CDone]) (use locksD [of s c i] in \<open>auto simp: ensure_leave_def\<close>)

lemma inv_leave:
  assumes "pid_inv s" "callers s c = CLocked i"
  shows "pid_inv (ensure_leave c i s)"
proof -
  have "locks_ok (ensure_leave c i s)"
    by (rule locks_leave [OF pid_inv_locks [OF assms(1)]]) (simp add: assms(2))
  then show ?thesis
    by (rule inv_quiet [OF assms(1), of _ c CDone]) (simp_all add: ensure_leave_def at_path_def assms(2) split: option.split)
qed

lemma inv_start:
  assumes "pid_inv s" "callers s c = CLocked i" "\<not> found_agent s" "0 < p" "p \<le> max_int64"
  shows "pid_inv (ensure_start c i p s)"
proof -
  note locks = pid_inv_locks [OF assms(1)]
  have h: "holds_lock (callers s c) i" using assms(2) by simp
  have s: "live s = []" "one_file s" "nobody_starting s"
  proof -
    have "\<not> (one_file s \<and> somebody_starting q s)" for q
      using critical_unique [OF locks _ h] assms(2) by (auto simp: somebody_starting_def)
    moreover have "\<not> (live s = [q] \<and> 0 < q \<and> q \<le> max_int64 \<and> at_path s = Contents (itoa q))" for q
      using assms(3) found_agent_recorded [of s q] by auto
    ultimately show "live s = []" "one_file s" "nobody_starting s"
      using assms(1) unfolding pid_inv_def by blast+
  qed
  let ?t = "ensure_start c i p s"
  have "locks_ok ?t"
    by (rule locks_upd [OF locks, of _ c "CStarted i p"]) (use locksD [OF locks h] in \<open>auto simp: ensure_start_def\<close>)
  moreover have "one_file ?t"
    by (rule one_file_upd [OF s(2), of _ c "CStarted i p"])
      (use one_fileD [OF s(2) holds_inode [OF h]] in \<open>auto simp: ensure_start_def\<close>)
  moreover have "starting (callers ?t d) = (if d = c then Some p else None)" for d
    using s(3) by (simp add: ensure_start_def nobody_starting_def)
  then have "somebody_starting p ?t" by (simp add: somebody_starting_def)
  ultimately show ?thesis using s(1) assms(4,5) by (simp add: pid_inv_def ensure_start_def)
qed

lemma starting_state:
  assumes "pid_inv s" "starting (callers s c) = Some p"
  shows "live s = [p]" "0 < p" "p \<le> max_int64" "one_file s" "somebody_starting p s"
proof -
  have "\<not> nobody_starting s" using assms(2) by (auto simp: nobody_starting_def)
  then obtain q where q: "live s = [q]" "0 < q" "q \<le> max_int64" "one_file s" "somebody_starting q s"
    using assms(1) by (auto simp: pid_inv_def)
  moreover from this have "q = p" using assms(2) by (auto simp: somebody_starting_def)
  ultimately show "live s = [p]" "0 < p" "p \<le> max_int64" "one_file s" "somebody_starting p s" by simp_all
qed

lemma inv_trunc:
  assumes "pid_inv s" "callers s c = CStarted i p"
  shows "pid_inv (spawn_truncate c i p s)"
proof -
  have st: "starting (callers s c) = Some p" and h: "holds_lock (callers s c) i" using assms(2) by simp_all
  note s = starting_state [OF assms(1) st]
  note locks = pid_inv_locks [OF assms(1)]
  have d: "dirent s = Some i" by (rule one_fileD [OF s(4) holds_inode [OF h]])
  then have t: "spawn_truncate c i p s = s\<lparr>idata := (idata s)(i := []), callers := (callers s)(c := CTruncated i i p)\<rparr>"
    by (simp add: spawn_truncate_def open_entry_def)
  have "locks_ok (spawn_truncate c i p s)"
    by (rule locks_upd [OF locks, of _ c "CTruncated i i p"]) (use locksD [OF locks h] in \<open>auto simp: t\<close>)
  moreover have "one_file (spawn_truncate c i p s)"
    by (rule one_file_upd [OF s(4), of _ c "CTruncated i i p"]) (use d in \<open>auto simp: t\<close>)
  moreover have "somebody_starting p (spawn_truncate c i p s)"
    using starting_upd(2) [of "spawn_truncate c i p s" s c "CTruncated i i p" p] st s(5) by (simp add: t)
  ultimately show ?thesis using s by (simp add: pid_inv_def t)
qed

lemma inv_write:
  assumes "pid_inv s" "callers s c = CTruncated i j p"
  shows "pid_inv (spawn_write c i j p s)"
proof -
  have st: "starting (callers s c) = Some p" and h: "holds_lock (callers s c) i" using assms(2) by simp_all
  note s = starting_state [OF assms(1) st]
  note locks = pid_inv_locks [OF assms(1)]
  have d: "dirent s = Some i" "j = i"
    using one_fileD [OF s(4) holds_inode [OF h]] one_fileT [OF s(4) assms(2)] by simp_all
  have "starting (callers s b) = None" if "b \<noteq> c" for b
    using critical_unique [OF locks s(4) h, of b] that by (cases "starting (callers s b)") auto
  then have "nobody_starting (spawn_write c i j p s)"
    by (simp add: spawn_write_def ensure_leave_def nobody_starting_def)
  moreover have "locks_ok (spawn_write c i j p s)"
    unfolding spawn_write_def using locks h by (intro locks_leave) (simp_all add: locks_ok_def)
  moreover have "at_path (spawn_write c i j p s) = Contents (itoa p)" "live (spawn_write c i j p s) = [p]"
    using d s(1) by (simp_all add: at_path_def spawn_write_def ensure_leave_def)
  ultimately show ?thesis using s(2,3) by (simp add: pid_inv_def)
qed

lemma inv_replace:
  assumes "pid_inv s" "p \<in> set (live s)" "recorded p s"
  shows "pid_inv (agent_write p s)"
proof -
  have "starting (callers s c) \<noteq> Some p" for c
    using assms(3) unfolding recorded_def by (cases "callers s c") (simp_all, blast+)
  then have "\<not> somebody_starting p s" by (simp add: somebody_starting_def)
  then have s: "live s = [p]" "0 < p" "p \<le> max_int64" "nobody_starting s" "locks_ok s"
    using assms(1,2) by (auto simp: pid_inv_def)
  then show ?thesis
    by (simp add: pid_inv_def agent_write_def at_path_def nobody_starting_def locks_ok_def)
qed

lemma inv_caller: "caller_step s t \<Longrightarrow> pid_inv s \<Longrightarrow> pid_inv t"
  by (induction rule: caller_step.induct) (blast intro: inv_open inv_lock inv_leave inv_start inv_trunc inv_write)+

lemma inv_orderly: "orderly_step s t \<Longrightarrow> pid_inv s \<Longrightarrow> pid_inv t"
  by (induction rule: orderly_step.induct) (blast intro: inv_replace inv_caller)+

interpretation pids: machine pid_init orderly_step pid_inv
proof
  show "pid_init s \<Longrightarrow> pid_inv s" for s
    by (simp add: pid_init_def pid_inv_def locks_ok_def one_file_def nobody_starting_def)
qed (rule inv_orderly)

subsection \<open>Results\<close>


definition pid_start :: pidfs where
  "pid_start = \<lparr>dirent = None, idata = (\<lambda>_. ''''), ifresh = 0, holder = Map.empty, live = [], callers = (\<lambda>_. CIdle)\<rparr>"

lemma pid_start_init: "pid_init pid_start"
  by (simp add: pid_init_def pid_start_def)

text \<open>The first caller opened the file, locked it and started agent 1.\<close>

definition pid_one :: pidfs where
  "pid_one = ensure_start 0 0 1 (ensure_lock 0 0 (ensure_open 0 pid_start))"

lemmas pid_eval = pid_one_def pid_start_def ensure_open_def ensure_lock_def ensure_start_def ensure_leave_def
  spawn_truncate_def spawn_write_def agent_write_def open_entry_def at_path_def found_agent_def

lemma pid_one_steps: "caller_step\<^sup>*\<^sup>* pid_start pid_one"
proof -
  have "caller_step pid_start (ensure_open 0 pid_start)"
    by (rule open_step) (simp add: pid_eval)
  moreover have "caller_step (ensure_open 0 pid_start) (ensure_lock 0 0 (ensure_open 0 pid_start))"
    by (rule lock_step) (simp_all add: pid_eval)
  moreover have "caller_step (ensure_lock 0 0 (ensure_open 0 pid_start)) pid_one"
    unfolding pid_one_def by (rule start_step) (simp_all add: pid_eval max_int64_def)
  ultimately show ?thesis by (meson converse_rtranclp_into_rtranclp r_into_rtranclp)
qed

lemma caller_orderly: "caller_step\<^sup>*\<^sup>* s t \<Longrightarrow> orderly_step\<^sup>*\<^sup>* s t"
  by (rule mono_rtranclp [rule_format, of caller_step]) (auto intro: orderly_step.caller)

lemma caller_pid: "caller_step\<^sup>*\<^sup>* s t \<Longrightarrow> pid_step\<^sup>*\<^sup>* s t"
  by (rule mono_rtranclp [rule_format, of caller_step]) (auto intro: pid_step.caller)


text \<open>The proviso is needed, because the lock is on the inode the caller opened. Agent 1 replaces the
  file before the caller that started it writes the number; a second caller opens the new
  inode, whose lock is free, and finds it truncated by the first: it starts agent 2.\<close>

definition pid_two :: pidfs where
  "pid_two = ensure_start 1 1 2 (spawn_truncate 0 0 1 (ensure_lock 1 1 (ensure_open 1 (agent_write 1 pid_one))))"

lemma two_agents: "reach pid_init pid_step pid_two \<and> live pid_two = [2, 1]"
proof -
  have one: "reach pid_init pid_step pid_one"
    using reach_steps [OF reach.start [of pid_init, OF pid_start_init]] caller_pid [OF pid_one_steps] by blast
  have "pid_step pid_one (agent_write 1 pid_one)"
    by (rule pid_step.replace) (simp add: pid_eval)
  moreover have "caller_step (agent_write 1 pid_one) (ensure_open 1 (agent_write 1 pid_one))"
    by (rule open_step) (simp add: pid_eval)
  moreover have "caller_step (ensure_open 1 (agent_write 1 pid_one)) (ensure_lock 1 1 (ensure_open 1 (agent_write 1 pid_one)))"
    by (rule lock_step) (simp_all add: pid_eval)
  moreover have "caller_step (ensure_lock 1 1 (ensure_open 1 (agent_write 1 pid_one)))
      (spawn_truncate 0 0 1 (ensure_lock 1 1 (ensure_open 1 (agent_write 1 pid_one))))"
    by (rule trunc_step) (simp add: pid_eval)
  moreover have "caller_step (spawn_truncate 0 0 1 (ensure_lock 1 1 (ensure_open 1 (agent_write 1 pid_one)))) pid_two"
    unfolding pid_two_def by (rule start_step) (simp_all add: pid_eval max_int64_def)
  ultimately have "reach pid_init pid_step pid_two"
    using one by (meson reach.move pid_step.caller)
  then show ?thesis by (simp add: pid_two_def pid_eval)
qed

text \<open>A host with an identity in the memory store, for the restart.\<close>

definition sup_ok :: "int \<Rightarrow> sup_env" where
  "sup_ok c = \<lparr>findOK = True, running = (\<lambda>p. p = 7), argvOf = (\<lambda>p. Some [''/usr/bin/pmux'', ''agent'', ''run'']),
     deliver = (\<lambda>_. True), polls = [True, False], gone = False, removeOK = True, getpid = 1,
     tmpWriteOK = True, pidRenameOK = True, openOK = True, flockOK = True, exeOK = True,
     childPid = Some c, pidWriteOK = True, pidLeft = NotExist\<rparr>"

definition kio_ok :: kio where
  "kio_ok = \<lparr>genKey = None, pubWriteOK = True, pubLeft = None, pubStatOK = True, pubChmodOK = True, pubReadOK = True\<rparr>"

definition keys_7 :: "secrets keys" where
  "keys_7 = \<lparr>pubFile = Some ('''', 384), kstore = [(SecretKeyEd25519Private, ''k'')]\<rparr>"

definition sup_7 :: sup where
  "sup_7 = \<lparr>agentPid = Contents (itoa 7), sent = [], children = [], printed = []\<rparr>"

lemmas restart_eval = RunAgentRestart_def CheckIdentity_def keys_7_def kio_ok_def sup_ok_def
  memory_store_def Memory_Get_def RunAgentStop_def RunAgentStart_def EnsureRunning_def IsAgentProcess_def
  IsProcessRunning_def is_agent_argv_def RemovePIDFile_def print_line_def send_signal_def
  spawn_agent_def create_pid_def Let_def

theorem restart_is_fresh_witness:
  "\<exists>k w. RunAgentRestart memory_store kio_ok (sup_ok 9) kio_ok (sup_ok 9) keys_7 sup_7 = (Inr (), k, w) \<and>
     children w = [9] \<and> (7, SIGTERM) \<in> set (sent w)"
proof -
  have rd: "ReadPIDFile (Contents (itoa 7)) = Inr 7" by (rule ReadPIDFile_itoa) (simp_all add: max_int64_def)
  have base: "Base ''/usr/bin/pmux'' = ''pmux''"
    by (simp add: Base_def trim_right_def slash_def)
  have none: "ReadPIDFile NotExist = Inl EPidNotExist" by (simp add: ReadPIDFile_def)
  obtain k w where kw: "RunAgentRestart memory_store kio_ok (sup_ok 9) kio_ok (sup_ok 9) keys_7 sup_7 = (Inr (), k, w)"
    by (simp add: restart_eval sup_7_def rd base none)
  have ag: "IsAgentProcess (sup_ok 9) 7"
    by (simp add: IsAgentProcess_def IsProcessRunning_def is_agent_argv_def sup_ok_def base)
  from restart_is_fresh [OF kw] have "children w = [9]" "(7, SIGTERM) \<in> set (sent w)"
    using rd ag by (auto simp: sup_7_def sup_ok_def)
  with kw show ?thesis by blast
qed

end
