(* ===== verification/Agent.thy ===== *)
theory Agent
  imports Peer_Manager Signal_Link Pairing Update Supervisor Tmux_Client
begin

text \<open>
  The agent process (\<open>internal/agent/agent.go\<close>, \<open>monitor.go\<close>, \<open>runAgent\<close> of \<open>cmd/pmux/main.go\<close>): what
  \<open>Run\<close> does before it serves, how it wires the components from the configuration, the messages of
  the signaling server and the signal that announces a changed pairing, and how it ends. The last
  part composes the peer manager, the pairing file and the secret store: which device can ever get
  a connection, as a machine over all interleavings.
\<close>

section \<open>Start\<close>

definition maxLogSize :: nat where "maxLogSize = 10 * 1024 * 1024"

text \<open>The log and its backup. \<open>info.Size() < maxLogSize\<close> keeps the file.\<close>

definition rotateLogIfNeeded :: "bool \<Rightarrow> bool \<Rightarrow> bytes option \<times> bytes option \<Rightarrow> bytes option \<times> bytes option" where
  "rotateLogIfNeeded statOK renOK lb = (case fst lb of
      None \<Rightarrow> lb
    | Some d \<Rightarrow> if \<not> statOK \<or> length d < maxLogSize then lb
                else if renOK then (None, Some d) else lb)"

definition loadConfig :: "(bytes \<Rightarrow> fileConfig option) \<Rightarrow> environ \<Rightarrow> file_read \<Rightarrow> Config" where
  "loadConfig toml env r = (case LoadConfig toml env r of Inl _ \<Rightarrow> Defaults | Inr cfg \<Rightarrow> cfg)"

datatype init_error = EInitStore store_error | EInitIdentity id_error

datatype agent_error = EOpenLog | FatalInitError init_error | ESignaling sig_error

definition IsFatalInitError :: "agent_error \<Rightarrow> bool" where
  "IsFatalInitError x = (case x of FatalInitError _ \<Rightarrow> True | _ \<Rightarrow> False)"

text \<open>The allowed device for the result of loading the pairing.\<close>

definition allowed_for :: "device_error + PairedDevice option \<Rightarrow> string" where
  "allowed_for r = (case r of
      Inl _ \<Rightarrow> ''!invalid-load-error'' | Inr None \<Rightarrow> ''!unpaired'' | Inr (Some d) \<Rightarrow> pd_id d)"

text \<open>What \<open>Run\<close> builds: the manager, the settings of the signaling client, the tmux client, and
  which background loops it starts.\<close>

record wiring =
  wr_manager :: mgr
  wr_base :: string
  wr_host :: string
  wr_link :: lcfg
  wr_backoff :: int
  wr_tmux :: "unit client"
  wr_level :: int
  wr_keepAwake :: bool
  wr_updates :: "int option"
  wr_ident :: Identity

record 's ahost =
  ah_pub :: "(bytes \<times> nat) option"
  ah_dir :: files
  ah_sec :: 's
  ah_sup :: sup
  ah_log :: "bytes option \<times> bytes option"

record aenv =
  ae_statOK :: bool
  ae_renOK :: bool
  ae_logOK :: bool
  ae_sup :: sup_env
  ae_toml :: "bytes \<Rightarrow> fileConfig option"
  ae_env :: environ
  ae_cfg :: file_read
  ae_probe :: "store_error + unit"
  ae_kio :: kio
  ae_codec :: dcodec
  ae_dio :: dio
  ae_hostname :: "string option"
  ae_lookPath :: "string option"
  ae_tmux :: "unit exec"
  ae_version :: string

definition wire :: "aenv \<Rightarrow> Config \<Rightarrow> Identity \<Rightarrow> device_error + PairedDevice option \<Rightarrow> wiring" where
  "wire e cfg ident dev =
     \<lparr>wr_manager = SetAllowedDeviceID (allowed_for dev)
        (NewPeerManager\<lparr>MaxPeers := nat (MaxMobileConnections (Connection cfg)),
                        Peer_Manager.ForceRelay := Config.ForceRelay (Connection cfg)\<rparr>),
      wr_base = APIBaseURL cfg,
      wr_host = (if Name cfg = '''' then DefaultHostName (ae_hostname e) else Name cfg),
      wr_link = link_settings cfg,
      wr_backoff = ReconnectInterval cfg,
      wr_tmux = snd (SetGlobalEnv (ae_tmux e) ''PROMPT_EOL_MARK'' ''''
        (configured_client (ae_lookPath e) (SocketName (Tmux cfg)) (TmuxPath (Tmux cfg)) ())),
      wr_level = ParseLogLevel cfg,
      wr_keepAwake = KeepAwake (Power cfg),
      wr_updates = (if Enabled (Updates cfg) \<and> ae_version e \<noteq> ''dev'' then Some (UpdateCheckInterval cfg) else None),
      wr_ident = ident\<rparr>"

text \<open>Up to the point where the loops start. The PID file is written before the configuration is read;
  a failure to write it is not an error.\<close>

definition agent_setup :: "aenv \<Rightarrow> (backend \<Rightarrow> 's store) \<Rightarrow> 's ahost \<Rightarrow> (agent_error + wiring) \<times> 's ahost" where
  "agent_setup e stores h =
     (let h0 = h\<lparr>ah_log := rotateLogIfNeeded (ae_statOK e) (ae_renOK e) (ah_log h)\<rparr> in
      if \<not> ae_logOK e then (Inl EOpenLog, h0)
      else
        let h1 = h0\<lparr>ah_sup := snd (WritePIDFile (ae_sup e) (ah_sup h0))\<rparr>;
            cfg = loadConfig (ae_toml e) (ae_env e) (ae_cfg e)
        in case NewSecretStore (SecretBackend (Ident cfg)) (ae_probe e) of
             Inl x \<Rightarrow> (Inl (FatalInitError (EInitStore x)), h1)
           | Inr b \<Rightarrow>
              (case LoadIdentity (stores b) (ae_kio e) \<lparr>pubFile = ah_pub h1, kstore = ah_sec h1\<rparr> of
                 (Inl x, k) \<Rightarrow> (Inl (FatalInitError (EInitIdentity x)), h1\<lparr>ah_pub := pubFile k, ah_sec := kstore k\<rparr>)
               | (Inr ident, k) \<Rightarrow>
                  (case LoadPairedDevice (ae_codec e) (stores b) (ae_dio e) \<lparr>cdir = ah_dir h1, sec = kstore k\<rparr> of
                     (r, d) \<Rightarrow> (Inr (wire e cfg ident r), h1\<lparr>ah_pub := pubFile k, ah_dir := cdir d, ah_sec := sec d\<rparr>))))"

text \<open>\<open>Run\<close>, given how the run of the signaling client ended (\<open>None\<close>: cancelled). The shutdown is
  bounded, so the PID file is removed in any case.\<close>

definition Run :: "aenv \<Rightarrow> (backend \<Rightarrow> 's store) \<Rightarrow> sig_error option \<Rightarrow> 's ahost \<Rightarrow> agent_error option \<times> 's ahost" where
  "Run e stores ended h = (case agent_setup e stores h of
      (Inl x, h1) \<Rightarrow> (Some x, h1)
    | (Inr w, h1) \<Rightarrow> (map_option ESignaling ended, h1\<lparr>ah_sup := RemovePIDFile (ae_sup e) (ah_sup h1)\<rparr>))"

text \<open>\<open>runAgent\<close> of \<open>main.go\<close> without profiling: exit code and final state. An initialisation error and
  a rejected client signature exit with 0, so that nothing restarts the agent.\<close>

definition is_hmac_error :: "agent_error \<Rightarrow> bool" where
  "is_hmac_error x = (case x of
      ESignaling (EDialRejected _ _) \<Rightarrow> True | ESignaling (EObtainJWT (HMACRejectedError _ _)) \<Rightarrow> True | _ \<Rightarrow> False)"

definition runAgent :: "aenv \<Rightarrow> (backend \<Rightarrow> 's store) \<Rightarrow> sig_error option \<Rightarrow> 's ahost \<Rightarrow> nat \<times> 's ahost" where
  "runAgent e stores ended h = (case Run e stores ended h of
      (None, h1) \<Rightarrow> (0, h1)
    | (Some x, h1) \<Rightarrow>
       if IsFatalInitError x \<or> is_hmac_error x
       then (0, h1\<lparr>ah_sup := RemovePIDFile (ae_sup e) (ah_sup h1)\<rparr>)
       else (1, h1))"

section \<open>Loops\<close>

text \<open>\<open>monitorTmux\<close>: one observation per tick; what is logged.\<close>

fun monitorTmux :: "bool \<Rightarrow> bool list \<Rightarrow> string list" where
  "monitorTmux was [] = []"
| "monitorTmux was (r # rest) =
     (if r \<and> \<not> was then [''tmux server detected'']
      else if \<not> r \<and> was then [''tmux server exited''] else []) @ monitorTmux r rest"

text \<open>\<open>runUpdateChecker\<close>: a check at the start and one per tick, on the state file.\<close>

definition update_round :: "(fs \<Rightarrow> (fetch_error + State) \<times> fs) \<Rightarrow> fs \<Rightarrow> string list \<times> fs" where
  "update_round check f = (case check f of
      (Inl _, f1) \<Rightarrow> ([''update check failed''], f1)
    | (Inr s, f1) \<Rightarrow> (if UpdateAvail s then [''update available''] else [], f1))"

fun runUpdateChecker :: "(nat \<Rightarrow> fs \<Rightarrow> (fetch_error + State) \<times> fs) \<Rightarrow> nat \<Rightarrow> fs \<Rightarrow> string list \<times> fs" where
  "runUpdateChecker check 0 f = update_round (check 0) f"
| "runUpdateChecker check (Suc n) f =
     (case runUpdateChecker check n f of
        (l, f1) \<Rightarrow> (case update_round (check (Suc n)) f1 of (l2, f2) \<Rightarrow> (l @ l2, f2)))"

section \<open>Messages and signals\<close>

text \<open>The callback \<open>Run\<close> gives to the signaling client; \<open>nm\<close> is the name field of the message.\<close>

definition on_signaling_message ::
  "dcodec \<Rightarrow> 's store \<Rightarrow> dio \<Rightarrow> sigenv \<Rightarrow> SignalingMessage \<Rightarrow> string \<Rightarrow> mgr \<times> 's devs \<Rightarrow> mgr \<times> 's devs" where
  "on_signaling_message c st io e g nm md =
     (let (m, d) = md in
      if sg_Type g = ''mobile_name_updated'' \<and> sg_DeviceID g \<noteq> '''' \<and> nm \<noteq> '''' then
        (if allowedDeviceID m = '''' \<or> sg_DeviceID g \<noteq> allowedDeviceID m then (m, d)
         else (m, snd (UpdatePairedDeviceName c st io (sg_DeviceID g) (TruncateMobileName nm) d)))
      else (HandleSignalingMessage e g m, d))"

text \<open>SIGUSR2: the pairing is loaded again and every connection closed; the manager reopens when the
  tear-downs are done (\<open>reopen\<close>).\<close>

definition reload_pairing :: "device_error + PairedDevice option \<Rightarrow> peer_id list \<Rightarrow> mgr \<Rightarrow> mgr" where
  "reload_pairing r table m = closeAll_locked table (SetAllowedDeviceID (allowed_for r) m)"

section \<open>Who can connect\<close>

text \<open>The manager, the secrets of the host and the result of the last load of the pairing. The messages of
  the server are arbitrary; the secret the manager gets for a connect request is the one stored for the
  device the message names. Other processes (\<open>pmux pair\<close>, \<open>unpair\<close>) change the secrets at any time,
  always under keys of valid device IDs.\<close>

record agent =
  am :: mgr
  asecrets :: "string \<rightharpoonup> bytes"
  aloaded :: "device_error + PairedDevice option"

definition well_keyed :: "(string \<rightharpoonup> bytes) \<Rightarrow> bool" where
  "well_keyed s \<longleftrightarrow> (\<forall>d. s (SharedSecretKey d) \<noteq> None \<longrightarrow> isOK (ValidateDeviceID d))"

definition builds :: "mgr \<Rightarrow> job set" where
  "builds m = {j \<in> set (jobs m). \<exists>d att s. j = JBuild d att s}"

inductive agent_step :: "agent \<Rightarrow> agent \<Rightarrow> bool" where
  message: "se_secret e = None \<or> se_secret e = asecrets a (SharedSecretKey (sg_TargetDeviceID g)) \<Longrightarrow>
    agent_step a (a\<lparr>am := HandleSignalingMessage e g (am a)\<rparr>)"
| reload: "agent_step a (a\<lparr>am := SetAllowedDeviceID (allowed_for r) (am a), aloaded := r\<rparr>)"
| internal: "mstep (am a) m \<Longrightarrow> allowedDeviceID m = allowedDeviceID (am a) \<Longrightarrow> builds m \<subseteq> builds (am a) \<Longrightarrow>
    agent_step a (a\<lparr>am := m\<rparr>)"
| secrets: "well_keyed s \<Longrightarrow> agent_step a (a\<lparr>asecrets := s\<rparr>)"

definition agent_init :: "agent \<Rightarrow> bool" where
  "agent_init a \<longleftrightarrow> (\<exists>e cfg ident. am a = wr_manager (wire e cfg ident (aloaded a))) \<and> well_keyed (asecrets a)"

definition known_jobs :: "mgr \<Rightarrow> bool" where
  "known_jobs m \<longleftrightarrow> (\<forall>d att s. JBuild d att s \<in> set (jobs m) \<longrightarrow> isOK (ValidateDeviceID d)) \<and>
     (\<forall>d x. JInsert d x \<in> set (jobs m) \<longrightarrow> isOK (ValidateDeviceID d))"

definition agent_inv :: "agent \<Rightarrow> bool" where
  "agent_inv a \<longleftrightarrow> inv_table (am a) \<and> known_jobs (am a) \<and> well_keyed (asecrets a) \<and>
     allowedDeviceID (am a) = allowed_for (aloaded a)"

lemma insert_origin:
  assumes "mstep m m'" "JInsert d x \<in> set (jobs m')"
  shows "JInsert d x \<in> set (jobs m) \<or> (\<exists>att s. JBuild d att s \<in> set (jobs m))"
  using assms
  by (induction rule: mstep.induct)
    (auto simp: mgr_defs dest: set_remove1D split: mgr_splits)

lemma builds_subset:
  "builds m' \<subseteq> builds m \<longleftrightarrow> (\<forall>d att s. JBuild d att s \<in> set (jobs m') \<longrightarrow> JBuild d att s \<in> set (jobs m))"
  by (auto simp: builds_def)

lemma known_jobs_step:
  assumes "mstep m m'" "builds m' \<subseteq> builds m" "known_jobs m"
  shows "known_jobs m'"
  using assms(2,3) insert_origin [OF assms(1)] unfolding known_jobs_def builds_subset by blast

text \<open>A message starts a connection only if it asks for one and the secret was found.\<close>

lemma message_ops:
  "builds (handleSDPAnswer d att sdp no ok m) \<subseteq> builds m"
  "builds (handleICECandidate d att cand mid idx m) \<subseteq> builds m"
  "builds (handlePeerUnavailable d att isOpen st m) \<subseteq> builds m"
  by (auto simp: builds_subset mgr_defs split: mgr_splits)

lemma message_ops_allowed:
  "allowedDeviceID (handleSDPAnswer d att sdp no ok m) = allowedDeviceID m"
  "allowedDeviceID (handleICECandidate d att cand mid idx m) = allowedDeviceID m"
  "allowedDeviceID (handlePeerUnavailable d att isOpen st m) = allowedDeviceID m"
  "allowedDeviceID (connect_admit d att sc m) = allowedDeviceID m"
  by (auto simp: mgr_defs Let_def split: mgr_splits)

lemma message_builds:
  "builds (HandleSignalingMessage e g m) \<subseteq> builds m \<or> sg_Type g = ''connect_request''"
  unfolding HandleSignalingMessage_def Let_def by (simp add: message_ops)

lemma admit_builds:
  "JBuild d att s \<in> set (jobs (connect_admit d' att' sc m)) \<Longrightarrow> JBuild d att s \<in> set (jobs m) \<or> d = d' \<and> sc \<noteq> None"
  by (auto simp: getSharedSecret_def mgr_defs Let_def split: if_splits option.splits)

lemma admit_inserts: "JInsert d x \<in> set (jobs (connect_admit d' att' sc m)) \<Longrightarrow> JInsert d x \<in> set (jobs m)"
  by (auto simp: mgr_defs Let_def split: if_splits option.splits)

lemma message_allowed: "allowedDeviceID (HandleSignalingMessage e g m) = allowedDeviceID m"
  unfolding HandleSignalingMessage_def Let_def by (simp add: message_ops_allowed)

lemma known_jobs_message:
  assumes "known_jobs m" "well_keyed s" "se_secret e = None \<or> se_secret e = s (SharedSecretKey (sg_TargetDeviceID g))"
  shows "known_jobs (HandleSignalingMessage e g m)"
proof (cases "builds (HandleSignalingMessage e g m) \<subseteq> builds m")
  case True
  show ?thesis
    using HandleSignalingMessage_step [of m e g] known_jobs_step [OF _ True] assms(1) by auto
next
  case False
  then have "sg_Type g = ''connect_request''" using message_builds [of e g m] by auto
  then have m': "HandleSignalingMessage e g m =
      connect_admit (sg_TargetDeviceID g) (clean_attempt (sg_AttemptID g)) (se_secret e) m"
    by (simp add: HandleSignalingMessage_def Let_def)
  have v: "se_secret e \<noteq> None \<Longrightarrow> isOK (ValidateDeviceID (sg_TargetDeviceID g))"
    using assms(2,3) by (auto simp: well_keyed_def)
  show ?thesis
    using assms(1) v admit_builds [of _ _ _ "sg_TargetDeviceID g"] admit_inserts
    unfolding known_jobs_def m' by blast
qed

lemma inv_table_message: "inv_table m \<Longrightarrow> inv_table (HandleSignalingMessage e g m)"
  using HandleSignalingMessage_step [of m e g] inv_table_step by metis

lemma agent_inv_step: "agent_inv a \<Longrightarrow> agent_step a b \<Longrightarrow> agent_inv b"
proof (rotate_tac, induction rule: agent_step.induct)
  case (message e a g)
  then show ?case
    using known_jobs_message [of "am a" "asecrets a" e g]
    by (simp add: agent_inv_def inv_table_message message_allowed)
next
  case (reload a r)
  then show ?case
    using inv_table_step [OF mstep.set_allowed]
    by (auto simp: agent_inv_def known_jobs_def SetAllowedDeviceID_def)
next
  case (internal a m)
  then show ?case
    using known_jobs_step [of "am a" m] inv_table_step [of "am a" m] by (simp add: agent_inv_def)
next
  case (secrets s a)
  then show ?case by (simp add: agent_inv_def)
qed

lemma agent_inv_init: "agent_init a \<Longrightarrow> agent_inv a"
  by (auto simp: agent_init_def agent_inv_def wire_def SetAllowedDeviceID_def NewPeerManager_def inv_table_def known_jobs_def)

interpretation agents: machine agent_init agent_step agent_inv
  by unfold_locales (fact agent_inv_init, fact agent_inv_step)

lemma sentinel_invalid: "\<not> isOK (ValidateDeviceID ''!unpaired'')" "\<not> isOK (ValidateDeviceID ''!invalid-load-error'')"
  by (simp_all add: ValidateDeviceID_def)

text \<open>Every change of the manager is a step of its own machine.\<close>

lemma agent_mstep: "agent_step a b \<Longrightarrow> am b = am a \<or> mstep (am a) (am b)"
proof (induction rule: agent_step.induct)
  case (message e a g)
  then show ?case using HandleSignalingMessage_step [of "am a" e g] by auto
next
  case (reload a r)
  then show ?case using mstep.set_allowed [of "am a" "allowed_for r"] by simp
qed simp_all

text \<open>Property C3. Only the device the last load of the pairing file returned gets a connection, whatever
  the signaling server sends and whatever the interleaving; its device ID is well formed and the host
  holds a secret for it. In particular an agent that could not load its pairing, or is
  unpaired, accepts nobody, not even a peer that claims the sentinel as its device ID.\<close>

theorem fails_closed:
  assumes "reach agent_init agent_step a" "agent_step a b"
    and "peers (am b) d = Some x" "peers (am a) d \<noteq> Some x"
  shows "(\<exists>dev. aloaded a = Inr (Some dev) \<and> pd_id dev = d) \<and> isOK (ValidateDeviceID d) \<and>
    (\<exists>p. pheap (am b) x = Some p \<and> Peer_Auth.DeviceID p = d \<and> sharedSecret p \<noteq> [])"
proof -
  have inv: "agent_inv a" "agent_inv b" using agents.inv_next [OF assms(1,2)] by simp_all
  have ms: "mstep (am a) (am b)" using agent_mstep [OF assms(2)] assms(3,4) by auto
  have e: "JInsert d x \<in> set (jobs (am a))" "allowedDeviceID (am a) = d"
    using new_entry [OF ms _ assms(3,4)] inv(1) by (simp_all add: agent_inv_def)
  have v: "isOK (ValidateDeviceID d)" using e(1) inv(1) by (auto simp: agent_inv_def known_jobs_def)
  have "allowed_for (aloaded a) = d" using e(2) inv(1) by (simp add: agent_inv_def)
  then have "\<exists>dev. aloaded a = Inr (Some dev) \<and> pd_id dev = d"
    using v sentinel_invalid by (auto simp: allowed_for_def split: sum.splits option.splits)
  moreover have "peer_for (am b) d x" using inv(2) assms(3) by (simp add: agent_inv_def inv_table_def)
  ultimately show ?thesis using v by (auto simp: peer_for_def)
qed

text \<open>A run of the machine in which the paired device connects.\<close>

definition phone :: string where "phone = replicate 32 (CHR ''a'')"

definition phone_device :: PairedDevice where
  "phone_device = \<lparr>pd_id = phone, pd_name = '''', pd_secret = '''', pd_pairedAt = 0, pd_lastSeen = 0\<rparr>"

definition phone_m0 :: mgr where
  "phone_m0 = SetAllowedDeviceID phone (NewPeerManager\<lparr>MaxPeers := 1, Peer_Manager.ForceRelay := False\<rparr>)"

definition phone_m1 :: mgr where "phone_m1 = connect_admit phone '''' (Some ''key'') phone_m0"

definition phone_m2 :: mgr where
  "phone_m2 = connect_build 0 None True phone '''' ''key'' (drop_job (JBuild phone '''' ''key'') phone_m1)"

definition phone_m3 :: mgr where
  "phone_m3 = connect_insert phone 0 (drop_job (JInsert phone 0) phone_m2)"

definition phone_at :: "mgr \<Rightarrow> agent" where
  "phone_at m = \<lparr>am = m, asecrets = [SharedSecretKey phone \<mapsto> ''key''], aloaded = Inr (Some phone_device)\<rparr>"

lemma phone_valid: "isOK (ValidateDeviceID phone)"
  by (simp add: ValidateDeviceID_def phone_def is_lower_hex_def Let_def list_all_iff)

lemma phone_nonempty: "phone \<noteq> ''''"
  by (simp add: phone_def)

lemma phone_init: "agent_init (phone_at phone_m0)"
proof -
  have "well_keyed [SharedSecretKey phone \<mapsto> ''key'']"
    using phone_valid by (auto simp: well_keyed_def SharedSecretKey_def split: if_splits)
  moreover have "phone_m0 = wr_manager (wire e Defaults ident (Inr (Some phone_device)))" for e ident
    by (simp add: phone_m0_def wire_def allowed_for_def phone_device_def Defaults_def)
  ultimately show ?thesis unfolding agent_init_def phone_at_def agent.simps by blast
qed

lemma phone_m1_state: "phone_m1 = phone_m0\<lparr>jobs := [JBuild phone '''' ''key'']\<rparr>"
  by (simp add: phone_m1_def phone_m0_def NewPeerManager_def getSharedSecret_def PeerCount_def mgr_defs phone_nonempty)

lemma phone_m2_state:
  "phone_m2 = phone_m0\<lparr>jobs := [JInsert phone 0], pheap := [0 \<mapsto> new_peer phone '''' ''key''], pnext := 1\<rparr>"
  by (simp add: phone_m2_def phone_m1_state phone_m0_def NewPeerManager_def mgr_defs)

lemma phone_m3_state:
  "phone_m3 = phone_m2\<lparr>jobs := [JSetup phone 0], peers := [phone \<mapsto> 0]\<rparr>"
  by (simp add: phone_m3_def phone_m2_state phone_m0_def NewPeerManager_def PeerCount_def mgr_defs)

theorem fails_closed_witness:
  "\<exists>a b. reach agent_init agent_step a \<and> agent_step a b \<and> peers (am b) phone = Some 0 \<and>
     aloaded a = Inr (Some phone_device) \<and> isOK (ValidateDeviceID phone)"
proof -
  let ?g = "\<lparr>sg_Type = ''connect_request'', sg_TargetDeviceID = phone, sg_DeviceID = '''', sg_AttemptID = '''',
      sg_SDP = '''', sg_Candidate = '''', sg_SDPMid = '''', sg_SDPMLineIndex = None\<rparr>"
  let ?e = "\<lparr>se_secret = Some ''key'', se_dcOpen = False, se_state = PCNew, se_noOffer = False, se_setOK = False\<rparr>"
  have "HandleSignalingMessage ?e ?g phone_m0 = phone_m1"
    by (simp add: HandleSignalingMessage_def clean_attempt_def phone_m1_def)
  then have s1: "agent_step (phone_at phone_m0) (phone_at phone_m1)"
    using agent_step.message [of ?e "phone_at phone_m0" ?g] by (simp add: phone_at_def)
  have "mstep phone_m1 phone_m2"
    unfolding phone_m2_def by (rule mstep.build) (simp add: phone_m1_state)
  then have s2: "agent_step (phone_at phone_m1) (phone_at phone_m2)"
    using agent_step.internal [of "phone_at phone_m1" phone_m2]
    by (simp add: phone_at_def builds_subset phone_m1_state phone_m2_state)
  have "mstep phone_m2 phone_m3"
    unfolding phone_m3_def by (rule mstep.insert_peer) (simp add: phone_m2_state)
  then have s3: "agent_step (phone_at phone_m2) (phone_at phone_m3)"
    using agent_step.internal [of "phone_at phone_m2" phone_m3]
    by (simp add: phone_at_def builds_subset phone_m2_state phone_m3_state)
  have r: "reach agent_init agent_step (phone_at phone_m2)"
    using reach.start [of agent_init, OF phone_init] s1 s2 by (meson reach.move)
  have p: "peers (am (phone_at phone_m3)) phone = Some 0" "peers (am (phone_at phone_m2)) phone \<noteq> Some 0"
    by (simp_all add: phone_at_def phone_m3_state phone_m2_state phone_m0_def NewPeerManager_def SetAllowedDeviceID_def)
  have "isOK (ValidateDeviceID phone)" using fails_closed [OF r s3 p] by blast
  moreover have "aloaded (phone_at phone_m2) = Inr (Some phone_device)" by (simp add: phone_at_def)
  ultimately show ?thesis using r s3 p(1) by blast
qed

text \<open>The pairing commands keep the secrets under keys of valid device IDs.\<close>

lemma well_keyed_upd: "well_keyed s \<Longrightarrow> isOK (ValidateDeviceID d) \<Longrightarrow> well_keyed (s(SharedSecretKey d \<mapsto> v))"
  by (auto simp: well_keyed_def SharedSecretKey_def)

lemma well_keyed_del: "well_keyed s \<Longrightarrow> well_keyed (s(k := None))"
  by (auto simp: well_keyed_def)

context secret_store
begin

lemma pairing_keeps_keyed:
  assumes "ok (sec w)" "isOK (ValidateDeviceID (pd_id d)) \<Longrightarrow> keyok (SharedSecretKey (pd_id d))"
    "codec_ok c" "utf8_valid (pd_name d)" "pd_secret d = b64_encode v" "v \<noteq> []"
    "AddPairedDevice c st io d w = (Inr (), w1)" "well_keyed (secrets_of (sec w))"
  shows "well_keyed (secrets_of (sec w1))"
  using AddPairedDevice_laws [OF assms(1-7)] well_keyed_upd [OF assms(8)] by auto

end

section \<open>Further facts\<close>

text \<open>Reloading the pairing leaves no connection, and the next one is admitted only for the
  device just loaded.\<close>

lemma reload_cuts_all:
  "peers (reload_pairing r table m) = Map.empty \<and> mclosed (reload_pairing r table m) \<and>
   allowedDeviceID (reload_pairing r table m) = allowed_for r"
  by (simp add: reload_pairing_def closeAll_locked_def SetAllowedDeviceID_def)

text \<open>The server can rename the paired device only, and renaming touches no connection.\<close>

lemma rename_only_paired:
  assumes "on_signaling_message c st io e g nm (m, d) = (m', d')" "cdir d' \<noteq> cdir d"
  shows "m' = m \<and> sg_Type g = ''mobile_name_updated'' \<and> sg_DeviceID g = allowedDeviceID m \<and> allowedDeviceID m \<noteq> ''''"
  using assms by (auto simp: on_signaling_message_def Let_def split: if_splits)

text \<open>However the agent process ends after it opened its log, by an initialisation error, a
  rejected signature, a cancelled or a failed run, its PID file is gone when it exits; an exit
  code other than 0 is only given for a run that failed for another reason, and a run that was
  cancelled exits with 0.\<close>

theorem exit_removes_pid_file:
  assumes "runAgent e stores ended h = (code, h')" "ae_logOK e" "removeOK (ae_sup e)"
  shows "agentPid (ah_sup h') = NotExist \<and>
    (code \<noteq> 0 \<longrightarrow> (\<exists>x. ended = Some x \<and> \<not> permanent x)) \<and>
    (ended = None \<longrightarrow> code = 0)"
proof -
  obtain r h1 where s: "agent_setup e stores h = (r, h1)" by fastforce
  have log: "r \<noteq> Inl EOpenLog" using s assms(2) by (auto simp: agent_setup_def Let_def split: sum.splits prod.splits)
  have hm: "is_hmac_error (ESignaling x) \<longleftrightarrow> permanent x" for x
    by (cases x) (auto simp: is_hmac_error_def permanent_def split: http_error.splits)
  have fatal: "\<exists>y. r = Inl (FatalInitError y)" if "r = Inl x" for x
    using s that log by (auto simp: agent_setup_def Let_def split: sum.splits prod.splits if_splits)
  show ?thesis
  proof (cases r)
    case (Inl x)
    then obtain y where "x = FatalInitError y" using fatal by auto
    with Inl s assms show ?thesis
      by (auto simp: runAgent_def Run_def IsFatalInitError_def RemovePIDFile_def)
  next
    case (Inr w)
    with s assms show ?thesis
      by (cases ended) (auto simp: runAgent_def Run_def IsFatalInitError_def RemovePIDFile_def hm split: if_splits)
  qed
qed

text \<open>The monitor logs each change once, and detections and exits alternate.\<close>

lemma monitor_alternates: "successively (\<noteq>) (monitorTmux was seen) \<and>
  (monitorTmux was seen \<noteq> [] \<longrightarrow> hd (monitorTmux was seen) = (if was then ''tmux server exited'' else ''tmux server detected''))"
  by (induction was seen rule: monitorTmux.induct) (auto simp: successively_Cons split: if_splits)

text \<open>Rotation loses nothing but the older backup.\<close>

lemma rotate_keeps_log:
  "rotateLogIfNeeded a b (l, k) = (l, k) \<or> (\<exists>d. l = Some d \<and> rotateLogIfNeeded a b (l, k) = (None, Some d) \<and> maxLogSize \<le> length d)"
  by (auto simp: rotateLogIfNeeded_def split: option.splits)

definition demo_aenv :: aenv where
  "demo_aenv = \<lparr>ae_statOK = True, ae_renOK = True, ae_logOK = True, ae_sup = sup_ok 9, ae_toml = (\<lambda>_. None),
     ae_env = Map.empty, ae_cfg = NotExist, ae_probe = Inr (), ae_kio = kio_ok,
     ae_codec = \<lparr>dmarshal = (\<lambda>_. None), dunmarshal = (\<lambda>_. None)\<rparr>,
     ae_dio = \<lparr>devReadOK = True, devTmp = None, devWriteOK = True, devChmodOK = True, devCloseOK = True, devRenameOK = True\<rparr>,
     ae_hostname = None, ae_lookPath = None, ae_tmux = const_exec '''' (Finished None), ae_version = ''1.0.0''\<rparr>"

definition demo_ahost :: "secrets ahost" where
  "demo_ahost = \<lparr>ah_pub = Some (replicate 32 (CHR ''a''), 384), ah_dir = Map.empty,
     ah_sec = [(SecretKeyEd25519Private, replicate 64 (CHR ''b''))],
     ah_sup = \<lparr>agentPid = NotExist, sent = [], children = [], printed = []\<rparr>, ah_log = (None, None)\<rparr>"

lemma demo_setup:
  "fst (agent_setup demo_aenv (\<lambda>_. memory_store) demo_ahost) =
     Inr (wire demo_aenv Defaults \<lparr>PrivateKey = replicate 64 (CHR ''b''), Ed25519PublicKey = replicate 32 (CHR ''a''),
       DeviceID = deriveDeviceID (replicate 32 (CHR ''a''))\<rparr> (Inr None))"
proof -
  have cfg: "loadConfig (\<lambda>_. None) Map.empty NotExist = Defaults"
    by (simp add: loadConfig_def LoadConfig_def applyEnvOverrides_def Getenv_def unless_empty_def unless_nil_def
        env_flag_def)
  show ?thesis
    by (simp add: agent_setup_def demo_aenv_def demo_ahost_def cfg NewSecretStore_def Defaults_def LoadIdentity_def
        enforceKeyFilePerms_def kio_ok_def keyFilePerms_def memory_store_def Memory_Get_def PrivateKeySize_def
        PublicKeySize_def LoadPairedDevice_def LoadPairedDevices_def WritePIDFile_def sup_ok_def Let_def)
qed

theorem exit_removes_pid_file_witness:
  "\<exists>h'. runAgent demo_aenv (\<lambda>_. memory_store) None demo_ahost = (0, h') \<and> agentPid (ah_sup h') = NotExist"
proof -
  obtain code h' where r: "runAgent demo_aenv (\<lambda>_. memory_store) None demo_ahost = (code, h')" by fastforce
  from exit_removes_pid_file [OF r] have "agentPid (ah_sup h') = NotExist" "code = 0"
    by (simp_all add: demo_aenv_def sup_ok_def)
  with r show ?thesis by blast
qed

end
