(* ===== verification/Host_Power.thy ===== *)
theory Host_Power
  imports Signaling Go_Text
begin

text \<open>
  Sleep and wake-up (\<open>internal/agent\<close>: \<open>sleepwatch_linux.go\<close>, \<open>sleepwatch_iokit.go\<close>,
  \<open>sleepwatch_darwin.go\<close>, \<open>sleepwatch_other.go\<close> and \<open>keepawake*.go\<close>). The callbacks act on a state
  \<open>'c\<close>, which for the agent is the signaling client; D-Bus and IOKit are parameters: what a call
  returned is an argument. The file descriptors of inhibitor locks and the bus connections are
  tracked, so that a leak is visible.
\<close>

section \<open>Linux: the logind watcher\<close>

definition prepareForSleepSignal :: string where
  "prepareForSleepSignal = ''org.freedesktop.login1.Manager.PrepareForSleep''"

text \<open>A D-Bus signal; an element of the body that is no boolean is \<open>None\<close>.\<close>

record dsignal =
  ds_name :: string
  ds_body :: "bool option list"
  ds_sender :: string

datatype 'c wevent = WSleep 'c | WResume | WReleased int

record 'c watcher =
  delayFd :: int
  held :: "int list"
  busOpen :: bool
  client :: 'c
  wevents :: "'c wevent list"
  wstopped :: bool

text \<open>\<open>releaseSleepDelay\<close> closes a descriptor, \<open>takeSleepDelay\<close> returns a new one or \<open>-1\<close>.\<close>

definition releaseSleepDelay :: "int \<Rightarrow> 'c watcher \<Rightarrow> 'c watcher" where
  "releaseSleepDelay fd w = (if fd \<ge> 0 then w\<lparr>held := remove1 fd (held w), wevents := wevents w @ [WReleased fd]\<rparr> else w)"

definition takeSleepDelay :: "(unit + int) option \<Rightarrow> 'c watcher \<Rightarrow> int \<times> 'c watcher" where
  "takeSleepDelay r w = (case r of
      None \<Rightarrow> (- 1, w)
    | Some (Inl _) \<Rightarrow> (- 1, w)
    | Some (Inr fd) \<Rightarrow> (fd, w\<lparr>held := fd # held w\<rparr>))"

definition isFromLogind :: "dsignal \<Rightarrow> string \<Rightarrow> bool" where
  "isFromLogind sg owner \<longleftrightarrow> owner \<noteq> '''' \<and> ds_sender sg = owner"

text \<open>\<open>startSleepWatcher\<close> up to the goroutine: \<open>None\<close> when nothing is started.\<close>

definition startSleepWatcher_linux :: "bool \<Rightarrow> bool \<Rightarrow> bool \<Rightarrow> (unit + int) option \<Rightarrow> 'c \<Rightarrow> 'c watcher option" where
  "startSleepWatcher_linux keepAwake connOK matchOK lock c =
     (if keepAwake then None
      else if \<not> connOK then None
      else if \<not> matchOK then None
      else (let w = \<lparr>delayFd = - 1, held = [], busOpen = True, client = c, wevents = [], wstopped = False\<rparr>
            in case takeSleepDelay lock w of (fd, w1) \<Rightarrow> Some (w1\<lparr>delayFd := fd\<rparr>)))"

text \<open>\<open>logindOwner\<close> asks the bus who owns the logind name; \<open>reply\<close> is what the bus answers to a name.\<close>

definition logindName :: string where "logindName = ''org.freedesktop.login1''"

definition logindOwner :: "(string \<Rightarrow> string option) \<Rightarrow> string option" where
  "logindOwner reply = reply logindName"

text \<open>One received signal (\<open>None\<close>: the channel delivered nil), with the owner of the logind name if it could be
  resolved (\<open>logindOwner\<close>) and the answer to taking the next lock.\<close>

definition watch_signal ::
  "('c \<Rightarrow> 'c) \<Rightarrow> ('c \<Rightarrow> 'c) \<Rightarrow> dsignal option \<Rightarrow> string option \<Rightarrow> (unit + int) option \<Rightarrow> 'c watcher \<Rightarrow> 'c watcher" where
  "watch_signal onSleep onResume sg owner lock w = (case sg of
      None \<Rightarrow> w
    | Some s \<Rightarrow>
       if ds_name s \<noteq> prepareForSleepSignal \<or> ds_body s = [] then w
       else case owner of
         None \<Rightarrow> w
       | Some ow \<Rightarrow>
          if \<not> isFromLogind s ow then w
          else if hd (ds_body s) = Some True then
            (let c = onSleep (client w);
                 w1 = w\<lparr>client := c, wevents := wevents w @ [WSleep c]\<rparr>
             in (releaseSleepDelay (delayFd w1) w1)\<lparr>delayFd := - 1\<rparr>)
          else
            (let w1 = w\<lparr>client := onResume (client w), wevents := wevents w @ [WResume]\<rparr>;
                 w2 = releaseSleepDelay (delayFd w1) w1
             in case takeSleepDelay lock w2 of (fd, w3) \<Rightarrow> w3\<lparr>delayFd := fd\<rparr>))"

definition watch_done :: "'c watcher \<Rightarrow> 'c watcher" where
  "watch_done w = (releaseSleepDelay (delayFd w) w)\<lparr>busOpen := False, wstopped := True\<rparr>"

text \<open>A lock the operating system hands out has a number that is not in use.\<close>

definition fresh_lock :: "(unit + int) option \<Rightarrow> 'c watcher \<Rightarrow> bool" where
  "fresh_lock r w = (case r of Some (Inr fd) \<Rightarrow> 0 \<le> fd \<and> fd \<notin> set (held w) | _ \<Rightarrow> True)"

inductive watch_step :: "('c \<Rightarrow> 'c) \<Rightarrow> ('c \<Rightarrow> 'c) \<Rightarrow> 'c watcher \<Rightarrow> 'c watcher \<Rightarrow> bool"
  for onSleep onResume where
  signal: "\<not> wstopped w \<Longrightarrow> fresh_lock lock w \<Longrightarrow>
    watch_step onSleep onResume w (watch_signal onSleep onResume sg owner lock w)"
| cancel: "\<not> wstopped w \<Longrightarrow> watch_step onSleep onResume w (watch_done w)"
| others: "\<not> wstopped w \<Longrightarrow> watch_step onSleep onResume w (w\<lparr>client := c\<rparr>)"

definition watch_init :: "'c watcher \<Rightarrow> bool" where
  "watch_init w \<longleftrightarrow> (\<exists>ka cn mt tk c. startSleepWatcher_linux ka cn mt tk c = Some w \<and>
     (case tk of Some (Inr fd) \<Rightarrow> 0 \<le> fd | _ \<Rightarrow> True))"

section \<open>macOS: IOKit messages\<close>

definition kIOMessageCanSystemSleep :: nat where "kIOMessageCanSystemSleep = 0xE0000270"
definition kIOMessageSystemWillSleep :: nat where "kIOMessageSystemWillSleep = 0xE0000280"
definition kIOMessageSystemHasPoweredOn :: nat where "kIOMessageSystemHasPoweredOn = 0xE0000300"

datatype pevent = PSleep | PResume | PAllow nat

definition handlePowerMessage :: "nat \<Rightarrow> nat \<Rightarrow> ('c \<Rightarrow> 'c) \<Rightarrow> ('c \<Rightarrow> 'c) \<Rightarrow> 'c \<Rightarrow> 'c \<times> pevent list" where
  "handlePowerMessage msgType arg onSleep onResume c =
     (if msgType = kIOMessageCanSystemSleep then (c, [PAllow arg])
      else if msgType = kIOMessageSystemWillSleep then (onSleep c, [PSleep, PAllow arg])
      else if msgType = kIOMessageSystemHasPoweredOn then (onResume c, [PResume])
      else (c, []))"

text \<open>\<open>loadIOKitPower\<close> binds C functions at run time. The dynamic loader is a parameter: \<open>dlopen\<close> gives the handle
  of a library, \<open>dlsym\<close> the address of a symbol, \<open>deref\<close> what memory holds there. The struct of
  function pointers is the list of bound symbols with their addresses.\<close>

definition iokitPath :: string where "iokitPath = ''/System/Library/Frameworks/IOKit.framework/IOKit''"
definition coreFoundationPath :: string where
  "coreFoundationPath = ''/System/Library/Frameworks/CoreFoundation.framework/CoreFoundation''"

record iokitPower =
  bound :: "(string \<times> nat) list"
  defaultMode :: nat

datatype load_error = EOpenIOKit | EOpenCoreFoundation | EResolve string | ENilMode

definition iokit_symbols :: "string list" where
  "iokit_symbols = [''IORegisterForSystemPower'', ''IOAllowPowerChange'', ''IODeregisterForSystemPower'', ''IOServiceClose'',
     ''IONotificationPortGetRunLoopSource'', ''IONotificationPortDestroy'']"

definition runloop_symbols :: "string list" where
  "runloop_symbols = [''CFRunLoopGetCurrent'', ''CFRunLoopAddSource'', ''CFRunLoopRun'', ''CFRunLoopStop'']"

definition bindings :: "nat \<Rightarrow> nat \<Rightarrow> (nat \<times> string) list" where
  "bindings iokit cf = map (Pair iokit) iokit_symbols @ map (Pair cf) runloop_symbols"

primrec bind_all :: "(nat \<Rightarrow> string \<Rightarrow> nat option) \<Rightarrow> (nat \<times> string) list \<Rightarrow> load_error + (string \<times> nat) list" where
  "bind_all dlsym [] = Inr []"
| "bind_all dlsym (b # bs) = (case b of (lib, name) \<Rightarrow>
     (case dlsym lib name of
        None \<Rightarrow> Inl (EResolve name)
      | Some adr \<Rightarrow> (case bind_all dlsym bs of Inl e \<Rightarrow> Inl e | Inr l \<Rightarrow> Inr ((name, adr) # l))))"

definition loadIOKitPower ::
  "(string \<Rightarrow> nat option) \<Rightarrow> (nat \<Rightarrow> string \<Rightarrow> nat option) \<Rightarrow> (nat \<Rightarrow> nat) \<Rightarrow> load_error + iokitPower" where
  "loadIOKitPower dlopen dlsym deref = (case dlopen iokitPath of
      None \<Rightarrow> Inl EOpenIOKit
    | Some iokit \<Rightarrow>
       (case dlopen coreFoundationPath of
          None \<Rightarrow> Inl EOpenCoreFoundation
        | Some cf \<Rightarrow>
           (case bind_all dlsym (bindings iokit cf) of
              Inl e \<Rightarrow> Inl e
            | Inr l \<Rightarrow>
               (case dlsym cf ''kCFRunLoopDefaultMode'' of
                  None \<Rightarrow> Inl (EResolve ''kCFRunLoopDefaultMode'')
                | Some modeSym \<Rightarrow> if deref modeSym = 0 then Inl ENilMode else Inr \<lparr>bound = l, defaultMode = deref modeSym\<rparr>))))"

text \<open>The two goroutines of \<open>startSleepWatcher\<close>: the one of the run loop, and the one that stops it. A
  stop is lost unless the run loop is running.\<close>

datatype rl_pc = RLRegister | RLFailed | RLReady | RLRunning | RLReturned | RLExited | RLClean

record runloop =
  rl :: rl_pc
  ready :: "bool option"
  exited :: bool
  stopping :: bool
  stopped :: bool
  ctxDone :: bool
  lateStops :: nat

definition rl_register :: "bool \<Rightarrow> runloop \<Rightarrow> runloop" where
  "rl_register ok s = (if ok then s\<lparr>rl := RLReady, ready := Some True\<rparr> else s\<lparr>rl := RLFailed, ready := Some False\<rparr>)"

definition rl_exit :: "runloop \<Rightarrow> runloop" where "rl_exit s = s\<lparr>rl := RLExited, exited := True\<rparr>"

definition rl_cleanup :: "runloop \<Rightarrow> runloop" where "rl_cleanup s = s\<lparr>rl := RLClean\<rparr>"

definition stop_begin :: "runloop \<Rightarrow> runloop" where
  "stop_begin s = (case ready s of
      None \<Rightarrow> s
    | Some False \<Rightarrow> s\<lparr>stopped := True\<rparr>
    | Some True \<Rightarrow> s\<lparr>stopping := True\<rparr>)"

definition stop_round :: "runloop \<Rightarrow> runloop" where
  "stop_round s =
     (if exited s then s\<lparr>stopped := True, stopping := False\<rparr>
      else if rl s = RLRunning then s\<lparr>rl := RLReturned\<rparr>
      else if rl s = RLClean \<or> rl s = RLExited then s\<lparr>lateStops := Suc (lateStops s)\<rparr>
      else s)"

inductive rl_step :: "runloop \<Rightarrow> runloop \<Rightarrow> bool" where
  register: "rl s = RLRegister \<Longrightarrow> rl_step s (rl_register ok s)"
| run: "rl s = RLReady \<Longrightarrow> rl_step s (s\<lparr>rl := RLRunning\<rparr>)"
| exit: "rl s = RLReturned \<Longrightarrow> rl_step s (rl_exit s)"
| cleanup: "rl s = RLExited \<Longrightarrow> rl_step s (rl_cleanup s)"
| ctx: "rl_step s (s\<lparr>ctxDone := True\<rparr>)"
| stop_start: "ctxDone s \<Longrightarrow> ready s \<noteq> None \<Longrightarrow> \<not> stopping s \<Longrightarrow> \<not> stopped s \<Longrightarrow> rl_step s (stop_begin s)"
| stop_retry: "stopping s \<Longrightarrow> rl_step s (stop_round s)"

definition rl_init :: "runloop \<Rightarrow> bool" where
  "rl_init s \<longleftrightarrow> s = \<lparr>rl = RLRegister, ready = None, exited = False, stopping = False, stopped = False,
     ctxDone = False, lateStops = 0\<rparr>"

text \<open>\<open>startSleepWatcher\<close> itself: without the frameworks nothing is started. On other systems it only logs.\<close>

definition startSleepWatcher_darwin ::
  "(string \<Rightarrow> nat option) \<Rightarrow> (nat \<Rightarrow> string \<Rightarrow> nat option) \<Rightarrow> (nat \<Rightarrow> nat) \<Rightarrow> (iokitPower \<times> runloop) option" where
  "startSleepWatcher_darwin dlopen dlsym deref = (case loadIOKitPower dlopen dlsym deref of
      Inl _ \<Rightarrow> None
    | Inr api \<Rightarrow> Some (api, \<lparr>rl = RLRegister, ready = None, exited = False, stopping = False, stopped = False,
        ctxDone = False, lateStops = 0\<rparr>))"

definition startSleepWatcher_other :: "'c watcher option" where "startSleepWatcher_other = None"

lemma bind_all_ok:
  "bind_all dlsym bs = Inr l \<Longrightarrow> map fst l = map snd bs \<and> (\<forall>(lib, name) \<in> set bs. \<exists>a. dlsym lib name = Some a \<and> (name, a) \<in> set l)"
  by (induction bs arbitrary: l) (fastforce split: option.splits sum.splits)+

text \<open>A watcher that starts has every function it calls, from the library that has it, and a run-loop mode.\<close>

theorem started_watcher_is_bound:
  assumes "startSleepWatcher_darwin dlopen dlsym deref = Some (api, s)"
  shows "rl_init s \<and> defaultMode api \<noteq> 0 \<and> map fst (bound api) = iokit_symbols @ runloop_symbols \<and>
    (\<exists>iokit cf. dlopen iokitPath = Some iokit \<and> dlopen coreFoundationPath = Some cf \<and>
       (\<forall>n \<in> set iokit_symbols. \<exists>a. dlsym iokit n = Some a \<and> (n, a) \<in> set (bound api)) \<and>
       (\<forall>n \<in> set runloop_symbols. \<exists>a. dlsym cf n = Some a \<and> (n, a) \<in> set (bound api)))"
proof -
  obtain iokit cf l modeSym where l: "dlopen iokitPath = Some iokit" "dlopen coreFoundationPath = Some cf"
    "bind_all dlsym (bindings iokit cf) = Inr l" "deref modeSym \<noteq> 0"
    "api = \<lparr>bound = l, defaultMode = deref modeSym\<rparr>" "rl_init s"
    using assms by (auto simp: startSleepWatcher_darwin_def loadIOKitPower_def rl_init_def split: option.splits sum.splits if_splits)
  have "map snd (bindings iokit cf) = iokit_symbols @ runloop_symbols"
    by (simp add: bindings_def comp_def)
  moreover have "(iokit, n) \<in> set (bindings iokit cf)" if "n \<in> set iokit_symbols" for n using that by (simp add: bindings_def)
  moreover have "(cf, n) \<in> set (bindings iokit cf)" if "n \<in> set runloop_symbols" for n using that by (simp add: bindings_def)
  ultimately show ?thesis using bind_all_ok [OF l(3)] l by fastforce
qed

section \<open>Keeping the host awake\<close>

definition caffeinateArgs :: "int \<Rightarrow> string list" where
  "caffeinateArgs pid = [''-i'', ''-w'', itoa pid]"

definition isWSL :: "string \<Rightarrow> bool" where
  "isWSL procVersion \<longleftrightarrow> contains_sub (to_lower procVersion) ''microsoft''"

definition readProcVersion :: "bytes option \<Rightarrow> string" where
  "readProcVersion r = (case r of None \<Rightarrow> '''' | Some d \<Rightarrow> d)"

datatype inhibitor = IBus | ILock | IProcess

datatype inhibit_error = EConnectBus | EInhibit | EReadFd

text \<open>\<open>inhibitLogind\<close>: what is held until the context is done.\<close>

definition inhibitLogind :: "bool \<Rightarrow> bool \<Rightarrow> bool \<Rightarrow> (inhibit_error + unit) \<times> inhibitor list" where
  "inhibitLogind connOK callOK storeOK =
     (if \<not> connOK then (Inl EConnectBus, [])
      else if \<not> callOK then (Inl EInhibit, remove1 IBus [IBus])
      else if \<not> storeOK then (Inl EReadFd, remove1 IBus [IBus])
      else (Inr (), [IBus, ILock]))"

definition startKeepAwakeWSL :: "bool \<Rightarrow> inhibitor list" where
  "startKeepAwakeWSL startOK = (if startOK then [IProcess] else [])"

definition startKeepAwake_linux :: "bytes option \<Rightarrow> bool \<Rightarrow> bool \<Rightarrow> bool \<Rightarrow> bool \<Rightarrow> inhibitor list" where
  "startKeepAwake_linux pv psOK connOK callOK storeOK =
     (if isWSL (readProcVersion pv) then startKeepAwakeWSL psOK else snd (inhibitLogind connOK callOK storeOK))"

definition startKeepAwake_other :: "inhibitor list" where "startKeepAwake_other = []"

definition startKeepAwake_darwin :: "bool \<Rightarrow> inhibitor list" where
  "startKeepAwake_darwin startOK = (if startOK then [IProcess] else [])"

section \<open>Results\<close>

text \<open>The watcher holds exactly the lock it knows of, none when it is stopped, and a lock is only given
  back after the client went to sleep, when the host woke up, or at the end.\<close>

definition watch_inv :: "'c watcher \<Rightarrow> bool" where
  "watch_inv w \<longleftrightarrow> (if wstopped w then held w = [] \<and> \<not> busOpen w
     else busOpen w \<and> held w = (if delayFd w \<ge> 0 then [delayFd w] else []) \<and> - 1 \<le> delayFd w)"

lemma watch_inv_init: "watch_init w \<Longrightarrow> watch_inv w"
  by (auto simp: watch_init_def startSleepWatcher_linux_def takeSleepDelay_def watch_inv_def Let_def
      split: if_splits option.splits sum.splits)

lemma watch_inv_signal:
  assumes "watch_inv w" "\<not> wstopped w" "fresh_lock lock w"
  shows "watch_inv (watch_signal onSleep onResume sg owner lock w)"
proof (cases "delayFd w \<ge> 0")
  case True
  with assms show ?thesis
    by (auto simp: watch_inv_def watch_signal_def releaseSleepDelay_def takeSleepDelay_def fresh_lock_def Let_def
        split: option.splits sum.splits)
next
  case False
  with assms show ?thesis
    by (auto simp: watch_inv_def watch_signal_def releaseSleepDelay_def takeSleepDelay_def fresh_lock_def Let_def
        split: option.splits sum.splits)
qed

lemma watch_inv_step: "watch_inv w \<Longrightarrow> watch_step onSleep onResume w v \<Longrightarrow> watch_inv v"
proof (rotate_tac, induction rule: watch_step.induct)
  case (signal w lock sg owner)
  then show ?case using watch_inv_signal by blast
next
  case (cancel w)
  then show ?case by (auto simp: watch_inv_def watch_done_def releaseSleepDelay_def)
next
  case (others w c)
  then show ?case by (simp add: watch_inv_def)
qed

interpretation watch: machine watch_init "watch_step onSleep onResume" watch_inv
  by unfold_locales (fact watch_inv_init, fact watch_inv_step)


text \<open>With the client's own operations: when the host goes to sleep, the client is suspended before the
  lock is released, unless it was closed.\<close>

lemma sleep_suspends:
  assumes "isFromLogind s ow" "ds_name s = prepareForSleepSignal" "ds_body s = Some True # bs" "\<not> shut (client w)"
  shows "suspended (client (watch_signal Suspend onResume (Some s) (Some ow) lock w))"
  using assms by (simp add: watch_signal_def releaseSleepDelay_def Suspend_def drop_link_def Let_def)

text \<open>On macOS the kernel's question whether the host may sleep is answered exactly once, and before a sleep only
  after the client was told.\<close>

lemma power_message_acknowledged:
  "snd (handlePowerMessage t arg onSleep onResume c) =
     (if t = kIOMessageCanSystemSleep then [PAllow arg]
      else if t = kIOMessageSystemWillSleep then [PSleep, PAllow arg]
      else if t = kIOMessageSystemHasPoweredOn then [PResume] else [])"
  "fst (handlePowerMessage kIOMessageSystemWillSleep arg onSleep onResume c) = onSleep c"
  by (simp_all add: handlePowerMessage_def kIOMessageCanSystemSleep_def kIOMessageSystemWillSleep_def
      kIOMessageSystemHasPoweredOn_def)

definition rl_inv :: "runloop \<Rightarrow> bool" where
  "rl_inv s \<longleftrightarrow> (exited s \<longleftrightarrow> rl s = RLExited \<or> rl s = RLClean) \<and> lateStops s = 0 \<and>
     (ready s = None \<longleftrightarrow> rl s = RLRegister) \<and> (ready s = Some False \<longleftrightarrow> rl s = RLFailed) \<and>
     (stopping s \<longrightarrow> ctxDone s \<and> ready s = Some True) \<and>
     (stopped s \<longrightarrow> ctxDone s \<and> (exited s \<or> rl s = RLFailed))"

lemma rl_inv_step: "rl_inv s \<Longrightarrow> rl_step s t \<Longrightarrow> rl_inv t"
proof (rotate_tac, induction rule: rl_step.induct)
  case (register s ok)
  then show ?case unfolding rl_inv_def rl_register_def by (cases ok) auto
next
  case (stop_start s)
  then show ?case
    by (cases "ready s"; cases "the (ready s)") (simp_all add: rl_inv_def stop_begin_def)
next
  case (stop_retry s)
  then show ?case
    by (cases "exited s"; cases "rl s") (simp_all add: rl_inv_def stop_round_def)
qed (unfold rl_inv_def rl_exit_def rl_cleanup_def, auto)

interpretation loops: machine rl_init rl_step rl_inv
  by unfold_locales (simp add: rl_init_def rl_inv_def, fact rl_inv_step)

text \<open>How far the shutdown of the run loop is.\<close>

fun rl_left :: "rl_pc \<Rightarrow> nat" where
  "rl_left RLRegister = 5" | "rl_left RLReady = 4" | "rl_left RLRunning = 3" | "rl_left RLReturned = 2"
| "rl_left RLExited = 1" | "rl_left RLClean = 0" | "rl_left RLFailed = 0"

text \<open>The macOS watcher shuts down: a stop is never sent to a run loop whose thread is gone,
  and once the context is cancelled, every state but the final one has a step of the watcher that brings it
  closer to the end: the retried stop ends a running loop even if an earlier one came too soon and
  was lost.\<close>

theorem run_loop_stops:
  assumes "reach rl_init rl_step s"
  shows "lateStops s = 0 \<and>
    (ctxDone s \<longrightarrow> rl s \<notin> {RLClean, RLFailed} \<longrightarrow>
       (\<exists>t. rl_step s t \<and> rl_left (rl t) < rl_left (rl s)) \<or>
       (rl s = RLRunning \<and> (\<exists>t u. rl_step s t \<and> rl t = RLRunning \<and> rl_step t u \<and> rl u = RLReturned)))"
proof -
  have inv: "rl_inv s" using assms by (rule loops.inv_reach)
  have "(\<exists>t. rl_step s t \<and> rl_left (rl t) < rl_left (rl s)) \<or>
       (rl s = RLRunning \<and> (\<exists>t u. rl_step s t \<and> rl t = RLRunning \<and> rl_step t u \<and> rl u = RLReturned))"
    if c: "ctxDone s" "rl s \<notin> {RLClean, RLFailed}"
  proof (cases "rl s")
    case RLRegister
    have "rl_left (rl (rl_register True s)) < rl_left (rl s)" by (simp add: rl_register_def RLRegister)
    with rl_step.register [OF RLRegister] show ?thesis by blast
  next
    case RLReady
    have "rl_left (rl (s\<lparr>rl := RLRunning\<rparr>)) < rl_left (rl s)" by (simp add: RLReady)
    with rl_step.run [OF RLReady] show ?thesis by blast
  next
    case RLRunning
    have e: "\<not> exited s" using inv RLRunning by (simp add: rl_inv_def)
    have "ready s = Some True" using inv RLRunning
      by (cases "ready s"; cases "the (ready s)") (auto simp: rl_inv_def)
    moreover have "\<not> stopped s" using inv RLRunning e unfolding rl_inv_def by auto
    ultimately have r: "ready s = Some True" "\<not> exited s" "\<not> stopped s" using e by simp_all
    show ?thesis
    proof (cases "stopping s")
      case True
      have "rl_left (rl (stop_round s)) < rl_left (rl s)" using r RLRunning by (simp add: stop_round_def)
      with rl_step.stop_retry [OF True] show ?thesis by blast
    next
      case False
      have t: "stop_begin s = s\<lparr>stopping := True\<rparr>" using r by (simp add: stop_begin_def)
      have "rl_step s (s\<lparr>stopping := True\<rparr>)" using rl_step.stop_start [OF c(1)] r False t by simp
      moreover have "rl_step (s\<lparr>stopping := True\<rparr>) (stop_round (s\<lparr>stopping := True\<rparr>))" by (rule rl_step.stop_retry) simp
      moreover have "rl (stop_round (s\<lparr>stopping := True\<rparr>)) = RLReturned" using r RLRunning by (simp add: stop_round_def)
      ultimately show ?thesis using RLRunning by fastforce
    qed
  next
    case RLReturned
    have "rl_left (rl (rl_exit s)) < rl_left (rl s)" by (simp add: rl_exit_def RLReturned)
    with rl_step.exit [OF RLReturned] show ?thesis by blast
  next
    case RLExited
    have "rl_left (rl (rl_cleanup s)) < rl_left (rl s)" by (simp add: rl_cleanup_def RLExited)
    with rl_step.cleanup [OF RLExited] show ?thesis by blast
  qed (use c in simp_all)
  with inv show ?thesis by (simp add: rl_inv_def)
qed

text \<open>A failed attempt to inhibit sleep holds nothing.\<close>

lemma inhibit_no_leak: "\<not> isOK (fst (inhibitLogind a b c)) \<Longrightarrow> snd (inhibitLogind a b c) = []"
  by (simp add: inhibitLogind_def split: if_splits)

section \<open>Witnesses\<close>

definition demo_watcher :: "nat watcher" where
  "demo_watcher = \<lparr>delayFd = 7, held = [7], busOpen = True, client = 0, wevents = [], wstopped = False\<rparr>"

definition demo_signal :: dsignal where
  "demo_signal = \<lparr>ds_name = prepareForSleepSignal, ds_body = [Some True], ds_sender = ''a''\<rparr>"

lemma demo_watcher_init: "watch_init demo_watcher"
proof -
  have "startSleepWatcher_linux False True True (Some (Inr 7)) 0 = Some demo_watcher"
    by (simp add: startSleepWatcher_linux_def takeSleepDelay_def demo_watcher_def Let_def)
  moreover have "case Some (Inr 7 :: unit + int) of Some (Inr fd) \<Rightarrow> 0 \<le> fd | _ \<Rightarrow> True" by simp
  ultimately show ?thesis unfolding watch_init_def by blast
qed


definition demo_loop :: runloop where
  "demo_loop = \<lparr>rl = RLRegister, ready = None, exited = False, stopping = False, stopped = False,
     ctxDone = True, lateStops = 0\<rparr>"

theorem run_loop_stops_witness:
  "lateStops demo_loop = 0 \<and> (\<exists>t. rl_step demo_loop t \<and> rl_left (rl t) < rl_left (rl demo_loop))"
proof -
  let ?s = "demo_loop\<lparr>ctxDone := False\<rparr>"
  have "reach rl_init rl_step ?s" by (rule reach.start) (simp add: rl_init_def demo_loop_def)
  moreover have "rl_step ?s (?s\<lparr>ctxDone := True\<rparr>)" by (rule rl_step.ctx)
  moreover have "?s\<lparr>ctxDone := True\<rparr> = demo_loop" by (simp add: demo_loop_def)
  ultimately have r: "reach rl_init rl_step demo_loop" using reach.move by metis
  have "ctxDone demo_loop" "rl demo_loop \<notin> {RLClean, RLFailed}" "rl demo_loop \<noteq> RLRunning"
    by (simp_all add: demo_loop_def)
  with run_loop_stops [OF r] show ?thesis by blast
qed

end
