(* ===== verification/Firewall.thy ===== *)
theory Firewall
  imports Go_Text
begin

text \<open>
  Detection of a host firewall (\<open>internal/firewall\<close>): the probes for macOS, Linux and Windows, each as a
  function of the output of the commands it runs (\<open>None\<close>: the command failed), and the test that decides
  whether the user is warned. No probe changes anything.
\<close>

section \<open>Status\<close>

datatype Confidence = ConfidenceUnknown | ConfidenceLow | ConfidenceHigh

definition confidence_String :: "Confidence \<Rightarrow> string" where
  "confidence_String c = (case c of ConfidenceLow \<Rightarrow> ''low'' | ConfidenceHigh \<Rightarrow> ''high'' | _ \<Rightarrow> ''unknown'')"

record Status =
  Supported :: bool
  FirewallEnabled :: bool
  Authorized :: bool
  Conf :: Confidence
  Detail :: string
  BinPath :: string

definition NeedsAttention :: "Status \<Rightarrow> bool" where
  "NeedsAttention s \<longleftrightarrow> Supported s \<and> FirewallEnabled s \<and> \<not> Authorized s \<and> Conf s \<noteq> ConfidenceUnknown"

text \<open>\<open>ExecutablePath\<close>: the symbolic links are followed if that works.\<close>

definition ExecutablePath :: "string option \<Rightarrow> (string \<Rightarrow> string option) \<Rightarrow> string option" where
  "ExecutablePath exe evalSymlinks = (case exe of
      None \<Rightarrow> None
    | Some p \<Rightarrow> (case evalSymlinks p of None \<Rightarrow> Some p | Some q \<Rightarrow> Some q))"

definition unsupported_Probe :: "string \<Rightarrow> Status" where
  "unsupported_Probe p = \<lparr>Supported = False, FirewallEnabled = False, Authorized = False, Conf = ConfidenceUnknown,
     Detail = '''', BinPath = p\<rparr>"

section \<open>macOS\<close>

text \<open>The part of a string after the first occurrence of a separator.\<close>

fun after_sub :: "string \<Rightarrow> string \<Rightarrow> string option" where
  "after_sub [] p = (if p = [] then Some [] else None)"
| "after_sub (x # xs) p = (if has_prefix (x # xs) p then Some (drop (length p) (x # xs)) else after_sub xs p)"

text \<open>The two lines after the entry decide; neither of the words is a block.\<close>

fun allow_word :: "string list \<Rightarrow> bool" where
  "allow_word [] = False"
| "allow_word (l # ls) = (if contains_sub l ''Allow'' then True else if contains_sub l ''Block'' then False else allow_word ls)"

definition is_entry :: "string \<Rightarrow> string \<Rightarrow> bool" where
  "is_entry binPath line = (case after_sub (trim_space line) '' : '' of
      None \<Rightarrow> False | Some r \<Rightarrow> trim_space r = binPath)"

fun scan_apps :: "string \<Rightarrow> string list \<Rightarrow> bool \<times> bool" where
  "scan_apps binPath [] = (False, False)"
| "scan_apps binPath (l # ls) = (if is_entry binPath l then (allow_word (take 2 ls), True) else scan_apps binPath ls)"

definition listappsAuthorized :: "string \<Rightarrow> string \<Rightarrow> bool \<times> bool" where
  "listappsAuthorized out binPath = scan_apps binPath (split_on (CHR 0x0A) out)"

definition macOSMajor :: "string option \<Rightarrow> int" where
  "macOSMajor r = (case r of
      None \<Rightarrow> 0
    | Some out \<Rightarrow> fst (parse_int (takeWhile (\<lambda>c. c \<noteq> CHR ''.'') (trim_space out))))"

record darwin_out =
  globalState :: "string option"
  blockAll :: "string option"
  swVers :: "string option"
  listApps :: "string option"

definition darwin_Probe :: "darwin_out \<Rightarrow> string \<Rightarrow> Status" where
  "darwin_Probe o' p =
     (let st = \<lparr>Supported = True, FirewallEnabled = False, Authorized = False, Conf = ConfidenceHigh, Detail = '''', BinPath = p\<rparr>
      in case globalState o' of
           None \<Rightarrow> st\<lparr>Conf := ConfidenceUnknown, Detail := ''could not read firewall state''\<rparr>
         | Some g \<Rightarrow>
            if \<not> contains_sub g ''enabled''
            then st\<lparr>Authorized := True, Detail := ''firewall disabled''\<rparr>
            else
              let st1 = st\<lparr>FirewallEnabled := True\<rparr> in
              if (case blockAll o' of None \<Rightarrow> False | Some b \<Rightarrow> contains_sub b ''set to enabled'')
              then st1\<lparr>Detail := ''block-all mode active; all inbound connections blocked''\<rparr>
              else if macOSMajor (swVers o') \<ge> 15
              then st1\<lparr>Conf := ConfidenceLow, Detail := ''macOS 15+: cannot verify per-app firewall status''\<rparr>
              else (case listApps o' of
                      None \<Rightarrow> st1\<lparr>Conf := ConfidenceUnknown, Detail := ''could not list firewall apps''\<rparr>
                    | Some l \<Rightarrow>
                       (let (allowed, found) = listappsAuthorized l p in
                        if \<not> found then st1\<lparr>Detail := ''pmux is not in the firewall allow-list''\<rparr>
                        else if \<not> allowed then st1\<lparr>Detail := ''pmux is set to block incoming connections''\<rparr>
                        else st1\<lparr>Authorized := True, Detail := ''pmux is allowed''\<rparr>)))"

section \<open>Linux and Windows\<close>

definition linux_Probe :: "string option \<Rightarrow> string option \<Rightarrow> string \<Rightarrow> Status" where
  "linux_Probe ufw fwd p =
     (let st = \<lparr>Supported = True, FirewallEnabled = False, Authorized = True, Conf = ConfidenceLow, Detail = '''', BinPath = p\<rparr>;
          active = (case ufw of None \<Rightarrow> False | Some u \<Rightarrow> contains_sub u ''Status: active'');
          running = (case fwd of None \<Rightarrow> False | Some f \<Rightarrow> contains_sub f ''running'')
      in if active then st\<lparr>FirewallEnabled := True, Authorized := False, Detail := ''ufw is active; inbound UDP to pmux may be blocked''\<rparr>
         else if running then st\<lparr>FirewallEnabled := True, Authorized := False, Detail := ''firewalld is running; inbound UDP to pmux may be blocked''\<rparr>
         else st\<lparr>Detail := ''no active host firewall detected (or could not verify without root)''\<rparr>)"

definition fwRuleName :: string where "fwRuleName = ''pmux agent''"

definition windows_Probe :: "string option \<Rightarrow> string option \<Rightarrow> string \<Rightarrow> Status" where
  "windows_Probe profile rule p =
     (let st = \<lparr>Supported = True, FirewallEnabled = False, Authorized = False, Conf = ConfidenceHigh, Detail = '''', BinPath = p\<rparr>
      in case profile of
           None \<Rightarrow> st\<lparr>Conf := ConfidenceUnknown, Detail := ''could not read firewall state''\<rparr>
         | Some out \<Rightarrow>
            if \<not> contains_sub (to_lower out) ''true'' then st\<lparr>Authorized := True, Detail := ''firewall disabled on all profiles''\<rparr>
            else (let st1 = st\<lparr>FirewallEnabled := True\<rparr> in
              case rule of
                None \<Rightarrow> st1\<lparr>Conf := ConfidenceUnknown, Detail := ''could not query firewall rules''\<rparr>
              | Some r \<Rightarrow>
                 if contains_sub r fwRuleName then st1\<lparr>Authorized := True, Detail := ''inbound allow rule present''\<rparr>
                 else st1\<lparr>Detail := ''no inbound allow rule for pmux''\<rparr>))"

section \<open>When the user is warned\<close>

lemma scan_apps_found:
  "snd (scan_apps p ls) \<longleftrightarrow> (\<exists>l \<in> set ls. is_entry p l)"
  "fst (scan_apps p ls) \<Longrightarrow> snd (scan_apps p ls)"
  by (induction ls) auto

text \<open>The user is warned exactly when a firewall is known to be on and the agent is not known
  to be allowed through it: on macOS when the firewall is on and either blocks everything, cannot be
  asked about single programs, or lists the agent as blocked or not at all; on Linux when ufw or firewalld
  answered that it is active; on Windows when a profile is on and the rule is missing. A probe whose commands fail
  raises no alarm.\<close>

theorem warned_when_blocked:
  "(NeedsAttention (darwin_Probe o' p) \<longleftrightarrow>
      (\<exists>g. globalState o' = Some g \<and> contains_sub g ''enabled'') \<and>
      ((\<exists>b. blockAll o' = Some b \<and> contains_sub b ''set to enabled'') \<or> macOSMajor (swVers o') \<ge> 15 \<or>
       (\<exists>l. listApps o' = Some l \<and> \<not> fst (listappsAuthorized l p))))
   \<and> (NeedsAttention (linux_Probe ufw fwd p) \<longleftrightarrow>
      (\<exists>u. ufw = Some u \<and> contains_sub u ''Status: active'') \<or> (\<exists>f. fwd = Some f \<and> contains_sub f ''running''))
   \<and> (NeedsAttention (windows_Probe profile rule p) \<longleftrightarrow>
      (\<exists>out. profile = Some out \<and> contains_sub (to_lower out) ''true'') \<and> (\<exists>r. rule = Some r \<and> \<not> contains_sub r fwRuleName))
   \<and> \<not> NeedsAttention (unsupported_Probe p)"
proof -
  have d: "NeedsAttention (darwin_Probe o' p) \<longleftrightarrow>
      (\<exists>g. globalState o' = Some g \<and> contains_sub g ''enabled'') \<and>
      ((\<exists>b. blockAll o' = Some b \<and> contains_sub b ''set to enabled'') \<or> macOSMajor (swVers o') \<ge> 15 \<or>
       (\<exists>l. listApps o' = Some l \<and> \<not> fst (listappsAuthorized l p)))"
  proof (cases "\<exists>g. globalState o' = Some g \<and> contains_sub g ''enabled''")
    case True
    then obtain g where g: "globalState o' = Some g" "contains_sub g ''enabled''" by blast
    show ?thesis
    proof (cases "(\<exists>b. blockAll o' = Some b \<and> contains_sub b ''set to enabled'') \<or> macOSMajor (swVers o') \<ge> 15")
      case True
      with g show ?thesis by (auto simp: darwin_Probe_def NeedsAttention_def Let_def)
    next
      case False
      then have nb: "\<not> (case blockAll o' of None \<Rightarrow> False | Some b \<Rightarrow> contains_sub b ''set to enabled'')"
        by (auto split: option.splits)
      have "fst (listappsAuthorized l p) \<Longrightarrow> snd (listappsAuthorized l p)" for l
        by (simp add: listappsAuthorized_def scan_apps_found(2))
      with g False nb show ?thesis
        by (cases "listApps o'") (auto simp: darwin_Probe_def NeedsAttention_def Let_def case_prod_unfold)
    qed
  next
    case False
    then show ?thesis by (cases "globalState o'") (auto simp: darwin_Probe_def NeedsAttention_def Let_def)
  qed
  have l: "NeedsAttention (linux_Probe ufw fwd p) \<longleftrightarrow>
      (\<exists>u. ufw = Some u \<and> contains_sub u ''Status: active'') \<or> (\<exists>f. fwd = Some f \<and> contains_sub f ''running'')"
    by (auto simp: linux_Probe_def NeedsAttention_def Let_def split: option.splits)
  have w: "NeedsAttention (windows_Probe profile rule p) \<longleftrightarrow>
      (\<exists>out. profile = Some out \<and> contains_sub (to_lower out) ''true'') \<and> (\<exists>r. rule = Some r \<and> \<not> contains_sub r fwRuleName)"
    by (auto simp: windows_Probe_def NeedsAttention_def Let_def split: option.splits)
  show ?thesis using d l w by (simp add: NeedsAttention_def unsupported_Probe_def)
qed

end
