(* ===== verification/Commands.thy ===== *)
theory Commands
  imports Agent Pair_Session Firewall
begin

text \<open>
  The command line (\<open>cmd/pmux/main.go\<close>, \<open>internal/proxy/proxy.go\<close>) and the commands that set a host up,
  show its state and remove it (\<open>init.go\<close>, \<open>status.go\<close>, \<open>uninstall.go\<close> of \<open>internal/agent\<close>). A command
  works on the record \<open>chost\<close>: keys and secrets, the configuration directory, the PID file and the
  agents, the agent's log, the requests sent and the texts written to standard output (one entry per
  write, without its last line break) and the banners on standard error; other text on standard
  error is not kept, the error values and the exit code stand for it, nor is the help text. \<open>main\<close> dispatches a command
  line to the handlers, which compose the operations of the other theories with the paths,
  the configuration and the secret store they resolve.
\<close>

section \<open>The host of a command\<close>

text \<open>\<open>ch_dir\<close> is the configuration directory without the keys, the PID file and the log;
  \<open>ch_keydir\<close> holds the files of the keys directory that are not pmux's own.\<close>

record 's chost =
  ch_keys :: "'s keys"
  ch_dir :: "files option"
  ch_keydir :: files
  ch_sup :: sup
  ch_log :: "bytes option \<times> bytes option"
  ch_reqs :: "request list"
  ch_out :: "string list"
  ch_banner :: "string list"

definition say :: "string \<Rightarrow> 's chost \<Rightarrow> 's chost" where
  "say t h = h\<lparr>ch_out := ch_out h @ [t]\<rparr>"

definition on_ckeys :: "('s keys \<Rightarrow> 'r \<times> 's keys) \<Rightarrow> 's chost \<Rightarrow> 'r \<times> 's chost" where
  "on_ckeys f h = (case f (ch_keys h) of (r, k) \<Rightarrow> (r, h\<lparr>ch_keys := k\<rparr>))"

definition dir_files :: "'s chost \<Rightarrow> files" where
  "dir_files h = (case ch_dir h of None \<Rightarrow> Map.empty | Some d \<Rightarrow> d)"

definition put_dir :: "files \<Rightarrow> 's chost \<Rightarrow> 's chost" where
  "put_dir d h = (if d = dir_files h then h else h\<lparr>ch_dir := Some d\<rparr>)"

definition on_cdevs :: "('s devs \<Rightarrow> 'r \<times> 's devs) \<Rightarrow> 's chost \<Rightarrow> 'r \<times> 's chost" where
  "on_cdevs f h = (case f \<lparr>cdir = dir_files h, sec = kstore (ch_keys h)\<rparr> of
      (r, d) \<Rightarrow> (r, put_dir (cdir d) (h\<lparr>ch_keys := (ch_keys h)\<lparr>kstore := sec d\<rparr>\<rparr>)))"

definition on_sup :: "(sup \<Rightarrow> 'r \<times> sup) \<Rightarrow> 's chost \<Rightarrow> 'r \<times> 's chost" where
  "on_sup f h = (case f (ch_sup h) of (r, w) \<Rightarrow> (r, h\<lparr>ch_sup := w\<rparr>))"

definition on_ckeys_sup :: "('s keys \<Rightarrow> sup \<Rightarrow> 'r \<times> 's keys \<times> sup) \<Rightarrow> 's chost \<Rightarrow> 'r \<times> 's chost" where
  "on_ckeys_sup f h = (case f (ch_keys h) (ch_sup h) of (r, k, w) \<Rightarrow> (r, h\<lparr>ch_keys := k, ch_sup := w\<rparr>))"

definition configFile :: string where "configFile = ''config.toml''"

section \<open>The configuration written by init\<close>

definition em_dash :: string where "em_dash = [CHR 0xE2, CHR 0x80, CHR 0x94]"

definition default_config_lines :: "string list" where
  "default_config_lines =
     [
      ''# Pocketmux Agent Configuration'',
            '''',
            ''# Log level: \"debug\", \"info\", \"warn\", or \"error\" (env: PMUX_LOG_LEVEL)'',
            ''# log_level = \"info\"'',
            '''',
            ''[server]'',
            ''# Signaling server URL (env: PMUX_SERVER_URL)'',
            ''# url = \"https://signal.pmux.io\"'',
            ''# Signaling server API version prefix (env: PMUX_API_VERSION)'',
            ''# Accepted values: \"v1\" (default) or \"\" (legacy, unversioned paths)'',
            ''# All HTTP/WebSocket endpoints are prefixed with /<api_version> when non-empty.'',
            ''# Set to \"\" only when pointing at a signaling server that predates API versioning.'',
            ''# api_version = \"v1\"'',
            '''',
            ''[identity]'',
            ''# Path to Ed25519 keypair (env: PMUX_KEY_PATH)'',
            ''# key_path = \"~/.config/pmux/keys/\"'',
            ''# Secret storage backend: \"auto\", \"keyring\", or \"file\" (env: PMUX_SECRET_BACKEND)'',
            ''# auto = use system keychain if available, fall back to encrypted file'',
            ''# keyring = require system keychain (macOS Keychain, Linux SecretService)'',
            ''# file = always use encrypted file'',
            ''# secret_backend = \"auto\"'',
            '''',
            ''[connection]'',
            ''# reconnect_interval = \"5s\"'',
            ''# How often the agent sends a presence heartbeat. Values above 45s are clamped'',
            ''# to 45s '' @ em_dash @ '' the signaling server marks a host offline after 90s of silence.'',
            ''# keepalive_interval = \"30s\"'',
            ''# max_mobile_connections = 1'',
            ''# Force ICE into relay-only (TURN) mode for testing/debugging (env: PMUX_FORCE_RELAY).'',
            ''# When true, the agent gathers only TURN-relayed candidates '' @ em_dash @ '' a successful connection'',
            ''# proves the TURN path works; a failure isolates TURN as the problem. Leave false in'',
            ''# normal use, as it disables direct peer-to-peer connections.'',
            ''# force_relay = false'',
            '''',
            ''[tmux]'',
            ''# socket_name = \"pmux\"'',
            ''# Absolute path to tmux binary (env: PMUX_TMUX_PATH)'',
            ''# Resolved automatically during 'pmux init'. Set manually if tmux moves.'',
            ''# tmux_path = \"/opt/homebrew/bin/tmux\"'',
            '''',
            ''[update]'',
            ''# Enable automatic update checking (env: PMUX_UPDATE_ENABLED)'',
            ''# Defaults to true. Set to false to disable update notifications.'',
            ''# enabled = true'',
            ''# How often the agent checks for updates (env: PMUX_UPDATE_INTERVAL)'',
            ''# check_interval = \"24h\"'',
            '''',
            ''[power]'',
            ''# Keep the host awake while the agent is running (env: PMUX_KEEP_AWAKE).'',
            ''# Prevents idle sleep so the mobile app can reach this host on demand '' @ em_dash @ '' a'',
            ''# sleeping machine drops off the network and shows offline shortly after.'',
            ''# Best-effort: on macOS this does NOT override closing the laptop lid'',
            ''# (clamshell sleep) or forced low-battery sleep; on Linux it requires systemd.'',
            ''# Defaults to false.'',
            ''# keep_awake = false''
     ]"

definition newline :: char where "newline = CHR 0x0A"

definition CommentedDefaultConfig :: string where
  "CommentedDefaultConfig = concat (map (\<lambda>l. l @ [newline]) default_config_lines)"

definition socket_comment :: string where "socket_comment = ''# socket_name = \"pmux\"''"

definition init_config :: "(bytes \<Rightarrow> bool) \<Rightarrow> string \<Rightarrow> string \<Rightarrow> string" where
  "init_config isprint nm tmuxPath =
     (let tmuxSection = socket_comment @ (if tmuxPath \<noteq> '''' then newline # ''tmux_path = '' @ quote isprint tmuxPath else '''');
          template = replace_first socket_comment tmuxSection CommentedDefaultConfig
      in ''name = '' @ quote isprint nm @ [newline, newline] @ template)"

definition prepend_name :: "(bytes \<Rightarrow> bool) \<Rightarrow> string \<Rightarrow> string \<Rightarrow> string" where
  "prepend_name isprint nm existing = ''name = '' @ quote isprint nm @ [newline, newline] @ existing"

section \<open>init\<close>

datatype init_cmd_error = EInitLoad id_error | EInitGenerate id_error | EInitSave

text \<open>\<open>ie_firewall\<close> is the status probed, if the path of the executable could be resolved.\<close>

record init_env =
  ie_prn :: "bytes \<Rightarrow> bool"
  ie_kio :: kio
  ie_readOK :: bool
  ie_writeOK :: bool
  ie_left :: "bytes option"
  ie_input :: string
  ie_hostname :: "string option"
  ie_firewall :: "Status option"

text \<open>Writing the configuration; a write that fails may leave anything (\<open>ie_left\<close>).\<close>

definition write_config :: "init_env \<Rightarrow> bytes \<Rightarrow> 's chost \<Rightarrow> (init_cmd_error + unit) \<times> 's chost" where
  "write_config e content h =
     (if ie_writeOK e then (Inr (), h\<lparr>ch_dir := Some ((dir_files h)(configFile \<mapsto> content))\<rparr>)
      else (Inl EInitSave, h\<lparr>ch_dir := Some ((dir_files h)(configFile := ie_left e))\<rparr>))"

text \<open>The line typed at the prompt, without the white space around it.\<close>

definition prompted_name :: "init_env \<Rightarrow> string" where
  "prompted_name e = (let i = trim_space (ie_input e) in if i = '''' then DefaultHostName (ie_hostname e) else i)"

definition Warning :: string where
  "Warning = ''Warning: Your firewall may be blocking pmux agent connectivity. '' @
     ''Ensure pmux is allowed in your firewall to support direct peer-to-peer connections.''"

definition PrintFirewallNotice :: "Status option \<Rightarrow> 's chost \<Rightarrow> 's chost" where
  "PrintFirewallNotice probed h = (case probed of
      None \<Rightarrow> h | Some f \<Rightarrow> if NeedsAttention f then say (newline # Warning) h else h)"

definition backend_name :: "backend \<Rightarrow> string" where
  "backend_name b = (case b of KeyringBackend \<Rightarrow> ''keyring'' | FileBackend \<Rightarrow> ''encrypted-file'')"

definition existing_config :: "init_env \<Rightarrow> 's chost \<Rightarrow> bytes option" where
  "existing_config e h = (if ie_readOK e then dir_files h configFile else None)"

text \<open>The configuration after a new identity: the host name used, and the file.\<close>

definition init_settings ::
  "init_env \<Rightarrow> Config \<Rightarrow> string \<Rightarrow> 's chost \<Rightarrow> string \<times> (init_cmd_error + unit) \<times> 's chost" where
  "init_settings e cfg tmuxPath h =
     (let ask = say (''Host name ['' @ DefaultHostName (ie_hostname e) @ '']: '') h; nm = prompted_name e
      in case existing_config e h of
           None \<Rightarrow> (nm, write_config e (init_config (ie_prn e) nm tmuxPath) ask)
         | Some c \<Rightarrow>
            if Name cfg = '''' then (nm, write_config e (prepend_name (ie_prn e) nm c) ask)
            else (Name cfg, Inr (), h))"

definition RunInit ::
  "init_env \<Rightarrow> Paths \<Rightarrow> Config \<Rightarrow> backend \<Rightarrow> 's store \<Rightarrow> string \<Rightarrow> 's chost \<Rightarrow> (init_cmd_error + unit) \<times> 's chost" where
  "RunInit e paths cfg b st tmuxPath h = (case on_ckeys (HasIdentity st (ie_kio e)) h of
      (True, h1) \<Rightarrow>
        (case on_ckeys (LoadIdentity st (ie_kio e)) h1 of
           (Inl x, h2) \<Rightarrow> (Inl (EInitLoad x), h2)
         | (Inr ident, h2) \<Rightarrow>
            (let h3 = say (''Device ID: '' @ Identity.DeviceID ident) (say ''Identity already exists.'' h2)
             in (Inr (), if Name cfg \<noteq> '''' then say (''Host name: '' @ Name cfg) h3 else h3)))
    | (False, h1) \<Rightarrow>
        (case on_ckeys (GenerateIdentity st (ie_kio e)) h1 of
           (Inl x, h2) \<Rightarrow> (Inl (EInitGenerate x), h2)
         | (Inr ident, h2) \<Rightarrow>
            (case init_settings e cfg tmuxPath h2 of
               (_, Inl x, h3) \<Rightarrow> (Inl x, h3)
             | (nm, Inr _, h3) \<Rightarrow> (Inr (), PrintFirewallNotice (ie_firewall e)
                 (say (''Keys saved to: '' @ KeysDir paths @ '' (backend: '' @ backend_name b @ '')'')
                   (say (''Host name: '' @ nm)
                     (say (''Device ID: '' @ Identity.DeviceID ident) (say (newline # ''Identity generated.'') h3))))))))"

section \<open>status\<close>

text \<open>The sessions tmux listed, if there is a lister, and the firewall status, if it was probed.\<close>

record status_env =
  st_version :: string
  st_codec :: dcodec
  st_dio :: dio
  st_sup :: sup_env
  st_sessions :: "(unit + nat) option"
  st_firewall :: "Status option"
  st_prn :: "bytes \<Rightarrow> bool"
  st_date :: "int \<Rightarrow> string"

definition agent_line :: "sup_env \<Rightarrow> sup \<Rightarrow> string \<times> sup" where
  "agent_line e w = (case ReadPIDFile (agentPid w) of
      Inl _ \<Rightarrow> (''not running'', w)
    | Inr pid \<Rightarrow> if IsProcessRunning e pid then (''running (PID '' @ itoa pid @ '')'', w)
                 else (''not running'', RemovePIDFile e w))"

definition sessions_text :: "(unit + nat) option \<Rightarrow> string" where
  "sessions_text s = (case s of None \<Rightarrow> ''0'' | Some (Inl _) \<Rightarrow> ''unknown'' | Some (Inr n) \<Rightarrow> nat_digits n)"

definition short_id :: "string \<Rightarrow> string" where
  "short_id i = (if length i > 12 then take 12 i @ ''...'' else i)"

definition device_lines :: "status_env \<Rightarrow> PairedDevice option \<Rightarrow> string list" where
  "device_lines e dev = (case dev of
      None \<Rightarrow> [''No device paired. Run 'pmux pair' to pair a mobile device.'']
    | Some d \<Rightarrow>
       (if pd_name d \<noteq> ''''
        then [''Paired device: '' @ SanitizeDisplayString (st_prn e) (pd_name d), ''  Device ID:  '' @ short_id (pd_id d)]
        else [''Paired device: '' @ SanitizeDisplayString (st_prn e) (short_id (pd_id d))]) @
       [''  Paired:     '' @ st_date e (pd_pairedAt d)])"

definition RunStatus :: "status_env \<Rightarrow> 's store \<Rightarrow> 's chost \<Rightarrow> (device_error + unit) \<times> 's chost" where
  "RunStatus e st h =
     (let h1 = (if st_version e \<noteq> '''' then say (''Version:  '' @ st_version e) h else h);
          (al, h2) = on_sup (agent_line (st_sup e)) h1;
          h3 = say (''Sessions: '' @ sessions_text (st_sessions e)) (say (''Agent:    '' @ al) h2);
          h4 = (case st_firewall e of
                  None \<Rightarrow> h3
                | Some f \<Rightarrow> if NeedsAttention f then say Warning h3 else h3);
          h5 = say '''' h4
      in case on_cdevs (LoadPairedDevice (st_codec e) st (st_dio e)) h5 of
           (Inl x, h6) \<Rightarrow> (Inl x, h6)
         | (Inr dev, h6) \<Rightarrow> (Inr (), h6\<lparr>ch_out := ch_out h6 @ device_lines e dev\<rparr>))"

section \<open>uninstall\<close>

datatype uninstall_error = ERemoveDir | ERemoveKeys id_error

text \<open>\<open>un_files\<close> are the files the secret store has in the keys directory (none, for a keyring), and
  \<open>un_put\<close> is the store after these files changed. \<open>un_removeAll\<close> is whether \<open>os.RemoveAll\<close>
  succeeds; when it fails it may have removed the files \<open>un_gone\<close>.\<close>

record 's uninst_env =
  un_response :: "string option"
  un_sup :: sup_env
  un_kio :: kio
  un_http :: httpenv
  un_toml :: "bytes \<Rightarrow> fileConfig option"
  un_env :: environ
  un_readOK :: bool
  un_codec :: dcodec
  un_dio :: dio
  un_removeAll :: bool
  un_gone :: "string \<Rightarrow> bool"
  un_rm :: "string \<Rightarrow> bool"
  un_rmdir :: bool
  un_files :: "'s \<Rightarrow> files"
  un_put :: "files \<Rightarrow> 's \<Rightarrow> 's"

definition key_names :: "string set" where
  "key_names = {publicKeyFile, secretsFileName, fallbackKeyFileName}"

definition keys_files :: "'s uninst_env \<Rightarrow> 's chost \<Rightarrow> files" where
  "keys_files e h = (ch_keydir h ++ un_files e (kstore (ch_keys h)))(publicKeyFile := map_option fst (pubFile (ch_keys h)))"

definition put_keys :: "'s uninst_env \<Rightarrow> files \<Rightarrow> 's chost \<Rightarrow> 's chost" where
  "put_keys e d h =
     h\<lparr>ch_keys := \<lparr>pubFile = (if d publicKeyFile = None then None else pubFile (ch_keys h)),
                   kstore = un_put e (d |` {secretsFileName, fallbackKeyFileName}) (kstore (ch_keys h))\<rparr>,
       ch_keydir := d |` (- key_names)\<rparr>"

definition config_read :: "bool \<Rightarrow> 's chost \<Rightarrow> file_read" where
  "config_read readable h = (case dir_files h configFile of
      None \<Rightarrow> NotExist | Some c \<Rightarrow> if readable then Contents c else file_read.ReadFailed)"

definition zero_config :: Config where
  "zero_config = \<lparr>Name = '''', LogLevel = '''', Server = \<lparr>URL = '''', APIVersion = ''''\<rparr>,
     Ident = \<lparr>KeyPath = '''', SecretBackend = ''''\<rparr>,
     Connection = \<lparr>Reconnect = '''', Keepalive = '''', MaxMobileConnections = 0, ForceRelay = False\<rparr>,
     Tmux = \<lparr>SocketName = '''', TmuxPath = ''''\<rparr>, Updates = \<lparr>Enabled = False, CheckInterval = ''''\<rparr>,
     Power = \<lparr>KeepAwake = False\<rparr>\<rparr>"

text \<open>\<open>cfg, _ := config.LoadConfig(path)\<close>: with an error, the zero value.\<close>

definition load_ignoring ::
  "(bytes \<Rightarrow> fileConfig option) \<Rightarrow> environ \<Rightarrow> bool \<Rightarrow> 's chost \<Rightarrow> Config" where
  "load_ignoring toml env readable h = (case LoadConfig toml env (config_read readable h) of
      Inl _ \<Rightarrow> zero_config | Inr c \<Rightarrow> c)"

definition bullet :: string where "bullet = [CHR '' '', CHR '' '', CHR 0xE2, CHR 0x80, CHR 0xA2, CHR '' '']"

definition keys_outside :: "Paths \<Rightarrow> bool" where
  "keys_outside p \<longleftrightarrow> \<not> has_prefix (KeysDir p @ [slash]) (ConfigDir p @ [slash])"

definition remove_targets :: "Paths \<Rightarrow> string" where
  "remove_targets p = ConfigDir p @ (if keys_outside p then ''; pmux key files in '' @ KeysDir p else '''')"

definition announce :: "string \<Rightarrow> bool \<Rightarrow> Paths \<Rightarrow> 's chost \<Rightarrow> 's chost" where
  "announce title keepConfig p h =
     h\<lparr>ch_out := ch_out h @ [title, bullet @ ''Stop the agent process''] @
        (if keepConfig then [] else [bullet @ ''Un-register this host from the signaling server'',
           bullet @ ''Delete config and keys ('' @ remove_targets p @ '')''])\<rparr>"

text \<open>Step 1: whether to go on.\<close>

definition uninstall_confirm :: "'s uninst_env \<Rightarrow> Paths \<Rightarrow> bool \<Rightarrow> bool \<Rightarrow> 's chost \<Rightarrow> bool \<times> 's chost" where
  "uninstall_confirm e p keepConfig skipConfirm h =
     (if skipConfirm then (True, say '''' (announce ''Uninstalling Pocketmux from this host:'' keepConfig p h))
      else
        let h1 = say (newline # ''Proceed with uninstall? [y/N] '')
                   (announce ''This will remove Pocketmux from this host:'' keepConfig p h)
        in case un_response e of
             None \<Rightarrow> (False, say ''Cancelled.'' (say '''' h1))
           | Some response \<Rightarrow>
              if to_lower response \<noteq> ''y'' then (False, say ''Cancelled.'' h1) else (True, say '''' h1))"

text \<open>Step 2. The text of the error is left out of the warning here and in step 3.\<close>

definition uninstall_stop :: "'s uninst_env \<Rightarrow> 's chost \<Rightarrow> 's chost" where
  "uninstall_stop e h = (case on_sup (StopRunning (un_sup e)) h of
      (Inl _, h1) \<Rightarrow> say ''Warning: could not stop agent'' h1
    | (Inr _, h1) \<Rightarrow> say ''Agent process stopped.'' h1)"

text \<open>Step 3: whether the identity could be loaded; telling the server is best effort.\<close>

definition uninstall_unregister :: "'s uninst_env \<Rightarrow> string \<Rightarrow> 's store \<Rightarrow> 's chost \<Rightarrow> bool \<times> 's chost" where
  "uninstall_unregister e hmac st h = (case on_ckeys (LoadIdentity st (un_kio e)) h of
      (Inl _, h1) \<Rightarrow> (False, say ''No identity found, skipping server un-registration.'' h1)
    | (Inr ident, h1) \<Rightarrow>
       (let cfg = load_ignoring (un_toml e) (un_env e) (un_readOK e) h1
        in case DeleteDevice (un_http e) ident (APIBaseURL cfg) hmac (ch_reqs h1) of
             (Inl _, l) \<Rightarrow> (True, say ''  The host may still appear on your mobile device.''
                                    (say ''Warning: could not un-register from server'' (h1\<lparr>ch_reqs := l\<rparr>)))
           | (Inr _, l) \<Rightarrow> (True, say ''Host un-registered from signaling server.'' (h1\<lparr>ch_reqs := l\<rparr>))))"

text \<open>Step 4, secrets: errors are ignored.\<close>

definition delete_secret :: "'s store \<Rightarrow> string \<Rightarrow> 's chost \<Rightarrow> 's chost" where
  "delete_secret st key h = h\<lparr>ch_keys := (ch_keys h)\<lparr>kstore := snd (sdel st key (kstore (ch_keys h)))\<rparr>\<rparr>"

definition uninstall_secrets :: "'s uninst_env \<Rightarrow> 's store \<Rightarrow> 's chost \<Rightarrow> 's chost" where
  "uninstall_secrets e st h = (case on_cdevs (LoadPairedDevice (un_codec e) st (un_dio e)) h of
      (Inr (Some d), h1) \<Rightarrow> delete_secret st SecretKeyEd25519Private (delete_secret st (SharedSecretKey (pd_id d)) h1)
    | (_, h1) \<Rightarrow> delete_secret st SecretKeyEd25519Private h1)"

text \<open>\<open>os.RemoveAll(paths.ConfigDir)\<close>: the directory with the PID file, the log and, unless they are
  outside, the keys.\<close>

definition remove_config_dir :: "'s uninst_env \<Rightarrow> Paths \<Rightarrow> 's chost \<Rightarrow> (uninstall_error + unit) \<times> 's chost" where
  "remove_config_dir e p h =
     (let lost = (\<lambda>n. un_removeAll e \<or> un_gone e n);
          cut = (\<lambda>d n. if lost n then None else d n);
          h1 = h\<lparr>ch_dir := (if un_removeAll e then None else map_option cut (ch_dir h)),
                 ch_sup := (ch_sup h)\<lparr>agentPid := (if lost ''agent.pid'' then NotExist else agentPid (ch_sup h))\<rparr>,
                 ch_log := (if lost ''agent.log'' then None else fst (ch_log h),
                            if lost ''agent.log.1'' then None else snd (ch_log h))\<rparr>;
          h2 = (if keys_outside p then h1 else put_keys e (cut (keys_files e h1)) h1)
      in (if un_removeAll e then Inr () else Inl ERemoveDir, h2))"

definition remove_key_files :: "'s uninst_env \<Rightarrow> 's chost \<Rightarrow> (uninstall_error + unit) \<times> 's chost" where
  "remove_key_files e h = (case RemoveKeyFiles (un_rm e) (un_rmdir e) (keys_files e h) of
      (r, d) \<Rightarrow> (case r of Inl x \<Rightarrow> Inl (ERemoveKeys x) | Inr _ \<Rightarrow> Inr (),
                 put_keys e (case d of None \<Rightarrow> Map.empty | Some d1 \<Rightarrow> d1) h))"

definition uninstall_remove :: "'s uninst_env \<Rightarrow> Paths \<Rightarrow> 's chost \<Rightarrow> (uninstall_error + unit) \<times> 's chost" where
  "uninstall_remove e p h = (case remove_config_dir e p h of
      (Inl x, h1) \<Rightarrow> (Inl x, h1)
    | (Inr _, h1) \<Rightarrow>
       (case (if keys_outside p then remove_key_files e h1 else (Inr (), h1)) of
          (Inl x, h2) \<Rightarrow> (Inl x, h2)
        | (Inr _, h2) \<Rightarrow> (Inr (), say (''Config directory removed ('' @ remove_targets p @ '').'') h2)))"

definition RunUninstall ::
  "'s uninst_env \<Rightarrow> Paths \<Rightarrow> 's store \<Rightarrow> bool \<Rightarrow> string \<Rightarrow> bool \<Rightarrow> 's chost \<Rightarrow> (uninstall_error + unit) \<times> 's chost" where
  "RunUninstall e p st keepConfig hmac skipConfirm h =
     (case uninstall_confirm e p keepConfig skipConfirm h of
        (False, h1) \<Rightarrow> (Inr (), h1)
      | (True, h1) \<Rightarrow>
         let h2 = uninstall_stop e h1;
             success = newline # ''Pocketmux uninstalled successfully.''
         in if keepConfig then (Inr (), say success (say ''Config and keys preserved (--keep-config).'' h2))
            else (case uninstall_unregister e hmac st h2 of
                    (known, h3) \<Rightarrow>
                      (case uninstall_remove e p (if known then uninstall_secrets e st h3 else h3) of
                         (Inl x, h4) \<Rightarrow> (Inl x, h4)
                       | (Inr _, h4) \<Rightarrow> (Inr (), say success h4))))"

section \<open>The command line\<close>

text \<open>How the process ends: with an exit code, or replaced by another program.\<close>

datatype process_end = Exit nat | Exec string "string list"

text \<open>\<open>ExecTmux\<close>: what \<open>exec.LookPath\<close> found and whether \<open>execve\<close> succeeds.\<close>

datatype proxy_error = ETmuxNotFound | EExec

definition ExecTmux :: "string option \<Rightarrow> (string \<Rightarrow> bool) \<Rightarrow> string \<Rightarrow> string \<Rightarrow> string list \<Rightarrow> proxy_error + string \<times> string list" where
  "ExecTmux lookPath execOK socket tmuxBin args =
     bindE (if tmuxBin \<noteq> '''' then Inr tmuxBin
            else case lookPath of None \<Rightarrow> Inl ETmuxNotFound | Some b \<Rightarrow> Inr b)
       (\<lambda>b. if execOK b then Inr (b, [''tmux'', ''-L'', socket] @ args) else Inl EExec)"

text \<open>The update command: the releases fetched by the check and by the update, the clock, and the answers
  from which the install method is detected.\<close>

record upd_cmd_env =
  uc_marshal :: "State \<Rightarrow> bytes option"
  uc_save :: save_env
  uc_save2 :: save_env
  uc_tmp :: string
  uc_tmp2 :: string
  uc_now :: int
  uc_build :: string
  uc_exe :: "string option"
  uc_links :: "string \<Rightarrow> string option"
  uc_query :: "string list \<Rightarrow> bool"
  uc_fetch1 :: "fetch_error + ReleaseInfo"
  uc_fetch2 :: "fetch_error + ReleaseInfo"
  uc_env :: upd_env
  uc_brew :: brew_env

definition update_method :: "upd_cmd_env \<Rightarrow> InstallMethod" where
  "update_method u = Detect (uc_build u) (uc_exe u) (uc_links u) (uc_query u)"

text \<open>The world of a command line. \<open>me_sessions\<close> answers the session listing for a socket and a
  binary, \<open>me_ended\<close> is how the signaling loop of \<open>agent run\<close> ended.\<close>

record 's menv =
  me_env :: environ
  me_toml :: "bytes \<Rightarrow> fileConfig option"
  me_cfgOK :: bool
  me_probe :: "store_error + unit"
  me_lookPath :: "string option"
  me_execOK :: "string \<Rightarrow> bool"
  me_mkdir :: "string \<Rightarrow> bool"
  me_version :: string
  me_hmac :: string
  me_prn :: "bytes \<Rightarrow> bool"
  me_unmarshal :: "bytes \<Rightarrow> State option"
  me_stateOK :: bool
  me_kio :: kio
  me_kio2 :: kio
  me_sup :: sup_env
  me_sup2 :: sup_env
  me_init :: init_env
  me_status :: status_env
  me_sessions :: "string \<Rightarrow> string \<Rightarrow> unit + nat"
  me_pair :: penv
  me_response :: "string option"
  me_uninst :: "'s uninst_env"
  me_upd :: upd_cmd_env
  me_agent :: aenv
  me_ended :: "sig_error option"
  me_cpuOK :: bool
  me_ps :: "bytes option"

definition loadEffectiveConfig :: "'s menv \<Rightarrow> 's chost \<Rightarrow> Config" where
  "loadEffectiveConfig m h = (case DefaultPaths (me_env m) of
      Inl _ \<Rightarrow> Defaults
    | Inr _ \<Rightarrow> (case LoadConfig (me_toml m) (me_env m) (config_read (me_cfgOK m) h) of
                   Inl _ \<Rightarrow> Defaults | Inr c \<Rightarrow> c))"

definition resolvePaths :: "'s menv \<Rightarrow> 's chost \<Rightarrow> config_error + Paths" where
  "resolvePaths m h = bindE (DefaultPaths (me_env m))
     (\<lambda>p. WithKeyPath (me_env m) p (KeyPath (Ident (loadEffectiveConfig m h))))"

definition initSecretStore :: "'s menv \<Rightarrow> Config \<Rightarrow> store_error + backend" where
  "initSecretStore m cfg = NewSecretStore (SecretBackend (Ident cfg)) (me_probe m)"

definition handler_config :: "'s menv \<Rightarrow> 's chost \<Rightarrow> Config" where
  "handler_config m h = load_ignoring (me_toml m) (me_env m) (me_cfgOK m) h"

definition exit_of :: "('e + 'a) \<times> 's chost \<Rightarrow> process_end \<times> 's chost" where
  "exit_of r = (Exit (if isOK (fst r) then 0 else 1), snd r)"

text \<open>The common start of the handlers: paths, then a secret store for the configuration.\<close>

definition with_paths :: "'s menv \<Rightarrow> (Paths \<Rightarrow> 's chost \<Rightarrow> process_end \<times> 's chost) \<Rightarrow> 's chost \<Rightarrow> process_end \<times> 's chost" where
  "with_paths m f h = (case resolvePaths m h of Inl _ \<Rightarrow> (Exit 1, h) | Inr p \<Rightarrow> f p h)"

definition with_store ::
  "'s menv \<Rightarrow> Config \<Rightarrow> (backend \<Rightarrow> 's chost \<Rightarrow> process_end \<times> 's chost) \<Rightarrow> 's chost \<Rightarrow> process_end \<times> 's chost" where
  "with_store m cfg f h = (case initSecretStore m cfg of Inl _ \<Rightarrow> (Exit 1, h) | Inr b \<Rightarrow> f b h)"

definition ensure_dirs :: "'s menv \<Rightarrow> Paths \<Rightarrow> 's chost \<Rightarrow> config_error option \<times> 's chost" where
  "ensure_dirs m p h = (fst (EnsureDirs (me_mkdir m) p),
     if me_mkdir m (ConfigDir p) then h\<lparr>ch_dir := Some (dir_files h)\<rparr> else h)"

definition ensureAgent :: "'s menv \<Rightarrow> (backend \<Rightarrow> 's store) \<Rightarrow> Config \<Rightarrow> 's chost \<Rightarrow> 's chost" where
  "ensureAgent m stores cfg h = (case resolvePaths m h of
      Inl _ \<Rightarrow> h
    | Inr _ \<Rightarrow> (case initSecretStore m cfg of
          Inl _ \<Rightarrow> h
        | Inr b \<Rightarrow> snd (on_ckeys_sup (EnsureRunning (stores b) (me_kio m) (me_sup m)) h)))"

definition handleInit :: "'s menv \<Rightarrow> (backend \<Rightarrow> 's store) \<Rightarrow> 's chost \<Rightarrow> process_end \<times> 's chost" where
  "handleInit m stores h = (case me_lookPath m of
      None \<Rightarrow> (Exit 1, h)
    | Some tmuxPath \<Rightarrow> with_paths m (\<lambda>p h.
        case ensure_dirs m p h of
          (Some _, h1) \<Rightarrow> (Exit 1, h1)
        | (None, h1) \<Rightarrow>
           (let cfg = handler_config m h1
            in with_store m cfg (\<lambda>b h. exit_of (RunInit (me_init m) p cfg b (stores b) tmuxPath h)) h1)) h)"

definition handleConfig :: "'s menv \<Rightarrow> 's chost \<Rightarrow> process_end \<times> 's chost" where
  "handleConfig m = with_paths m (\<lambda>p h.
     case LoadConfigWithSources (me_toml m) (me_env m) (config_read (me_cfgOK m) h) of
       Inl _ \<Rightarrow> (Exit 1, h)
     | Inr (cfg, sources) \<Rightarrow> (Exit 0, say (FormatEffective (me_prn m) cfg sources) h))"

text \<open>\<open>pair\<close> and \<open>unpair\<close> run on the pairing session's view of the host, which notes when the agent is
  stopped and restarted; the supervisor does both.\<close>

definition on_pair_host :: "('s host \<Rightarrow> 'r \<times> 's host) \<Rightarrow> 's chost \<Rightarrow> ('r \<times> effect list) \<times> 's chost" where
  "on_pair_host f h =
     (case f \<lparr>pubf = pubFile (ch_keys h), confdir = dir_files h, secs = kstore (ch_keys h),
              reqs = ch_reqs h, effects = [], sess = None\<rparr> of
        (r, w) \<Rightarrow> ((r, effects w),
          put_dir (confdir w) (h\<lparr>ch_keys := \<lparr>pubFile = pubf w, kstore = secs w\<rparr>, ch_reqs := reqs w\<rparr>)))"

definition reload_agent :: "sup_env \<Rightarrow> sup \<Rightarrow> sup" where
  "reload_agent e w = (case ReadPIDFile (agentPid w) of
      Inl _ \<Rightarrow> w | Inr pid \<Rightarrow> if IsAgentProcess e pid then signalReloadPairing e pid w else w)"

text \<open>Once the device is stored, \<open>RunPair\<close> asks an agent that is running after all (another command may
  have started it meanwhile) to read the pairing again; the deferred restart comes last.\<close>

definition pair_reload :: "sup_env \<Rightarrow> 'e + pair_outcome \<Rightarrow> 's chost \<Rightarrow> 's chost" where
  "pair_reload e r h = (case r of
      Inr (Paired _) \<Rightarrow> h\<lparr>ch_sup := reload_agent e (ch_sup h)\<rparr> | _ \<Rightarrow> h)"

definition pair_agent :: "'s menv \<Rightarrow> 's store \<Rightarrow> 'e + pair_outcome \<Rightarrow> effect list \<Rightarrow> 's chost \<Rightarrow> 's chost" where
  "pair_agent m st r fx h =
     (let h1 = (if Stopped \<in> set fx then snd (on_sup (StopRunning (me_sup m)) h) else h);
          h2 = pair_reload (me_sup m) r h1
      in if Restarted \<in> set fx then snd (on_ckeys_sup (EnsureRunning st (me_kio2 m) (me_sup2 m)) h2) else h2)"

definition pair_env :: "'s menv \<Rightarrow> Config \<Rightarrow> penv" where
  "pair_env m cfg = (me_pair m)\<lparr>serverURL := ServerURL cfg, apiBaseURL := APIBaseURL cfg,
     hostName := (if Name cfg = '''' then DefaultHostName (ie_hostname (me_init m)) else Name cfg),
     hmacSecret := me_hmac m\<rparr>"

definition handlePair :: "'s menv \<Rightarrow> (backend \<Rightarrow> 's store) \<Rightarrow> 's chost \<Rightarrow> process_end \<times> 's chost" where
  "handlePair m stores = with_paths m (\<lambda>p h.
     let cfg = handler_config m h
     in with_store m cfg (\<lambda>b h.
          case on_pair_host (RunPair (pair_env m cfg) (stores b)) h of
            ((r, fx), h1) \<Rightarrow> exit_of (r, pair_agent m (stores b) r fx h1)) h)"

text \<open>After a device was removed, \<open>RunUnpair\<close> tells a running agent to read the pairing again.\<close>

definition handleUnpair :: "'s menv \<Rightarrow> (backend \<Rightarrow> 's store) \<Rightarrow> 's chost \<Rightarrow> process_end \<times> 's chost" where
  "handleUnpair m stores = with_paths m (\<lambda>p h.
     let cfg = handler_config m h
     in with_store m cfg (\<lambda>b h.
          case on_pair_host (RunUnpair (pair_env m cfg) (stores b) (me_response m)) h of
            ((r, _), h1) \<Rightarrow>
              exit_of (r, if r = Inr True then h1\<lparr>ch_sup := reload_agent (me_sup m) (ch_sup h1)\<rparr> else h1)) h)"

fun uninstall_flags :: "string list \<Rightarrow> bool \<times> bool \<Rightarrow> bool \<times> bool" where
  "uninstall_flags [] f = f"
| "uninstall_flags (a # as) (keep, skip) =
     uninstall_flags as
       (if a = ''--keep-config'' then (True, skip)
        else if a = ''--yes'' \<or> a = ''-y'' then (keep, True) else (keep, skip))"

definition handleUninstall :: "'s menv \<Rightarrow> (backend \<Rightarrow> 's store) \<Rightarrow> string list \<Rightarrow> 's chost \<Rightarrow> process_end \<times> 's chost" where
  "handleUninstall m stores args =
     (case uninstall_flags args (False, False) of (keep, skip) \<Rightarrow>
        with_paths m (\<lambda>p h.
          let h1 = snd (ensure_dirs m p h); cfg = handler_config m h1;
              e = (me_uninst m)\<lparr>un_toml := me_toml m, un_env := me_env m, un_readOK := me_cfgOK m\<rparr>
          in with_store m cfg
               (\<lambda>b h. exit_of (RunUninstall e p (stores b) keep (me_hmac m) skip h)) h1))"

definition handleStatus :: "'s menv \<Rightarrow> (backend \<Rightarrow> 's store) \<Rightarrow> 's chost \<Rightarrow> process_end \<times> 's chost" where
  "handleStatus m stores = with_paths m (\<lambda>p h.
     let cfg = handler_config m h;
         client = configured_client (me_lookPath m) (SocketName (Tmux cfg)) (TmuxPath (Tmux cfg)) ();
         params = (me_status m)\<lparr>st_version := me_version m, st_sessions := Some (me_sessions m (Socket client) (TmuxBin client))\<rparr>
     in with_store m cfg (\<lambda>b h. exit_of (RunStatus params (stores b) h)) h)"

section \<open>The subcommands of agent\<close>

fun run_flags :: "string list \<Rightarrow> string \<times> string \<Rightarrow> string \<times> string" where
  "run_flags (a # b # as) (cpu, mem) =
     (if a = ''--cpuprofile'' then run_flags as (b, mem)
      else if a = ''--memprofile'' then run_flags as (cpu, b)
      else run_flags (b # as) (cpu, mem))"
| "run_flags _ f = f"

text \<open>\<open>runAgent\<close> with profiling: a CPU profile that cannot be started ends the process before the agent
  runs; the memory profile only adds a file.\<close>

definition agent_run :: "'s menv \<Rightarrow> (backend \<Rightarrow> 's store) \<Rightarrow> string \<Rightarrow> 's chost \<Rightarrow> process_end \<times> 's chost" where
  "agent_run m stores cpuProfile = with_paths m (\<lambda>p h.
     if cpuProfile \<noteq> '''' \<and> \<not> me_cpuOK m then (Exit 1, h)
     else
       let e = (me_agent m)\<lparr>ae_toml := me_toml m, ae_env := me_env m, ae_cfg := config_read (me_cfgOK m) h,
                            ae_probe := me_probe m, ae_version := me_version m\<rparr>
       in case runAgent e stores (me_ended m)
                 \<lparr>ah_pub = pubFile (ch_keys h), ah_dir = dir_files h, ah_sec = kstore (ch_keys h),
                  ah_sup = ch_sup h, ah_log = ch_log h\<rparr> of
            (c, w) \<Rightarrow> (Exit c, put_dir (ah_dir w)
               (h\<lparr>ch_keys := \<lparr>pubFile = ah_pub w, kstore = ah_sec w\<rparr>, ch_sup := ah_sup w, ch_log := ah_log w\<rparr>)))"

definition handleAgentStatus :: "'s menv \<Rightarrow> 's chost \<Rightarrow> process_end \<times> 's chost" where
  "handleAgentStatus m = with_paths m (\<lambda>p h.
     exit_of (on_sup (RunAgentDetail (me_version m) (me_sup m) (me_ps m) (fst (ch_log h))) h))"

definition handleAgentStop :: "'s menv \<Rightarrow> 's chost \<Rightarrow> process_end \<times> 's chost" where
  "handleAgentStop m = with_paths m (\<lambda>p h. case on_sup (RunAgentStop (me_sup m)) h of
      (Inl x, h1) \<Rightarrow> (Exit 1, if x = ErrAgentNotRunning then say ''Agent is not running'' h1 else h1)
    | (Inr _, h1) \<Rightarrow> (Exit 0, h1))"

definition handleAgentStart :: "'s menv \<Rightarrow> (backend \<Rightarrow> 's store) \<Rightarrow> 's chost \<Rightarrow> process_end \<times> 's chost" where
  "handleAgentStart m stores = with_paths m (\<lambda>p h. with_store m (loadEffectiveConfig m h)
     (\<lambda>b h. exit_of (on_ckeys_sup (RunAgentStart (stores b) (me_kio m) (me_sup m)) h)) h)"

definition handleAgentRestart :: "'s menv \<Rightarrow> (backend \<Rightarrow> 's store) \<Rightarrow> 's chost \<Rightarrow> process_end \<times> 's chost" where
  "handleAgentRestart m stores = with_paths m (\<lambda>p h. with_store m (loadEffectiveConfig m h)
     (\<lambda>b h. exit_of (on_ckeys_sup
        (RunAgentRestart (stores b) (me_kio m) (me_sup m) (me_kio2 m) (me_sup2 m)) h)) h)"

definition handleAgent :: "'s menv \<Rightarrow> (backend \<Rightarrow> 's store) \<Rightarrow> string list \<Rightarrow> 's chost \<Rightarrow> process_end \<times> 's chost" where
  "handleAgent m stores args h = (case args of
      [] \<Rightarrow> (Exit 1, h)
    | a # as \<Rightarrow>
       if a = ''run'' then agent_run m stores (fst (run_flags as ('''', ''''))) h
       else if a = ''start'' then handleAgentStart m stores h
       else if a = ''stop'' then handleAgentStop m h
       else if a = ''restart'' then handleAgentRestart m stores h
       else if a = ''status'' then handleAgentStatus m h
       else (Exit 1, h))"

section \<open>update\<close>

definition stateFile :: string where "stateFile = ''update-state.json''"

definition method_name :: "InstallMethod \<Rightarrow> string" where
  "method_name x = (case x of MethodDev \<Rightarrow> ''dev'' | MethodSnap \<Rightarrow> ''snap'' | MethodDeb \<Rightarrow> ''deb''
     | MethodRPM \<Rightarrow> ''rpm'' | MethodHomebrew \<Rightarrow> ''homebrew'' | MethodGitHub \<Rightarrow> ''github'')"

definition arrow :: string where "arrow = [CHR '' '', CHR 0xE2, CHR 0x86, CHR 0x92, CHR '' '']"

definition cleared :: "State \<Rightarrow> State" where
  "cleared s = zero_state\<lparr>CurrentVersion := LatestVersion s, LatestVersion := LatestVersion s,
     InstallMethodName := InstallMethodName s\<rparr>"

definition apply_release ::
  "upd_cmd_env \<Rightarrow> State \<Rightarrow> 's chost \<Rightarrow> process_end \<times> 's chost" where
  "apply_release u s h = (case uc_fetch2 u of
      Inl _ \<Rightarrow> (Exit 1, h)
    | Inr release \<Rightarrow>
       (case Update (uc_env u) (uc_brew u) (NewUpdater (update_method u)) release of
          Some (ElevationRequired cmd) \<Rightarrow>
            (Exit 0, say (''Finish the update by running:'' @ [newline, newline] @ ''  '' @ cmd @ [newline]) h)
        | Some _ \<Rightarrow> (Exit 1, h)
        | None \<Rightarrow>
           (Exit 0, say ''Update complete! The agent will restart on the next pmux command.''
              (put_dir (snd (SaveState (uc_marshal u) (uc_save2 u) (uc_tmp2 u) stateFile (cleared s) (dir_files h))) h))))"

definition stops_agent :: "InstallMethod \<Rightarrow> bool" where
  "stops_agent x \<longleftrightarrow> x = MethodGitHub \<or> x = MethodHomebrew"

definition handleUpdate :: "'s menv \<Rightarrow> 's chost \<Rightarrow> process_end \<times> 's chost" where
  "handleUpdate m = with_paths m (\<lambda>p h.
     let u = me_upd m;
         h1 = say ''Checking for updates...'' h
     in case Check (uc_marshal u) (uc_save u) (uc_tmp u) stateFile (me_version m) (uc_now u) (method_name (update_method u))
               (uc_fetch1 u) (dir_files h1) of
          (Inl _, d) \<Rightarrow> (Exit 1, put_dir d h1)
        | (Inr s, d) \<Rightarrow>
           (let h2 = put_dir d h1 in
            if \<not> UpdateAvail s then (Exit 0, say (''pmux is up to date (version '' @ me_version m @ '')'') h2)
            else
              let h3 = say (''Install method: '' @ method_name (update_method u) @ [newline])
                         (say (''Update available: '' @ CurrentVersion s @ arrow @ LatestVersion s) h2);
                  h4 = (if stops_agent (update_method u) then snd (on_sup (RunAgentStop (me_sup m)) h3) else h3)
              in apply_release u s h4))"

section \<open>main\<close>

definition pocketmux_commands :: "string list" where
  "pocketmux_commands = [''init'', ''pair'', ''config'', ''status'', ''unpair'', ''uninstall'', ''update'', ''agent'',
     ''--version'', ''-v'', ''--help'', ''-h'']"

definition isPocketmuxCommand :: "string \<Rightarrow> bool" where
  "isPocketmuxCommand cmd \<longleftrightarrow> cmd \<in> set pocketmux_commands"

definition print_banner :: "'s menv \<Rightarrow> 's chost \<Rightarrow> 's chost" where
  "print_banner m h = (case resolvePaths m h of
      Inl _ \<Rightarrow> h
    | Inr _ \<Rightarrow> (case banner (LoadState (me_unmarshal m) (me_stateOK m) stateFile (dir_files h)) (me_version m) of
          None \<Rightarrow> h
        | Some (cur, latest) \<Rightarrow>
           h\<lparr>ch_banner := ch_banner h @ [''A new version of pmux is available: '' @ cur @ arrow @ latest @
              ''. Run 'pmux update' to update.'']\<rparr>))"

definition passthrough :: "'s menv \<Rightarrow> (backend \<Rightarrow> 's store) \<Rightarrow> string list \<Rightarrow> 's chost \<Rightarrow> process_end \<times> 's chost" where
  "passthrough m stores args h =
     (let cfg = loadEffectiveConfig m h; h1 = ensureAgent m stores cfg h
      in case ExecTmux (me_lookPath m) (me_execOK m) (SocketName (Tmux cfg)) (TmuxPath (Tmux cfg)) args of
           Inl _ \<Rightarrow> (Exit 1, h1) | Inr (b, argv) \<Rightarrow> (Exec b argv, h1))"

definition main :: "'s menv \<Rightarrow> (backend \<Rightarrow> 's store) \<Rightarrow> string list \<Rightarrow> 's chost \<Rightarrow> process_end \<times> 's chost" where
  "main m stores args h = (case args of
      [] \<Rightarrow> passthrough m stores [] h
    | a # as \<Rightarrow>
       let h1 = (if isPocketmuxCommand a then print_banner m h else h) in
       if a = ''init'' then handleInit m stores h1
       else if a = ''pair'' then handlePair m stores h1
       else if a = ''config'' then handleConfig m h1
       else if a = ''status'' then handleStatus m stores h1
       else if a = ''unpair'' then handleUnpair m stores h1
       else if a = ''uninstall'' then handleUninstall m stores as h1
       else if a = ''update'' then handleUpdate m h1
       else if a = ''agent'' then handleAgent m stores as h1
       else if a = ''--version'' \<or> a = ''-v'' then (Exit 0, say (''pmux version '' @ me_version m) h1)
       else if a = ''--help'' \<or> a = ''-h'' then (Exit 0, h1)
       else passthrough m stores args h1)"

section \<open>Facts about the commands\<close>

lemma say_frame [simp]:
  "ch_keys (say t h) = ch_keys h" "ch_dir (say t h) = ch_dir h" "ch_keydir (say t h) = ch_keydir h"
  "ch_sup (say t h) = ch_sup h" "ch_log (say t h) = ch_log h" "ch_reqs (say t h) = ch_reqs h"
  "ch_banner (say t h) = ch_banner h" "dir_files (say t h) = dir_files h"
  by (simp_all add: say_def dir_files_def)

lemma dir_files_frame [simp]:
  "dir_files (h\<lparr>ch_keys := k\<rparr>) = dir_files h" "dir_files (h\<lparr>ch_sup := w\<rparr>) = dir_files h"
  "dir_files (h\<lparr>ch_reqs := l\<rparr>) = dir_files h" "dir_files (h\<lparr>ch_out := t\<rparr>) = dir_files h"
  "dir_files (h\<lparr>ch_dir := Some d\<rparr>) = d"
  by (simp_all add: dir_files_def)

lemma PrintFirewallNotice_frame [simp]:
  "ch_keys (PrintFirewallNotice f h) = ch_keys h" "dir_files (PrintFirewallNotice f h) = dir_files h"
  by (simp_all add: PrintFirewallNotice_def split: option.splits)

lemma HasIdentity_pub: "HasIdentity st io k = (r, k1) \<Longrightarrow> pubFile k1 = pubFile k"
  by (auto simp: HasIdentity_def CheckIdentity_def split: prod.splits sum.splits if_splits)

lemma enforceKeyFilePerms_data: "enforceKeyFilePerms io g = (q, f) \<Longrightarrow> map_option fst f = map_option fst g"
  by (auto simp: enforceKeyFilePerms_def split: option.splits if_splits prod.splits)

lemma LoadIdentity_pub:
  assumes "LoadIdentity st io k = (r, k1)"
  shows "map_option fst (pubFile k1) = map_option fst (pubFile k)"
proof -
  obtain q f where q: "enforceKeyFilePerms io (pubFile k) = (q, f)" by fastforce
  have "map_option fst f = map_option fst (pubFile k)" by (rule enforceKeyFilePerms_data [OF q])
  moreover have "pubFile k1 = f"
    using assms q by (auto simp: LoadIdentity_def Let_def split: prod.splits sum.splits option.splits if_splits bool.splits)
  ultimately show ?thesis by simp
qed

lemma on_ckeys_eq: "on_ckeys f h = (r, h1) \<longleftrightarrow> r = fst (f (ch_keys h)) \<and> h1 = h\<lparr>ch_keys := snd (f (ch_keys h))\<rparr>"
  by (auto simp: on_ckeys_def split: prod.splits)

lemma write_config_files:
  assumes "write_config e c h = (r, h1)"
  shows "ch_keys h1 = ch_keys h \<and> dir_files h1 = (dir_files h)(configFile := if ie_writeOK e then Some c else ie_left e)"
  using assms by (auto simp: write_config_def split: if_splits)

lemma existing_config_frame [simp]:
  "existing_config e (h\<lparr>ch_keys := k\<rparr>) = existing_config e h" "existing_config e (say t h) = existing_config e h"
  by (simp_all add: existing_config_def)

text \<open>What init does to the configuration directory: nothing but writing the configuration file, and a
  configuration that could be read stays as the end of the new one.\<close>

definition config_preserved :: "init_env \<Rightarrow> files \<Rightarrow> files \<Rightarrow> bool" where
  "config_preserved e d d' \<longleftrightarrow> (\<forall>n. n \<noteq> configFile \<longrightarrow> d' n = d n) \<and>
     (\<forall>c. d configFile = Some c \<and> ie_readOK e \<and> ie_writeOK e \<longrightarrow> (\<exists>new. d' configFile = Some (new @ c)))"

lemma config_preserved_refl [simp]: "config_preserved e d d"
  by (auto simp: config_preserved_def intro: exI [of _ "[]"])

lemma init_settings_preserved:
  assumes "init_settings e cfg tmux h = (nm, r, h')"
  shows "config_preserved e (dir_files h) (dir_files h') \<and> ch_keys h' = ch_keys h"
proof -
  have "existing_config e h = None \<Longrightarrow> \<not> ie_readOK e \<or> dir_files h configFile = None"
    "existing_config e h = Some x \<Longrightarrow> dir_files h configFile = Some x" for x
    by (auto simp: existing_config_def split: if_splits)
  then show ?thesis
    using assms
    by (auto simp: init_settings_def Let_def config_preserved_def prepend_name_def
        dest!: write_config_files split: option.splits if_splits)
qed

lemma RunInit_new:
  assumes "\<not> fst (HasIdentity st (ie_kio e) (ch_keys h))" "RunInit e p cfg b st tmux h = (r, h')"
  shows "config_preserved e (dir_files h) (dir_files h') \<and>
    ch_keys h' = snd (GenerateIdentity st (ie_kio e) (snd (HasIdentity st (ie_kio e) (ch_keys h))))"
  using assms
  by (auto simp: RunInit_def on_ckeys_eq dest!: init_settings_preserved split: prod.splits sum.splits bool.splits)

lemma RunInit_again:
  assumes "fst (HasIdentity st (ie_kio e) (ch_keys h))" "RunInit e p cfg b st tmux h = (r, h')"
  shows "dir_files h' = dir_files h \<and>
    ch_keys h' = snd (LoadIdentity st (ie_kio e) (snd (HasIdentity st (ie_kio e) (ch_keys h))))"
  using assms
  by (auto simp: RunInit_def on_ckeys_eq Let_def split: prod.splits sum.splits bool.splits)

context secret_store
begin

lemma HasIdentity_secrets:
  assumes "ok (kstore k)" "HasIdentity st io k = (r, k1)"
  shows "ok (kstore k1) \<and> secrets_of (kstore k1) = secrets_of (kstore k)"
  using assms get_state [OF assms(1)]
  by (auto simp: HasIdentity_def CheckIdentity_def split: prod.splits sum.splits if_splits)

lemma LoadIdentity_secrets:
  assumes "ok (kstore k)" "LoadIdentity st io k = (r, k1)"
  shows "ok (kstore k1) \<and> secrets_of (kstore k1) = secrets_of (kstore k)"
  using assms get_state [OF assms(1)]
  by (auto simp: LoadIdentity_def enforceKeyFilePerms_def Let_def
      split: prod.splits sum.splits option.splits if_splits bool.splits)

text \<open>A second init leaves the key pair alone.\<close>

lemma RunInit_keeps_keys:
  assumes "ok (kstore (ch_keys h))" "fst (HasIdentity st (ie_kio e) (ch_keys h))" "RunInit e p cfg b st tmux h = (r, h')"
  shows "secrets_of (kstore (ch_keys h')) = secrets_of (kstore (ch_keys h)) \<and>
    map_option fst (pubFile (ch_keys h')) = map_option fst (pubFile (ch_keys h))"
proof -
  obtain q k1 where k1: "HasIdentity st (ie_kio e) (ch_keys h) = (q, k1)" by fastforce
  obtain q2 k2 where k2: "LoadIdentity st (ie_kio e) k1 = (q2, k2)" by fastforce
  have "ch_keys h' = k2" using RunInit_again [OF assms(2,3)] k1 k2 by simp
  with HasIdentity_secrets [OF assms(1) k1] LoadIdentity_secrets [OF _ k2] HasIdentity_pub [OF k1] LoadIdentity_pub [OF k2]
  show ?thesis by simp
qed

end

section \<open>Properties\<close>


text \<open>An existing configuration that cannot be read counts as missing and is replaced.\<close>

lemma unreadable_config_replaced:
  assumes "\<not> ie_readOK e" "ie_writeOK e" "\<not> fst (HasIdentity st (ie_kio e) (ch_keys h))"
    and "RunInit e p cfg b st tmux h = (Inr (), h')"
  shows "dir_files h' configFile = Some (init_config (ie_prn e) (prompted_name e) tmux)"
  using assms
  by (auto simp: RunInit_def on_ckeys_eq init_settings_def existing_config_def Let_def
      dest!: write_config_files split: prod.splits sum.splits bool.splits)

subsection \<open>Uninstalling\<close>

text \<open>A step that leaves the files of the host and its PID file alone.\<close>

definition same_files :: "'s chost \<Rightarrow> 's chost \<Rightarrow> bool" where
  "same_files h h' \<longleftrightarrow> ch_dir h' = ch_dir h \<and> ch_keydir h' = ch_keydir h \<and> ch_keys h' = ch_keys h \<and>
     ch_log h' = ch_log h \<and> ch_reqs h' = ch_reqs h \<and> ch_banner h' = ch_banner h"

lemma same_files_say [simp]: "same_files h (say t h') = same_files h h'" "same_files h h"
  by (simp_all add: same_files_def)

lemma uninstall_confirm_frame:
  "uninstall_confirm e p keep skip h = (go, h1) \<Longrightarrow> same_files h h1 \<and> ch_sup h1 = ch_sup h \<and>
   (go \<longleftrightarrow> skip \<or> (\<exists>a. un_response e = Some a \<and> to_lower a = ''y''))"
  by (auto simp: uninstall_confirm_def announce_def Let_def same_files_def split: if_splits option.splits)

lemma uninstall_stop_frame: "same_files h (uninstall_stop e h) \<and> ch_sup (uninstall_stop e h) = snd (StopRunning (un_sup e) (ch_sup h))"
  by (auto simp: uninstall_stop_def on_sup_def same_files_def split: prod.splits sum.splits)

lemma put_dir_keydir [simp]: "ch_keydir (put_dir d h) = ch_keydir h"
  by (simp add: put_dir_def)

lemma uninstall_unregister_keydir: "uninstall_unregister e hmac st h = (known, h1) \<Longrightarrow> ch_keydir h1 = ch_keydir h"
  by (auto simp: uninstall_unregister_def on_ckeys_eq Let_def split: prod.splits sum.splits)

lemma uninstall_secrets_keydir [simp]: "ch_keydir (uninstall_secrets e st h) = ch_keydir h"
  by (auto simp: uninstall_secrets_def on_cdevs_def delete_secret_def split: prod.splits sum.splits option.splits)

lemma put_keys_keydir: "n \<notin> key_names \<Longrightarrow> ch_keydir (put_keys e d h) n = d n"
  by (simp add: put_keys_def)

text \<open>Removing the key files of a directory outside keeps everything else in it.\<close>

lemma remove_key_files_foreign:
  assumes "remove_key_files e h = (r, h1)" "ch_keydir h n = Some c" "n \<notin> key_names"
    and "un_files e (kstore (ch_keys h)) n = None"
  shows "ch_keydir h1 n = Some c"
proof -
  obtain q d where q: "RemoveKeyFiles (un_rm e) (un_rmdir e) (keys_files e h) = (q, d)" by fastforce
  have "keys_files e h n = Some c" using assms(2-4) by (auto simp: keys_files_def key_names_def map_add_def)
  from RemoveKeyFiles_foreign [OF q this] obtain d1 where "d = Some d1" "d1 n = Some c"
    using assms(3) by (auto simp: key_names_def)
  then show ?thesis
    using assms(1) q put_keys_keydir [OF assms(3), of e d1 h] by (auto simp: remove_key_files_def)
qed

lemma remove_each_keeps_gone: "remove_each rm ns d = (r, d1) \<Longrightarrow> d n = None \<Longrightarrow> d1 n = None"
  by (induction ns arbitrary: d) (auto split: if_splits)

lemma remove_each_gone: "remove_each rm ns d = (Inr (), d1) \<Longrightarrow> n \<in> set ns \<Longrightarrow> d1 n = None"
  by (induction ns arbitrary: d) (auto split: if_splits dest: remove_each_keeps_gone [of _ _ _ _ _ n])

lemma RemoveKeyFiles_gone:
  assumes "RemoveKeyFiles rm rd d = (Inr (), Some d1)"
  shows "d1 publicKeyFile = None"
proof -
  obtain q d2 where q: "remove_each rm [publicKeyFile, secretsFileName, fallbackKeyFileName] d = (q, d2)" by fastforce
  show ?thesis
    using assms remove_each_gone [of rm "[publicKeyFile, secretsFileName, fallbackKeyFileName]" d d2 publicKeyFile] q
    by (auto simp: RemoveKeyFiles_def simp del: remove_each.simps split: sum.splits if_splits)
qed

lemma remove_key_files_done:
  assumes "remove_key_files e h = (Inr (), h1)"
  shows "pubFile (ch_keys h1) = None"
proof -
  obtain q d where q: "RemoveKeyFiles (un_rm e) (un_rmdir e) (keys_files e h) = (q, d)" by fastforce
  have ok: "q = Inr ()" using assms q by (simp add: remove_key_files_def split: sum.splits)
  have "(case d of None \<Rightarrow> Map.empty | Some d1 \<Rightarrow> d1) publicKeyFile = None"
    using q ok by (auto dest: RemoveKeyFiles_gone split: option.splits)
  then show ?thesis using assms q by (auto simp: remove_key_files_def put_keys_def)
qed

lemma remove_config_dir_outside:
  "keys_outside p \<Longrightarrow> ch_keydir (snd (remove_config_dir e p h)) = ch_keydir h \<and> ch_keys (snd (remove_config_dir e p h)) = ch_keys h"
  by (simp add: remove_config_dir_def Let_def)

lemma uninstall_remove_foreign:
  assumes "uninstall_remove e p h = (r, h1)" "keys_outside p" "ch_keydir h n = Some c" "n \<notin> key_names"
    and "\<And>s. un_files e s n = None"
  shows "ch_keydir h1 n = Some c"
proof -
  obtain q h2 where q: "remove_config_dir e p h = (q, h2)" by fastforce
  then have h2: "ch_keydir h2 n = Some c" using remove_config_dir_outside [OF assms(2), of e h] assms(3) by simp
  obtain q2 h3 where q2: "remove_key_files e h2 = (q2, h3)" by fastforce
  have "ch_keydir h3 n = Some c" using remove_key_files_foreign [OF q2 h2 assms(4) assms(5)] .
  with h2 show ?thesis using assms(1,2) q q2 by (auto simp: uninstall_remove_def split: sum.splits)
qed

lemma remove_config_dir_result: "fst (remove_config_dir e p h) = (if un_removeAll e then Inr () else Inl ERemoveDir)"
  by (simp add: remove_config_dir_def Let_def)

lemma uninstall_remove_done:
  assumes "uninstall_remove e p h = (Inr (), h1)"
  shows "ch_dir h1 = None \<and> pubFile (ch_keys h1) = None \<and> agentPid (ch_sup h1) = NotExist \<and> ch_log h1 = (None, None)"
proof -
  obtain q h2 where q: "remove_config_dir e p h = (q, h2)" by fastforce
  then have "q = (if un_removeAll e then Inr () else Inl ERemoveDir)" using remove_config_dir_result [of e p h] by simp
  with assms q have r: "un_removeAll e" "q = Inr ()" by (auto simp: uninstall_remove_def split: if_splits)
  have h2: "ch_dir h2 = None" "agentPid (ch_sup h2) = NotExist" "ch_log h2 = (None, None)"
    "\<not> keys_outside p \<Longrightarrow> pubFile (ch_keys h2) = None"
    using q r by (auto simp: remove_config_dir_def Let_def put_keys_def split: if_splits)
  show ?thesis
  proof (cases "keys_outside p")
    case True
    then obtain h3 where h3: "remove_key_files e h2 = (Inr (), h3)" "h1 = say (''Config directory removed ('' @ remove_targets p @ '').'') h3"
      using assms q r by (auto simp: uninstall_remove_def split: sum.splits prod.splits)
    moreover have "ch_dir h3 = ch_dir h2 \<and> ch_sup h3 = ch_sup h2 \<and> ch_log h3 = ch_log h2"
      using h3(1) by (auto simp: remove_key_files_def put_keys_def split: prod.splits sum.splits)
    ultimately show ?thesis using h2 remove_key_files_done [OF h3(1)] by simp
  qed (use assms q r h2 in \<open>auto simp: uninstall_remove_def\<close>)
qed

text \<open>How an uninstall goes.\<close>

lemma RunUninstall_cases:
  assumes "RunUninstall e p st keep hmac skip h = (r, h')"
  obtains (cancelled) "\<not> skip" "\<And>a. un_response e = Some a \<Longrightarrow> to_lower a \<noteq> ''y''" "same_files h h'" "ch_sup h' = ch_sup h"
    | (kept) "keep" "same_files h h'" "ch_sup h' = snd (StopRunning (un_sup e) (ch_sup h))"
    | (removed) h1 h2 where "\<not> keep" "ch_keydir h1 = ch_keydir h" "uninstall_remove e p h1 = (r, h2)"
        "ch_dir h' = ch_dir h2" "ch_keydir h' = ch_keydir h2" "ch_keys h' = ch_keys h2" "ch_sup h' = ch_sup h2" "ch_log h' = ch_log h2"
proof -
  obtain go h1 where h1: "uninstall_confirm e p keep skip h = (go, h1)" by fastforce
  note f = uninstall_confirm_frame [OF h1] uninstall_stop_frame [of h1 e]
  consider "\<not> go" | "go" "keep" | "go" "\<not> keep" by blast
  then show thesis
  proof cases
    case 1 then show thesis using cancelled f assms h1 by (auto simp: RunUninstall_def)
  next
    case 2 then show thesis using kept f assms h1 by (auto simp: RunUninstall_def Let_def same_files_def)
  next
    case 3
    obtain known h3 where h3: "uninstall_unregister e hmac st (uninstall_stop e h1) = (known, h3)" by fastforce
    let ?h = "if known then uninstall_secrets e st h3 else h3"
    obtain q h4 where h4: "uninstall_remove e p ?h = (q, h4)" by fastforce
    have "ch_keydir ?h = ch_keydir h" using f uninstall_unregister_keydir [OF h3] by (simp add: same_files_def)
    moreover have "r = q" "h' = h4 \<or> (\<exists>t. h' = say t h4)"
      using 3 assms h1 h3 h4 by (auto simp: RunUninstall_def Let_def split: sum.splits)
    ultimately show thesis using removed [of ?h h4] 3 h4 by auto
  qed
qed


subsection \<open>The command line\<close>

text \<open>A handler ends the process itself: it never becomes tmux.\<close>

definition exits :: "process_end \<times> 's chost \<Rightarrow> bool" where
  "exits r \<longleftrightarrow> (case fst r of Exit _ \<Rightarrow> True | Exec _ _ \<Rightarrow> False)"

lemma exits_simps [simp]: "exits (Exit c, h)" "exits (exit_of x)" "\<not> exits (Exec b a, h)"
  by (simp_all add: exits_def exit_of_def)

lemma apply_release_exits [simp]: "exits (apply_release u s h)"
  by (auto simp: apply_release_def split: sum.splits option.splits update_error.splits)

lemma setup_handlers_exit: "exits (handleInit m stores h)" "exits (handleConfig m h)" "exits (handlePair m stores h)"
  "exits (handleUnpair m stores h)" "exits (handleUninstall m stores args h)" "exits (handleStatus m stores h)"
  unfolding handleInit_def handleConfig_def handlePair_def handleUnpair_def handleUninstall_def handleStatus_def
  by (auto simp: with_paths_def with_store_def Let_def split: option.splits prod.splits sum.splits)

lemma handleUpdate_exits: "exits (handleUpdate m h)"
  unfolding handleUpdate_def by (auto simp: with_paths_def Let_def split: prod.splits sum.splits)

lemma agent_handlers_exit: "exits (agent_run m stores cpu h)" "exits (handleAgentStatus m h)" "exits (handleAgentStop m h)"
  "exits (handleAgentStart m stores h)" "exits (handleAgentRestart m stores h)"
  unfolding agent_run_def handleAgentStatus_def handleAgentStop_def handleAgentStart_def handleAgentRestart_def
  by (auto simp: with_paths_def with_store_def Let_def split: prod.splits sum.splits)

lemma handleAgent_exits: "exits (handleAgent m stores args h)"
  by (auto simp: handleAgent_def agent_handlers_exit split: list.splits)

lemma main_passthrough: "args = [] \<or> \<not> isPocketmuxCommand (hd args) \<Longrightarrow> main m stores args h = passthrough m stores args h"
  by (cases args) (simp_all add: main_def isPocketmuxCommand_def pocketmux_commands_def Let_def)

lemma pocketmux_exits: "isPocketmuxCommand a \<Longrightarrow> exits (main m stores (a # as) h)"
  by (auto simp: main_def isPocketmuxCommand_def pocketmux_commands_def Let_def setup_handlers_exit handleUpdate_exits
      handleAgent_exits)

lemma passthrough_exec:
  "fst (passthrough m stores args h) = Exec b argv \<longleftrightarrow>
   (let cfg = loadEffectiveConfig m h; bin = TmuxPath (Tmux cfg)
    in argv = [''tmux'', ''-L'', SocketName (Tmux cfg)] @ args \<and> me_execOK m b \<and>
       (if bin \<noteq> '''' then b = bin else me_lookPath m = Some b))"
  by (auto simp: passthrough_def ExecTmux_def Let_def split: sum.splits option.splits if_splits)

text \<open>Property C28. The command line is split cleanly between pmux and tmux: the process becomes tmux exactly
  when the first word is none of pmux's commands (those that show the banner are those that are
  intercepted) and a tmux binary is found and can be executed; tmux then gets the configured
  socket and all the words of the command line, unchanged and in order, and nothing else.\<close>

theorem tmux_passthrough:
  "fst (main m stores args h) = Exec b argv \<longleftrightarrow>
   \<not> (args \<noteq> [] \<and> isPocketmuxCommand (hd args)) \<and>
   (let cfg = loadEffectiveConfig m h; bin = TmuxPath (Tmux cfg)
    in argv = [''tmux'', ''-L'', SocketName (Tmux cfg)] @ args \<and> me_execOK m b \<and>
       (if bin \<noteq> '''' then b = bin else me_lookPath m = Some b))"
proof (cases "args \<noteq> [] \<and> isPocketmuxCommand (hd args)")
  case True
  then have "exits (main m stores args h)" using pocketmux_exits [of "hd args" m stores "tl args" h] by simp
  then have "fst (main m stores args h) \<noteq> Exec b argv" by (auto simp: exits_def)
  with True show ?thesis by blast
next
  case False
  then have "main m stores args h = passthrough m stores args h" by (simp add: main_passthrough)
  moreover have "args = [] \<or> \<not> isPocketmuxCommand (hd args)" using False by blast
  ultimately show ?thesis using passthrough_exec [of m stores args h b argv] by metis
qed

subsection \<open>Updating\<close>

lemma put_dir_files [simp]: "dir_files (put_dir d h) = d"
  by (simp add: put_dir_def)

lemma put_dir_sup [simp]: "ch_sup (put_dir d h) = ch_sup h"
  by (simp add: put_dir_def)

text \<open>The update command keeps its promises about the agent and the banner: an agent is
  stopped only by the install methods that replace the binary; and when the release could not be
  fetched or the update did not complete (also when it needs the user's elevated command), the
  recorded state stays the one that announced the update.\<close>

lemma update_keeps_state:
  assumes "resolvePaths m h = Inr p" and "u = me_upd m"
    and "Check (uc_marshal u) (uc_save u) (uc_tmp u) stateFile (me_version m) (uc_now u)
           (method_name (update_method u)) (uc_fetch1 u) (dir_files h) = (Inr s, d)"
    and "handleUpdate m h = (r, h')"
  shows "(ch_sup h' \<noteq> ch_sup h \<longrightarrow> UpdateAvail s \<and> stops_agent (update_method u)) \<and>
    (\<not> UpdateAvail s \<or> (\<forall>rel. uc_fetch2 u = Inr rel \<longrightarrow> Update (uc_env u) (uc_brew u) (NewUpdater (update_method u)) rel \<noteq> None)
      \<longrightarrow> dir_files h' = d)"
proof -
  have ap: "ch_sup (snd (apply_release u s x)) = ch_sup x" for x :: "'a chost"
    by (auto simp: apply_release_def split: sum.splits option.splits update_error.splits)
  have keep: "dir_files (snd (apply_release u s x)) = dir_files x"
    if "\<forall>rel. uc_fetch2 u = Inr rel \<longrightarrow> Update (uc_env u) (uc_brew u) (NewUpdater (update_method u)) rel \<noteq> None" for x :: "'a chost"
    using that by (auto simp: apply_release_def split: sum.splits option.splits update_error.splits)
  have stop: "dir_files (snd (on_sup f x)) = dir_files x" for f :: "sup \<Rightarrow> (sup_error + unit) \<times> sup" and x :: "'a chost"
    by (simp add: on_sup_def split: prod.splits)
  show ?thesis
  proof (cases "UpdateAvail s")
    case False
    then show ?thesis using assms by (auto simp: handleUpdate_def with_paths_def Let_def)
  next
    case True
    let ?h3 = "say (''Install method: '' @ method_name (update_method u) @ [newline])
      (say (''Update available: '' @ CurrentVersion s @ arrow @ LatestVersion s) (put_dir d (say ''Checking for updates...'' h)))"
    let ?h4 = "if stops_agent (update_method u) then snd (on_sup (RunAgentStop (me_sup m)) ?h3) else ?h3"
    have "handleUpdate m h = apply_release u s ?h4"
      unfolding handleUpdate_def with_paths_def Let_def using assms(1-3) True by simp
    then have "h' = snd (apply_release u s ?h4)" using assms(4) by (metis snd_conv)
    moreover have "dir_files ?h4 = d" by (simp add: stop)
    ultimately show ?thesis using ap [of ?h4] keep [of ?h4] True by auto
  qed
qed

text \<open>A configuration file that does not parse: the subcommands of \<open>main.go\<close> that talk to the server
  (\<open>pair\<close>, \<open>unpair\<close>, \<open>uninstall\<close>) do so with an empty address, and \<open>status\<close> asks about the default
  socket by way of the empty name, while the agent falls back to the default configuration.\<close>

lemma handlers_disagree_on_bad_config:
  assumes "dir_files h configFile = Some c" "me_cfgOK m" "me_toml m c = None" "DefaultPaths (me_env m) = Inr p"
  shows "ServerURL (handler_config m h) = ''''" "ServerURL (loadEffectiveConfig m h) = defaultServerURL"
    "Socket (NewClient (me_lookPath m) (SocketName (Tmux (handler_config m h))) ()) = SocketName (Tmux (loadEffectiveConfig m h))"
  using assms
  by (simp_all add: handler_config_def load_ignoring_def LoadConfig_def config_read_def zero_config_def
      loadEffectiveConfig_def Defaults_def ServerURL_def NewClient_def DefaultSocket_def)

section \<open>Witnesses\<close>

text \<open>A host without identity whose configuration was written before \<open>init\<close>.\<close>

definition demo_paths :: Paths where
  "demo_paths = \<lparr>ConfigDir = ''/c'', KeysDir = ''/home'', PairedDevices = ''/c/paired_devices.json'', ConfigFile = ''/c/config.toml''\<rparr>"

definition idle_sup :: sup where "idle_sup = \<lparr>agentPid = NotExist, sent = [], children = [], printed = []\<rparr>"

definition demo_chost :: "'s keys \<Rightarrow> 's chost" where
  "demo_chost k = \<lparr>ch_keys = k, ch_dir = Some [configFile \<mapsto> ''[server]''], ch_keydir = [''notes.txt'' \<mapsto> ''mine''],
     ch_sup = idle_sup, ch_log = (Some ''log'', None), ch_reqs = [], ch_out = [], ch_banner = []\<rparr>"

definition demo_init :: init_env where
  "demo_init = \<lparr>ie_prn = (\<lambda>_. True), ie_kio = demo_kio, ie_readOK = True, ie_writeOK = True, ie_left = None,
     ie_input = ''work'', ie_hostname = None, ie_firewall = None\<rparr>"


definition demo_uninst :: "secrets uninst_env" where
  "demo_uninst = \<lparr>un_response = None, un_sup = sup_ok 9, un_kio = demo_kio, un_http = demo_httpenv, un_toml = (\<lambda>_. None),
     un_env = Map.empty, un_readOK = True, un_codec = \<lparr>dmarshal = (\<lambda>_. None), dunmarshal = (\<lambda>_. None)\<rparr>, un_dio = toy_dio,
     un_removeAll = True, un_gone = (\<lambda>_. False), un_rm = (\<lambda>_. True), un_rmdir = True,
     un_files = (\<lambda>_. Map.empty), un_put = (\<lambda>_ s. s)\<rparr>"

text \<open>A host whose keys lie in a directory of the user, without a private key.\<close>

definition demo_mkeys :: "secrets keys" where "demo_mkeys = \<lparr>pubFile = Some (demo_pub, 384), kstore = []\<rparr>"

lemma demo_outside: "keys_outside demo_paths"
  by (simp add: keys_outside_def demo_paths_def slash_def)

lemma demo_uninstall_ok: "fst (RunUninstall demo_uninst demo_paths memory_store False '''' True (demo_chost demo_mkeys)) = Inr ()"
  using demo_outside
  by (simp add: RunUninstall_def uninstall_confirm_def uninstall_stop_def on_sup_def StopRunning_def ReadPIDFile_def
      demo_chost_def idle_sup_def announce_def uninstall_unregister_def on_ckeys_def LoadIdentity_def enforceKeyFilePerms_def
      demo_uninst_def demo_kio_def demo_mkeys_def keyFilePerms_def memory_store_def Memory_Get_def uninstall_remove_def
      remove_config_dir_def remove_key_files_def RemoveKeyFiles_def say_def Let_def)


end
