(* ===== verification/Spec2Isabelle.thy ===== *)
theory Spec2Isabelle
  imports Protocol Compress Title_Filter Tmux_Client Pane_Bridge Peer_Auth Peer_Manager Update Handler Pair_Session Signaling
    Signal_Link Turn_Relay Host_Session Idle_Cleaner Config Supervisor Agent Host_Power Firewall Commands
begin

text \<open>
  A verification development for the Pocketmux agent, the program \<open>pmux\<close> under \<open>src/\<close>.
  The agent lets one paired mobile device use the tmux sessions of a host: it registers
  with a signaling server, accepts WebRTC connections of the paired device, checks on every
  connection that the peer holds the shared secret of the pairing, and then serves requests
  (list sessions, attach a pane, type, resize, kill) by calling tmux. The server is not trusted
  with any of this; it only relays. The same binary is the command line: it sets a host up, pairs
  and unpairs it, starts and stops the background agent, updates itself, and passes every other
  command line on to tmux.

  \<^bold>\<open>Theories and the code they model.\<close>

  \<^item> \<open>Prelude\<close>, \<open>Go_Std\<close>, \<open>Utf8\<close>, \<open>Go_Text\<close>: shared types, the error monad \<open>bindE\<close>, the locale \<open>machine\<close> of
    transition systems with its reachability and invariant rules, and the parts of Go's standard
    library the program uses (strings, strconv, hex, base64, SHA-256 and HMAC, UTF-8 runes, paths,
    quoting, durations), all executable.
  \<^item> \<open>Protocol\<close>: \<open>internal/protocol\<close> (messages.go, validation.go, codec.go); \<open>Compress\<close>: compress.go.
  \<^item> \<open>Title_Filter\<close>: \<open>internal/tmux/titlefilter.go\<close>, a byte-wise state machine.
  \<^item> \<open>Tmux_Client\<close>: \<open>internal/tmux/tmux.go\<close>, every command line that reaches tmux.
  \<^item> \<open>Pane_Bridge\<close>: \<open>internal/tmux/pty.go\<close> and \<open>resize.go\<close>, pipes and forced window sizes.
  \<^item> \<open>Peer_Auth\<close>, \<open>Peer_Manager\<close>: \<open>internal/webrtc/peer.go\<close>, one connection and the table of connections,
    each an interleaving machine split at the lock boundaries of the code.
    \<open>Turn_Relay\<close>: the ICE servers of a new connection and the request for TURN credentials.
  \<^item> \<open>Signaling\<close>: \<open>internal/webrtc/signaling.go\<close>, the run loop and the calls of other goroutines; \<open>Signal_Link\<close>:
    heartbeat, pongs and read deadline of one open connection, with the configured interval.
  \<^item> \<open>Handler\<close>: \<open>internal/agent/handler.go\<close>, requests and output streams; \<open>Idle_Cleaner\<close>: \<open>cleanup.go\<close>, which
    acts on the handler and the connection table together.
  \<^item> \<open>Host_Session\<close>: all connections with the handler, as agent.go wires them. The locale \<open>component\<close>
    states when a system contains a component; it is interpreted for every connection and for the
    handler, so that what was proved of them alone holds in the whole.
  \<^item> \<open>Secret_Store\<close>, \<open>Identity\<close>, \<open>Pairing\<close>, \<open>Pair_Session\<close>: \<open>internal/auth\<close> and the commands
    \<open>pair\<close> and \<open>unpair\<close> of \<open>internal/agent\<close>. The locale \<open>secret_store\<close> is the contract of the secret
    store; it is interpreted on the memory, keyring and encrypted-file backends.
  \<^item> \<open>Update\<close>: \<open>internal/update\<close>.
  \<^item> \<open>Config\<close>: \<open>internal/config/config.go\<close>, layers, sources, validation and paths.
  \<^item> \<open>Supervisor\<close>: pidfile.go, procargs, supervisor.go and the commands \<open>agent start\<close>, \<open>stop\<close>, \<open>restart\<close> and
    \<open>status\<close>; once more with \<open>EnsureRunning\<close> split at its system calls for concurrent callers.
  \<^item> \<open>Agent\<close>: agent.go and monitor.go, the wiring of all of the above and the machine of pairing reloads,
    signaling messages and connections.
  \<^item> \<open>Host_Power\<close>: sleepwatch (with the binding of IOKit) and keepawake; \<open>Firewall\<close>: \<open>internal/firewall\<close>.
  \<^item> \<open>Commands\<close>: \<open>cmd/pmux/main.go\<close>, \<open>internal/proxy\<close>, and the commands init, status and uninstall.

  \<^bold>\<open>How the parts interact.\<close> A command line enters \<open>Commands.main\<close>, which resolves paths and
  configuration (\<open>Config\<close>), picks a secret store (\<open>Secret_Store\<close>), and calls the operations of
  \<open>Identity\<close>, \<open>Pair_Session\<close>, \<open>Supervisor\<close> and \<open>Update\<close>. A passthrough starts the agent and becomes
  tmux. The agent (\<open>Agent.Run\<close>) loads identity and pairing, connects (\<open>Signaling\<close>), hands the server's
  messages to the connection table (\<open>Peer_Manager\<close>), whose connections (\<open>Peer_Auth\<close>) hand decoded requests
  (\<open>Protocol\<close>) to the \<open>Handler\<close>, which drives \<open>Tmux_Client\<close>, \<open>Pane_Bridge\<close>, \<open>Title_Filter\<close> and the
  compressor. Processes talk to the agent through the PID file and signals. \<open>Host_Session\<close> composes
  connections and handler; the last section of this theory composes the command \<open>unpair\<close>, the
  files and the reload of the agent.

  \<^bold>\<open>State and effects.\<close> A structure of the code is a record, an operation a function that returns
  the new state, an error a value of the left summand. What the operating system, the network, tmux
  and codecs answer is an argument (a record of answers, or a function), so a statement holds for
  every behaviour of theirs; where a theorem relies on documented behaviour (a cipher opens what it
  sealed, a JSON codec restores what it wrote), this is a named hypothesis, and its witness gives a
  concrete instance. Code that runs concurrently is an \<open>inductive\<close> step relation over the critical
  sections, and its invariants are proved for all interleavings.

  \<^bold>\<open>What the lemmas show.\<close>

  \<^item> Authorisation: only the device of the last loaded pairing enters the table, requests are served
    only after the proof of the secret, nothing is sent before the host's own proof, a device has
    no effect on the host before its proof or after its stop; unpairing cuts a device off.
  \<^item> Pairing: a device is stored only with a verified MAC, a held pairing is answered once, a failed
    run keeps the old pairing, what was stored is what a later process loads.
  \<^item> Requests and panes: the tables of the handler agree in every reachable state, input reaches
    only the pane of its sender, a closing bridge never cuts a newer pipe, invalid targets never reach
    tmux, the title filter does not depend on how output was chunked.
  \<^item> Secrets and identity: the file store refines a map, writes are atomic, signatures are bound to the
    configured server.
  \<^item> The link to the server: a sleeping host is offline, retries are paced, an \<open>https\<close> server is only
    dialled over TLS, an answered heartbeat keeps the connection and a silent one is given up in time.
  \<^item> The host: precedence of configuration, bounds on intervals, signals only to agents, at most one
    agent, sleep and wake-up, init and uninstall touch only what they should, the passthrough is exact.

  \<^bold>\<open>Bounds and fuel.\<close> The size limits are those of the code: 1 MiB for a message, 512 bytes for a
  buffered title, 1 MiB for release information, 64 KiB for a line of the log. Loops over bytes
  and lists are structural or have a termination proof. \<open>strip_prefixes\<close> and \<open>unpack\<close> take the length of their
  input as fuel, which is enough because every round consumes at least one byte. Polling loops
  take the list of observations made before the deadline of the code; numbers are \<open>int\<close> with
  the 64-bit range written out where the code parses or rounds.

  \<^bold>\<open>Not modelled.\<close> Third-party code: WebRTC, WebSocket, MessagePack, TOML, go-keyring, the D-Bus client, the C
  functions of IOKit, ciphers and key agreement, deflate; they are parameters. Of the repository: log
  output (with the diagnostics \<open>logDTLSInfo\<close> and \<open>logSelectedCandidatePair\<close>), profiling, the help
  text, the QR image and most prompts; the deadlines of HTTP requests and of a connection cycle, which
  appear as failed calls; file permissions other than those the code checks; the recovery from
  panics. Each has no effect on the state the theorems speak of. A reconnect of a device is part of
  \<open>Peer_Manager\<close>; in \<open>Host_Session\<close> every device has one connection.
\<close>

section \<open>Unpairing, across the command and the agent\<close>

text \<open>What a successful \<open>unpair\<close> leaves on disk, from the laws of the store.\<close>

context secret_store
begin

lemma RunUnpair_removes:
  assumes "ok (secs w)" "codec_ok (dcd e)" "RunUnpair e st resp w = (Inr True, w')"
  obtains d ds where "devices_of (dcd e) (secrets_of (secs w)) (confdir w) = Some (d # ds)" "ok (secs w')"
    "secrets_of (secs w') = (secrets_of (secs w))(SharedSecretKey (pd_id d) := None)"
    "devices_of (dcd e) (secrets_of (secs w')) (confdir w') = Some (filter (\<lambda>x. pd_id x \<noteq> pd_id d) ds)"
proof -
  obtain d w1 where l: "on_devs (LoadPairedDevice (dcd e) st (loadIO e)) w = (Inr (Some d), w1)"
    using assms(3) by (auto simp: RunUnpair_def split: prod.splits sum.splits option.splits)
  obtain ds where ds: "LoadPairedDevices (dcd e) st (loadIO e) \<lparr>cdir = confdir w, sec = secs w\<rparr> =
      (Inr (d # ds), \<lparr>cdir = confdir w1, sec = secs w1\<rparr>)"
    using l by (auto simp: on_devs_def LoadPairedDevice_def split: prod.splits sum.splits list.splits)
  note L = LoadPairedDevices_laws [OF _ ds]
  obtain q w2 where w2: "on_keys (LoadIdentity st (pkio e)) w1 = (q, w2)" by fastforce
  obtain k where k: "LoadIdentity st (pkio e) \<lparr>pubFile = pubf w1, kstore = secs w1\<rparr> = (q, k)" "secs w2 = kstore k" "confdir w2 = confdir w1"
    using w2 by (auto simp: on_keys_def split: prod.splits)
  have o1: "ok (secs w1)" "secrets_of (secs w1) = secrets_of (secs w)" "confdir w1 = confdir w"
    "devices_of (dcd e) (secrets_of (secs w)) (confdir w) = Some (d # ds)"
    using L assms(1) by auto
  have o2: "ok (secs w2)" "secrets_of (secs w2) = secrets_of (secs w)"
    using LoadIdentity_secrets [OF _ k(1)] o1 k(2) by auto
  let ?w3 = "case q of Inl _ \<Rightarrow> w2 | Inr ident \<Rightarrow> snd (on_http (DeletePairing (he e) ident (apiBaseURL e) (hmacSecret e)) w2)"
  have w3: "confdir ?w3 = confdir w" "secs ?w3 = secs w2"
    using k(3) o1(3) by (auto simp: on_http_def split: sum.splits prod.splits)
  have "on_devs (RemovePairedDevice (dcd e) st (removeIO e) (pd_id d)) ?w3 = (Inr (), w')"
    using assms(3) l w2 by (auto simp: RunUnpair_def Let_def split: prod.splits sum.splits option.splits if_splits)
  then have r: "RemovePairedDevice (dcd e) st (removeIO e) (pd_id d) \<lparr>cdir = confdir ?w3, sec = secs ?w3\<rparr> =
      (Inr (), \<lparr>cdir = confdir w', sec = secs w'\<rparr>)"
    by (auto simp: on_devs_def split: prod.splits)
  have "ok (sec \<lparr>cdir = confdir ?w3, sec = secs ?w3\<rparr>)" using o2 w3 by simp
  from RemovePairedDevice_laws [OF this assms(2) r] show thesis
    using that [of d ds] o1(4) o2 w3 by auto
qed

end

text \<open>The device that may connect after the pairing was loaded from these files is one of the listed devices, or nobody.\<close>

lemma allowed_listed:
  assumes "crypto_works cr" "random_fills io" "file_consistent cr s" "devices_of c (file_secrets cr s) dir = Some ds"
    and "LoadPairedDevice c (file_store cr io) di \<lparr>cdir = dir, sec = NewFileSecretStore (disk s)\<rparr> = (r, v)"
    and "isOK (ValidateDeviceID (allowed_for r))"
  shows "allowed_for r \<in> pd_id ` set ds"
proof -
  let ?w = "\<lparr>cdir = dir, sec = NewFileSecretStore (disk s)\<rparr>"
  obtain q u where q: "LoadPairedDevices c (file_store cr io) di ?w = (q, u)" by fastforce
  have f: "crypto_works cr \<and> random_fills io \<and> file_consistent cr (sec ?w)" "file_secrets cr (sec ?w) = file_secrets cr s"
    using assms(1-3) by (auto simp: file_consistent_def file_secrets_def NewFileSecretStore_def split: option.splits)
  have q2: "q = Inr ds2 \<Longrightarrow> ds2 = ds" for ds2
    using filed.LoadPairedDevices_laws [OF f(1) q] f(2) assms(4) by simp
  show ?thesis
    using assms(5,6) q q2 sentinel_invalid
    by (auto simp: LoadPairedDevice_def allowed_for_def split: sum.splits list.splits)
qed


section \<open>Witness\<close>

text \<open>A host that was paired with \<open>toy_device\<close>, whose public key file is missing.\<close>

definition toy_paired :: "fstore devs" where
  "toy_paired = snd (AddPairedDevice toy_codec (file_store toy toy_io) toy_dio toy_device toy_devs)"

definition paired_host :: "fstore host" where
  "paired_host = \<lparr>pubf = None, confdir = cdir toy_paired, secs = sec toy_paired, reqs = [], effects = [], sess = None\<rparr>"

lemma toy_paired_add: "AddPairedDevice toy_codec (file_store toy toy_io) toy_dio toy_device toy_devs = (Inr (), toy_paired)"
  unfolding toy_paired_def using toy_add by (metis prod.collapse)

lemma toy_set_loaded:
  "File_Set toy toy_io k x toy_fresh = (Inr (), s) \<Longrightarrow> fs_loaded s \<and> fs_secrets s = [(k, x)]"
  by (auto simp: File_Set_def toy_fresh_def NewFileSecretStore_def ensureLoaded_def flush_def
      encrypt_def toy_machine replace_file_def Let_def toy_io_def io_reads_def)

lemma toy_paired_loaded: "fs_loaded (sec toy_paired)" "fs_secrets (sec toy_paired) = [(SharedSecretKey (pd_id toy_device), ''key'')]"
proof -
  have b: "pd_secret toy_device \<noteq> []" "b64_decode (pd_secret toy_device) = Some ''key''"
    unfolding toy_device_def PairedDevice.simps by (simp add: Let_def) (rule b64_decode_encode)
  have v: "ValidateDeviceID (pd_id toy_device) = Inr ()"
    using deriveDeviceID_valid [of demo_pub] by (simp add: toy_device_def isOK_iff)
  obtain s1 where s: "File_Set toy toy_io (SharedSecretKey (pd_id toy_device)) ''key'' toy_fresh = (Inr (), s1)"
    using toy_fset(1) by (metis prod.collapse)
  have "sec toy_paired = s1"
    unfolding toy_paired_def using b s v
    by (simp add: AddPairedDevice_def file_store_def toy_devs_def save_into_def split: prod.splits)
  with toy_set_loaded [OF s] show "fs_loaded (sec toy_paired)" "fs_secrets (sec toy_paired) = [(SharedSecretKey (pd_id toy_device), ''key'')]"
    by simp_all
qed

lemma toy_paired_file:
  obtains data where "cdir toy_paired pairedDevicesFile = Some data"
    "dunmarshal toy_codec data = Some [toy_device\<lparr>pd_secret := ''''\<rparr>]"
proof -
  have u: "utf8_valid (pd_name toy_device)" "isOK (ValidateDeviceID (pd_id toy_device))"
    using deriveDeviceID_valid [of demo_pub] by (simp_all add: toy_device_def utf8_ascii between_def)
  obtain x where x: "save_into toy_codec toy_dio [toy_device] x = (Inr (), toy_paired)"
    using toy_paired_add by (auto simp: AddPairedDevice_def split: sum.splits prod.splits option.splits if_splits)
  obtain data where data: "cdir toy_paired pairedDevicesFile = Some data" "dmarshal toy_codec [toy_device] = Some data"
    using save_into_file(2) [OF x] by auto
  then have "dunmarshal toy_codec data = Some [toy_device\<lparr>pd_secret := ''''\<rparr>]"
    using codec_restores [OF toy_codec_ok _ data(2)] u utf8_device_id(1) [OF u(2)] by (simp add: device_utf8_def)
  with data(1) show thesis using that by blast
qed

lemma toy_paired_load:
  "LoadPairedDevices toy_codec (file_store toy toy_io) toy_dio toy_paired = (Inr [toy_device], toy_paired)"
proof -
  obtain data where "cdir toy_paired pairedDevicesFile = Some data"
    "dunmarshal toy_codec data = Some [toy_device\<lparr>pd_secret := ''''\<rparr>]"
    by (rule toy_paired_file)
  moreover have "sget (file_store toy toy_io) (SharedSecretKey (pd_id toy_device)) (sec toy_paired) = (Inr ''key'', sec toy_paired)"
    by (simp add: file_store_def File_Get_def ensureLoaded_def toy_paired_loaded lookup_result_def)
  moreover have "toy_device\<lparr>pd_secret := b64_encode ''key''\<rparr> = toy_device" by (simp add: toy_device_def)
  ultimately show ?thesis by (simp add: LoadPairedDevices_def toy_dio_def del: b64_encode.simps)
qed

lemma toy_paired_unpair:
  obtains w' where "RunUnpair (demo_penv []) (file_store toy toy_io) (Some ''y'') paired_host = (Inr True, w')"
proof -
  let ?e = "demo_penv []" and ?st = "file_store toy toy_io"
  have p: "dcd ?e = toy_codec" "loadIO ?e = toy_dio" "removeIO ?e = toy_dio" "pkio ?e = demo_kio" by (simp_all add: demo_penv_def)
  have h: "\<lparr>cdir = confdir paired_host, sec = secs paired_host\<rparr> = toy_paired" by (simp add: paired_host_def)
  have load: "on_devs (LoadPairedDevice toy_codec ?st toy_dio) paired_host = (Inr (Some toy_device), paired_host)"
    unfolding on_devs_def h by (simp add: LoadPairedDevice_def toy_paired_load) (simp add: paired_host_def)
  have ident: "on_keys (LoadIdentity ?st demo_kio) paired_host = (Inl EStatPub, paired_host)"
    by (simp add: on_keys_def LoadIdentity_def enforceKeyFilePerms_def paired_host_def)
  have "fst (File_Delete toy toy_io k (sec toy_paired)) = Inr ()" for k
    by (simp add: File_Delete_def ensureLoaded_def toy_paired_loaded flush_def encrypt_def toy_machine replace_file_def Let_def
        toy_io_def io_reads_def)
  then obtain s2 where s2: "File_Delete toy toy_io (SharedSecretKey (pd_id toy_device)) (sec toy_paired) = (Inr (), s2)"
    by (metis prod.collapse)
  have "fst (RemovePairedDevice toy_codec ?st toy_dio (pd_id toy_device) toy_paired) = Inr ()"
    using s2 toy_save by (simp add: RemovePairedDevice_def toy_paired_load) (simp add: file_store_def)
  then obtain w' where w': "on_devs (RemovePairedDevice toy_codec ?st toy_dio (pd_id toy_device)) paired_host = (Inr (), w')"
    unfolding on_devs_def h by (metis (mono_tags, lifting) case_prod_unfold prod.collapse fst_conv)
  have "to_lower ''y'' = ''y''" by code_simp
  then have "RunUnpair ?e ?st (Some ''y'') paired_host = (Inr True, w')"
    using load ident w' by (simp add: RunUnpair_def p)
  then show thesis by (rule that)
qed


end
